theory Spec2Isabelle
  imports Complex_Main "HOL-Library.Char_ord" "HOL-Library.List_Lexorder" "HOL-Library.Multiset"
begin

section \<open>JavaScript values\<close>

text \<open>
  The dashboard scripts handle JSON data from the REST API and text read from the DOM.
  A JavaScript number is modelled by its value: \<open>Fin r\<close> for a finite double with the
  rational value \<open>r\<close>, the two infinities and \<open>NaN\<close>. The results of reading a decimal
  literal and of the arithmetic operators are rounded to the nearest double, as IEEE 754
  asks; negative zero is not told apart from zero. Strings are lists of the characters
  with a code below 256 (Latin-1), compared by character code, as JavaScript compares UTF-16
  code units.
\<close>

datatype jsnum = NaN | NegInf | Fin rat | PosInf

datatype jsval = JUndefined | JNull | JBool bool | JNum jsnum | JStr string

abbreviation dquote :: char where "dquote \<equiv> CHR 0x22"
abbreviation newline :: char where "newline \<equiv> CHR 0x0A"
abbreviation comma :: char where "comma \<equiv> CHR '',''"
abbreviation creturn :: char where "creturn \<equiv> CHR 0x0D"

text \<open>The decimal digits of a natural number.\<close>

definition digitChar :: "nat \<Rightarrow> char" where
  "digitChar d = ''0123456789'' ! (d mod 10)"

function natToString :: "nat \<Rightarrow> string" where
  "natToString n = (if n < 10 then [digitChar n] else natToString (n div 10) @ [digitChar (n mod 10)])"
  by pat_completeness auto
termination
  by (relation "measure id") auto

declare natToString.simps [simp del]

subsection \<open>Doubles\<close>

text \<open>
  Rounding to the nearest double (IEEE 754 binary64, round to nearest, ties to even). The
  exponent of a rational \<open>r \<noteq> 0\<close> is the \<open>e\<close> with \<open>2\<^sup>e \<le> \<bar>r\<bar> < 2\<^sup>e\<^sup>+\<^sup>1\<close>, found from the
  lengths in bits of the numerator and the denominator. A double with that exponent is a
  multiple of \<open>2\<^sup>e\<^sup>-\<^sup>5\<^sup>2\<close>, the unit in the last place, and below \<open>2\<^sup>-\<^sup>1\<^sup>0\<^sup>2\<^sup>2\<close> a multiple of
  \<open>2\<^sup>-\<^sup>1\<^sup>0\<^sup>7\<^sup>4\<close>. The rational is rounded to the nearest multiple, to the even one on a tie,
  and to an infinity when the multiple reaches \<open>2\<^sup>1\<^sup>0\<^sup>2\<^sup>4\<close>.
\<close>

function bitLength :: "int \<Rightarrow> int" where
  "bitLength n = (if n \<le> 0 then 0 else 1 + bitLength (n div 2))"
  by pat_completeness auto
termination
  by (relation "measure nat") auto

declare bitLength.simps [simp del]

definition pow2 :: "int \<Rightarrow> rat" where
  "pow2 e = (if 0 \<le> e then 2 ^ nat e else 1 / 2 ^ nat (- e))"

definition exponentOf :: "rat \<Rightarrow> int" where
  "exponentOf r =
     (let (p, q) = quotient_of \<bar>r\<bar>;
          e = bitLength p - bitLength q
      in if pow2 e \<le> \<bar>r\<bar> then e else e - 1)"

definition roundHalfEven :: "rat \<Rightarrow> int" where
  "roundHalfEven x =
     (let f = \<lfloor>x\<rfloor>; d = x - of_int f
      in if d < 1 / 2 then f
         else if 1 / 2 < d then f + 1
         else if even f then f else f + 1)"

definition roundDouble :: "rat \<Rightarrow> jsnum" where
  "roundDouble r =
     (if r = 0 then Fin 0
      else
        (let e = max (exponentOf r) (- 1022);
             ulp = pow2 (e - 52);
             n = roundHalfEven (\<bar>r\<bar> / ulp)
         in if 1023 < e \<or> (e = 1023 \<and> n = 9007199254740992)
            then (if r < 0 then NegInf else PosInf)
            else Fin (if r < 0 then - (of_int n * ulp) else of_int n * ulp)))"

subsection \<open>The string of a number\<close>

text \<open>The decimal digits of an integer that is not negative, and the powers of ten.\<close>

function intDigits :: "int \<Rightarrow> string" where
  "intDigits i = (if i < 10 then [digitChar (nat i)] else intDigits (i div 10) @ [digitChar (nat (i mod 10))])"
  by pat_completeness auto
termination
  by (relation "measure nat") auto

declare intDigits.simps [simp del]

definition pow10 :: "int \<Rightarrow> rat" where
  "pow10 e = (if 0 \<le> e then 10 ^ nat e else 1 / 10 ^ nat (- e))"

text \<open>
  The decimal exponent of a positive number \<open>x\<close>: the \<open>n\<close> with \<open>10\<^sup>n\<^sup>-\<^sup>1 \<le> x < 10\<^sup>n\<close>. Above 1 it
  is the number of digits of the integer part; below 1 the zeros after the decimal point
  are counted, of which a double has fewer than 400.
\<close>

fun zerosAfterPoint :: "nat \<Rightarrow> rat \<Rightarrow> int" where
  "zerosAfterPoint 0 x = 0"
| "zerosAfterPoint (Suc fuel) x =
     (if 1 \<le> x * 10 then 0 else 1 + zerosAfterPoint fuel (x * 10))"

definition decimalExponent :: "rat \<Rightarrow> int" where
  "decimalExponent x =
     (if 1 \<le> x then int (length (intDigits \<lfloor>x\<rfloor>)) else - zerosAfterPoint 400 x)"

text \<open>
  \<open>Number::toString\<close> of ECMA-262 asks for integers \<open>n\<close>, \<open>k\<close> and \<open>s\<close> with \<open>k \<ge> 1\<close>,
  \<open>10\<^sup>k\<^sup>-\<^sup>1 \<le> s < 10\<^sup>k\<close>, such that \<open>s \<times> 10\<^sup>n\<^sup>-\<^sup>k\<close> rounds to \<open>x\<close> and \<open>k\<close> is as small as possible;
  of several \<open>s\<close> the one that is closest to \<open>x\<close>, and the even one of two that are equally
  close. For a given \<open>k\<close> the candidates are the two \<open>s\<close> around \<open>x / 10\<^sup>n\<^sup>-\<^sup>k\<close>, for the decimal
  exponent of \<open>x\<close> and for the next one (when \<open>x\<close> lies just below a power of ten). Seventeen
  digits are enough for every double; for a rational that is no double the search ends with
  its seventeen nearest digits.
\<close>

definition roundsTo :: "rat \<Rightarrow> int \<Rightarrow> int \<Rightarrow> int \<Rightarrow> bool" where
  "roundsTo x k n s =
     (if pow10 (k - 1) \<le> of_int s then
        (if of_int s < pow10 k then roundDouble (of_int s * pow10 (n - k)) = Fin x else False)
      else False)"

definition digitCandidates :: "rat \<Rightarrow> int \<Rightarrow> int \<Rightarrow> (int \<times> int) list" where
  "digitCandidates x k n =
     (let lo = \<lfloor>x / pow10 (n - k)\<rfloor>
      in map (\<lambda>s. (s, n)) (filter (roundsTo x k n) [lo, lo + 1]))"

definition closerDigits :: "rat \<Rightarrow> int \<Rightarrow> int \<times> int \<Rightarrow> int \<times> int \<Rightarrow> int \<times> int" where
  "closerDigits x k a b =
     (let da = \<bar>of_int (fst a) * pow10 (snd a - k) - x\<bar>;
          db = \<bar>of_int (fst b) * pow10 (snd b - k) - x\<bar>
      in if da < db then a else if db < da then b else if even (fst a) then a else b)"

fun shortestFrom :: "nat \<Rightarrow> int \<Rightarrow> rat \<Rightarrow> int \<Rightarrow> int \<times> int \<times> int" where
  "shortestFrom 0 k x n0 = (k, \<lfloor>x / pow10 (n0 - k) + 1 / 2\<rfloor>, n0)"
| "shortestFrom (Suc more) k x n0 =
     (case digitCandidates x k n0 @ digitCandidates x k (n0 + 1) of
        [] \<Rightarrow> shortestFrom more (k + 1) x n0
      | c # cs \<Rightarrow> (let (s, n) = foldl (closerDigits x k) c cs in (k, s, n)))"

definition shortestDigits :: "rat \<Rightarrow> int \<times> int \<times> int" where
  "shortestDigits x = shortestFrom 16 1 x (decimalExponent x)"

text \<open>
  The digits are written plainly when \<open>-6 < n \<le> 21\<close> and with an exponent otherwise, as
  \<open>Number::toString\<close> lays them out.
\<close>

definition positiveToString :: "rat \<Rightarrow> string" where
  "positiveToString x =
     (let (k, s, n) = shortestDigits x;
          digits = intDigits s
      in if k \<le> n \<and> n \<le> 21 then digits @ replicate (nat (n - k)) (CHR ''0'')
         else if 0 < n \<and> n \<le> 21 then take (nat n) digits @ ''.'' @ drop (nat n) digits
         else if - 6 < n \<and> n \<le> 0 then ''0.'' @ replicate (nat (- n)) (CHR ''0'') @ digits
         else
           (if k = 1 then digits else hd digits # CHR ''.'' # tl digits)
           @ ''e'' @ (if 0 \<le> n - 1 then ''+'' else ''-'') @ intDigits \<bar>n - 1\<bar>)"

definition numberToString :: "jsnum \<Rightarrow> string" where
  "numberToString n =
     (case n of
        NaN \<Rightarrow> ''NaN''
      | PosInf \<Rightarrow> ''Infinity''
      | NegInf \<Rightarrow> ''-Infinity''
      | Fin r \<Rightarrow>
          if r = 0 then ''0''
          else if r < 0 then ''-'' @ positiveToString (- r)
          else positiveToString r)"

text \<open>The conversion \<open>String(value)\<close>.\<close>

definition String_js :: "jsval \<Rightarrow> string" where
  "String_js v =
     (case v of
        JUndefined \<Rightarrow> ''undefined''
      | JNull \<Rightarrow> ''null''
      | JBool b \<Rightarrow> (if b then ''true'' else ''false'')
      | JNum n \<Rightarrow> numberToString n
      | JStr s \<Rightarrow> s)"

subsection \<open>Strings\<close>

text \<open>
  \<open>String.prototype.trim\<close> and the white space skipped by \<open>parseFloat\<close> and \<open>parseInt\<close>.
\<close>

definition isSpace :: "char \<Rightarrow> bool" where
  "isSpace c = (c \<in> set [CHR '' '', CHR 0x09, CHR 0x0A, CHR 0x0B, CHR 0x0C, CHR 0x0D, CHR 0xA0])"

definition trimStart :: "string \<Rightarrow> string" where
  "trimStart s = dropWhile isSpace s"

definition trim_js :: "string \<Rightarrow> string" where
  "trim_js s = rev (dropWhile isSpace (rev (dropWhile isSpace s)))"

text \<open>
  \<open>String.prototype.toLowerCase\<close>: among the characters below 256 the letters \<open>A\<close> to \<open>Z\<close>
  and the letters from \<open>U+00C0\<close> to \<open>U+00DE\<close>, the multiplication sign \<open>U+00D7\<close> apart, have a
  lower case, 32 places further on.
\<close>

definition toLowerChar :: "char \<Rightarrow> char" where
  "toLowerChar c =
     (let n = of_char c :: nat
      in if (65 \<le> n \<and> n \<le> 90) \<or> (192 \<le> n \<and> n \<le> 222 \<and> n \<noteq> 215) then char_of (n + 32)
         else c)"

definition toLowerCase :: "string \<Rightarrow> string" where
  "toLowerCase s = map toLowerChar s"

text \<open>\<open>String.prototype.padStart(2, '0')\<close>.\<close>

definition padStart2 :: "string \<Rightarrow> string" where
  "padStart2 s = replicate (2 - length s) (CHR ''0'') @ s"

subsection \<open>Numbers\<close>

definition isDigit :: "char \<Rightarrow> bool" where
  "isDigit c = (c \<in> set ''0123456789'')"

definition digitVal :: "char \<Rightarrow> nat" where
  "digitVal c = of_char c - 48"

definition digitsToNat :: "string \<Rightarrow> nat" where
  "digitsToNat ds = foldl (\<lambda>a c. 10 * a + digitVal c) 0 ds"

definition num_neg :: "jsnum \<Rightarrow> jsnum" where
  "num_neg n = (case n of NaN \<Rightarrow> NaN | NegInf \<Rightarrow> PosInf | PosInf \<Rightarrow> NegInf | Fin r \<Rightarrow> Fin (- r))"

text \<open>
  The grammar \<open>StrDecimalLiteral\<close> of ECMA-262: an optional sign, then \<open>Infinity\<close> or decimal
  digits with an optional fraction and an optional exponent. Each parser returns the number
  read, which is the double nearest to the decimal value, and the text that follows it;
  \<open>NaN\<close> says that no literal starts the text.
\<close>

definition exponentPart :: "string \<Rightarrow> int \<times> string" where
  "exponentPart r =
     (case r of
        [] \<Rightarrow> (0, r)
      | c # r1 \<Rightarrow>
          if c = CHR ''e'' \<or> c = CHR ''E'' then
            (let neg = (r1 \<noteq> [] \<and> hd r1 = CHR ''-'');
                 r2 = (if r1 \<noteq> [] \<and> (hd r1 = CHR ''-'' \<or> hd r1 = CHR ''+'') then tl r1 else r1);
                 ds = takeWhile isDigit r2
             in if ds = [] then (0, r)
                else ((if neg then - int (digitsToNat ds) else int (digitsToNat ds)),
                      dropWhile isDigit r2))
          else (0, r))"

definition scale10 :: "rat \<Rightarrow> int \<Rightarrow> rat" where
  "scale10 m e = (if 0 \<le> e then m * 10 ^ nat e else m / 10 ^ nat (- e))"

definition parseUnsigned :: "string \<Rightarrow> jsnum \<times> string" where
  "parseUnsigned s =
     (if take 8 s = ''Infinity'' then (PosInf, drop 8 s)
      else
        (let ip = takeWhile isDigit s;
             r1 = dropWhile isDigit s;
             hasDot = (r1 \<noteq> [] \<and> hd r1 = CHR ''.'');
             fp = (if hasDot then takeWhile isDigit (tl r1) else []);
             r2 = (if hasDot then dropWhile isDigit (tl r1) else r1)
         in if ip = [] \<and> fp = [] then (NaN, s)
            else
              (let (e, r3) = exponentPart r2
               in (roundDouble
                     (scale10 (of_nat (digitsToNat ip) + of_nat (digitsToNat fp) / 10 ^ length fp) e),
                   r3))))"

definition parseSigned :: "string \<Rightarrow> jsnum \<times> string" where
  "parseSigned s =
     (case s of
        [] \<Rightarrow> (NaN, s)
      | c # r \<Rightarrow>
          if c = CHR ''-'' then (let (n, r') = parseUnsigned r in (num_neg n, r'))
          else if c = CHR ''+'' then parseUnsigned r
          else parseUnsigned s)"

text \<open>\<open>parseFloat(string)\<close>: the longest numeric prefix after leading white space.\<close>

definition parseFloat_js :: "string \<Rightarrow> jsnum" where
  "parseFloat_js s = fst (parseSigned (trimStart s))"

text \<open>
  \<open>parseInt(string, 10)\<close>: leading white space, an optional sign, then the decimal digits
  that follow; \<open>NaN\<close> when there is none.
\<close>

definition parseInt10 :: "string \<Rightarrow> jsnum" where
  "parseInt10 s =
     (let t = trimStart s;
          neg = (t \<noteq> [] \<and> hd t = CHR ''-'');
          r = (if t \<noteq> [] \<and> (hd t = CHR ''-'' \<or> hd t = CHR ''+'') then tl t else t);
          ds = takeWhile isDigit r
      in if ds = [] then NaN
         else roundDouble (if neg then - of_nat (digitsToNat ds) else of_nat (digitsToNat ds)))"

text \<open>
  \<open>Number.prototype.toFixed(1)\<close>: the tenths nearest to the value, the larger one on a tie,
  printed with one digit after the point; from \<open>10\<^sup>2\<^sup>1\<close> on, and for the values that are not
  finite, the string of the number.
\<close>

definition toFixed1 :: "jsnum \<Rightarrow> string" where
  "toFixed1 x =
     (case x of
        Fin r \<Rightarrow>
          if 10 ^ 21 \<le> \<bar>r\<bar> then numberToString x
          else
            (let n = \<lfloor>\<bar>r\<bar> * 10 + 1 / 2\<rfloor>
             in (if r < 0 then ''-'' else []) @ intDigits (n div 10) @ ''.''
                @ [digitChar (nat (n mod 10))])
      | _ \<Rightarrow> numberToString x)"

text \<open>
  The conversion \<open>ToNumber\<close> applied by the arithmetic operators and by \<open>==\<close>. Of the string
  literals, the decimal ones are modelled, not the binary, octal and hexadecimal ones.
\<close>

definition toNumber :: "jsval \<Rightarrow> jsnum" where
  "toNumber v =
     (case v of
        JUndefined \<Rightarrow> NaN
      | JNull \<Rightarrow> Fin 0
      | JBool b \<Rightarrow> (if b then Fin 1 else Fin 0)
      | JNum n \<Rightarrow> n
      | JStr s \<Rightarrow>
          (let t = trim_js s
           in if t = [] then Fin 0
              else (case parseSigned t of (n, r) \<Rightarrow> if r = [] then n else NaN)))"

text \<open>The conversion \<open>ToBoolean\<close> behind \<open>!x\<close>, \<open>x || y\<close> and \<open>x ? a : b\<close>.\<close>

definition truthy :: "jsval \<Rightarrow> bool" where
  "truthy v =
     (case v of
        JUndefined \<Rightarrow> False
      | JNull \<Rightarrow> False
      | JBool b \<Rightarrow> b
      | JNum n \<Rightarrow> n \<noteq> NaN \<and> n \<noteq> Fin 0
      | JStr s \<Rightarrow> s \<noteq> [])"

text \<open>
  Subtraction and multiplication of numbers with the IEEE 754 rules for infinities and
  \<open>NaN\<close>; on finite numbers the exact result rounded to the nearest double.
\<close>

definition num_sub :: "jsnum \<Rightarrow> jsnum \<Rightarrow> jsnum" where
  "num_sub a b =
     (case (a, b) of
        (NaN, _) \<Rightarrow> NaN
      | (_, NaN) \<Rightarrow> NaN
      | (PosInf, PosInf) \<Rightarrow> NaN
      | (NegInf, NegInf) \<Rightarrow> NaN
      | (PosInf, _) \<Rightarrow> PosInf
      | (NegInf, _) \<Rightarrow> NegInf
      | (Fin x, PosInf) \<Rightarrow> NegInf
      | (Fin x, NegInf) \<Rightarrow> PosInf
      | (Fin x, Fin y) \<Rightarrow> roundDouble (x - y))"

definition num_sgn :: "jsnum \<Rightarrow> int" where
  "num_sgn a =
     (case a of
        NaN \<Rightarrow> 0
      | NegInf \<Rightarrow> - 1
      | PosInf \<Rightarrow> 1
      | Fin x \<Rightarrow> (if x < 0 then - 1 else if x = 0 then 0 else 1))"

definition num_mul :: "jsnum \<Rightarrow> jsnum \<Rightarrow> jsnum" where
  "num_mul a b =
     (case (a, b) of
        (NaN, _) \<Rightarrow> NaN
      | (_, NaN) \<Rightarrow> NaN
      | (Fin x, Fin y) \<Rightarrow> roundDouble (x * y)
      | _ \<Rightarrow> (if num_sgn a * num_sgn b = 0 then NaN
               else if num_sgn a * num_sgn b < 0 then NegInf else PosInf))"

text \<open>
  The finite doubles are multiples of \<open>2\<^sup>-\<^sup>1\<^sup>0\<^sup>7\<^sup>4\<close>, the least positive double: they lie on
  this grid. A number on the grid is one of these multiples or an infinity.
\<close>

definition onGrid :: "rat \<Rightarrow> bool" where
  "onGrid r = (r * 2 ^ 1074 \<in> \<int>)"

definition gridNumber :: "jsnum \<Rightarrow> bool" where
  "gridNumber a = (case a of NaN \<Rightarrow> False | Fin r \<Rightarrow> onGrid r | _ \<Rightarrow> True)"

text \<open>The comparisons \<open>a < b\<close> and \<open>a > b\<close> of numbers: false whenever \<open>NaN\<close> takes part.\<close>

definition num_less :: "jsnum \<Rightarrow> jsnum \<Rightarrow> bool" where
  "num_less a b =
     (case (a, b) of
        (NaN, _) \<Rightarrow> False
      | (_, NaN) \<Rightarrow> False
      | (_, NegInf) \<Rightarrow> False
      | (PosInf, _) \<Rightarrow> False
      | (NegInf, _) \<Rightarrow> True
      | (_, PosInf) \<Rightarrow> True
      | (Fin x, Fin y) \<Rightarrow> x < y)"

text \<open>The global function \<open>isNaN(value)\<close>.\<close>

definition isNaN :: "jsval \<Rightarrow> bool" where
  "isNaN v = (toNumber v = NaN)"

text \<open>\<open>a || b\<close> and \<open>a ?? b\<close>.\<close>

definition orElse :: "jsval \<Rightarrow> jsval \<Rightarrow> jsval" where
  "orElse a b = (if truthy a then a else b)"

definition nullish :: "jsval \<Rightarrow> jsval \<Rightarrow> jsval" where
  "nullish a b = (if a = JNull \<or> a = JUndefined then b else a)"

definition intToString :: "int \<Rightarrow> string" where
  "intToString i = (if i < 0 then ''-'' else []) @ natToString (nat \<bar>i\<bar>)"

subsection \<open>Dates\<close>

text \<open>
  A valid \<open>Date\<close> is its time value, the milliseconds since 1 January 1970 UTC. The day
  arithmetic is that of ECMA-262 (Day Number and Time within Day, Year Number, Month Number,
  Date Number, \<open>MakeDay\<close>, \<open>TimeClip\<close>). ECMA-262 defines the year of a day as the largest
  year that starts on or before it; \<open>YearFromDay\<close> computes it from an estimate that is off
  by at most one.
\<close>

definition msPerDay :: int where
  "msPerDay = 86400000"

definition DayFromYear :: "int \<Rightarrow> int" where
  "DayFromYear y = 365 * (y - 1970) + (y - 1969) div 4 - (y - 1901) div 100 + (y - 1601) div 400"

definition InLeapYear :: "int \<Rightarrow> bool" where
  "InLeapYear y = (y mod 4 = 0 \<and> (y mod 100 \<noteq> 0 \<or> y mod 400 = 0))"

definition DaysInYear :: "int \<Rightarrow> int" where
  "DaysInYear y = (if InLeapYear y then 366 else 365)"

definition leapDay :: "int \<Rightarrow> int" where
  "leapDay y = (if InLeapYear y then 1 else 0)"

definition YearFromDay :: "int \<Rightarrow> int" where
  "YearFromDay d =
     (let y0 = 1970 + (400 * d) div 146097
      in if d < DayFromYear y0 then y0 - 1
         else if DayFromYear (y0 + 1) \<le> d then y0 + 1
         else y0)"

definition DayWithinYear :: "int \<Rightarrow> int" where
  "DayWithinYear d = d - DayFromYear (YearFromDay d)"

definition MonthFromDay :: "int \<Rightarrow> int" where
  "MonthFromDay d =
     (let w = DayWithinYear d; l = leapDay (YearFromDay d)
      in if w < 31 then 0
         else if w < 59 + l then 1
         else if w < 90 + l then 2
         else if w < 120 + l then 3
         else if w < 151 + l then 4
         else if w < 181 + l then 5
         else if w < 212 + l then 6
         else if w < 243 + l then 7
         else if w < 273 + l then 8
         else if w < 304 + l then 9
         else if w < 334 + l then 10
         else 11)"

definition DateFromDay :: "int \<Rightarrow> int" where
  "DateFromDay d =
     (let w = DayWithinYear d; l = leapDay (YearFromDay d); m = MonthFromDay d
      in if m = 0 then w + 1
         else if m = 1 then w - 30
         else if m = 2 then w - 58 - l
         else if m = 3 then w - 89 - l
         else if m = 4 then w - 119 - l
         else if m = 5 then w - 150 - l
         else if m = 6 then w - 180 - l
         else if m = 7 then w - 211 - l
         else if m = 8 then w - 242 - l
         else if m = 9 then w - 272 - l
         else if m = 10 then w - 303 - l
         else w - 333 - l)"

text \<open>The number of days of the year \<open>y\<close> before its month \<open>mn\<close> (0 is January).\<close>

definition daysBeforeMonth :: "int \<Rightarrow> int \<Rightarrow> int" where
  "daysBeforeMonth y mn =
     (let l = leapDay y
      in if mn = 0 then 0
         else if mn = 1 then 31
         else if mn = 2 then 59 + l
         else if mn = 3 then 90 + l
         else if mn = 4 then 120 + l
         else if mn = 5 then 151 + l
         else if mn = 6 then 181 + l
         else if mn = 7 then 212 + l
         else if mn = 8 then 243 + l
         else if mn = 9 then 273 + l
         else if mn = 10 then 304 + l
         else 334 + l)"

text \<open>
  \<open>MakeDay(year, month, date)\<close>: the day number of the first of the month, plus
  \<open>date - 1\<close>; a date past the end of the month runs into the next one.
\<close>

definition MakeDay :: "int \<Rightarrow> int \<Rightarrow> int \<Rightarrow> int" where
  "MakeDay y m dt =
     (let ym = y + m div 12; mn = m mod 12
      in DayFromYear ym + daysBeforeMonth ym mn + dt - 1)"

text \<open>\<open>Date.UTC\<close> reads a year from 0 to 99 as a year of the twentieth century.\<close>

definition MakeFullYear :: "int \<Rightarrow> int" where
  "MakeFullYear y = (if 0 \<le> y \<and> y \<le> 99 then 1900 + y else y)"

definition TimeClip :: "int \<Rightarrow> int option" where
  "TimeClip t = (if \<bar>t\<bar> > 8640000000000000 then None else Some t)"

text \<open>
  \<open>new Date(Date.UTC(year, month, date))\<close>: \<open>None\<close> is the invalid date, whose \<open>getTime()\<close>
  is \<open>NaN\<close>.
\<close>

definition Date_UTC :: "int \<Rightarrow> int \<Rightarrow> int \<Rightarrow> int option" where
  "Date_UTC y m dt = TimeClip (MakeDay (MakeFullYear y) m dt * msPerDay)"

definition getUTCFullYear :: "int \<Rightarrow> int" where
  "getUTCFullYear t = YearFromDay (t div msPerDay)"

definition getUTCMonth :: "int \<Rightarrow> int" where
  "getUTCMonth t = MonthFromDay (t div msPerDay)"

definition getUTCDate :: "int \<Rightarrow> int" where
  "getUTCDate t = DateFromDay (t div msPerDay)"

text \<open>
  The host's \<open>new Date(string)\<close>, whose parsing ECMA-262 leaves to the implementation
  outside the ISO format: \<open>None\<close> for an invalid date, else the date's \<open>getFullYear()\<close>,
  \<open>getMonth()\<close> and \<open>getDate()\<close> in local time.
\<close>

type_synonym dateCtor = "string \<Rightarrow> (int \<times> int \<times> int) option"

text \<open>The number of days of month \<open>m\<close> (1 is January) of year \<open>y\<close> in the calendar.\<close>

definition daysInMonth :: "int \<Rightarrow> int \<Rightarrow> int" where
  "daysInMonth y m =
     (if m = 2 then 28 + leapDay y
      else if m = 4 \<or> m = 6 \<or> m = 9 \<or> m = 11 then 30
      else 31)"

section \<open>Utility functions of the dashboard script\<close>

text \<open>
  \<open>safeFloat(value, fallback)\<close>. The first \<open>replace\<close> strips the dollar sign, the comma, the
  percent sign and the peso sign, which lies outside the alphabet of the model; the
  second \<open>replace\<close> strips commas again.
\<close>

definition stripCurrency :: "string \<Rightarrow> string" where
  "stripCurrency s =
     filter (\<lambda>c. c \<noteq> comma) (filter (\<lambda>c. c \<noteq> CHR ''$'' \<and> c \<noteq> comma \<and> c \<noteq> CHR ''%'') s)"

definition safeFloat :: "jsval \<Rightarrow> jsval \<Rightarrow> jsval" where
  "safeFloat v fallback =
     (if v = JNull \<or> v = JUndefined then fallback
      else
        (let strValue = trim_js (stripCurrency (String_js v))
         in if strValue = [] then fallback
            else
              (let num = parseFloat_js strValue
               in if isNaN (JNum num) then fallback else JNum num)))"

text \<open>\<open>formatPercent(value, fallback)\<close>.\<close>

definition formatPercent :: "jsval \<Rightarrow> string \<Rightarrow> string" where
  "formatPercent v fallback =
     (let numVal = safeFloat v (JNum NaN)
      in if isNaN numVal then fallback
         else toFixed1 (toNumber numVal) @ ''%'')"

text \<open>The match of \<open>/^(\d{4})-(\d{2})-(\d{2})/\<close>: the three groups read by \<open>parseInt\<close>.\<close>

definition matchIso :: "string \<Rightarrow> (int \<times> int \<times> int) option" where
  "matchIso s =
     (if 10 \<le> length s
         \<and> list_all isDigit (take 4 s) \<and> s ! 4 = CHR ''-''
         \<and> list_all isDigit (take 2 (drop 5 s)) \<and> s ! 7 = CHR ''-''
         \<and> list_all isDigit (take 2 (drop 8 s))
      then Some (int (digitsToNat (take 4 s)),
                 int (digitsToNat (take 2 (drop 5 s))),
                 int (digitsToNat (take 2 (drop 8 s))))
      else None)"

text \<open>
  The match of \<open>/^(\d{1,2})\/(\d{1,2})\/(\d{4})/\<close>, as (year, month, day): one or two digits,
  a slash, one or two digits, a slash and four digits.
\<close>

definition matchSlash :: "string \<Rightarrow> (int \<times> int \<times> int) option" where
  "matchSlash s =
     (let a = takeWhile isDigit s; r1 = dropWhile isDigit s
      in if (length a = 1 \<or> length a = 2) \<and> r1 \<noteq> [] \<and> hd r1 = CHR ''/'' then
           (let b = takeWhile isDigit (tl r1); r2 = dropWhile isDigit (tl r1)
            in if (length b = 1 \<or> length b = 2) \<and> r2 \<noteq> [] \<and> hd r2 = CHR ''/''
                  \<and> 4 \<le> length (takeWhile isDigit (tl r2))
               then Some (int (digitsToNat (take 4 (tl r2))), int (digitsToNat a), int (digitsToNat b))
               else None)
         else None)"

text \<open>
  The body shared by the ISO and the US attempt of \<open>parseDate\<close>: the range check on month
  and day, \<open>Date.UTC\<close>, and the final check that the date made has the parts given.
\<close>

definition checkedDate :: "int \<times> int \<times> int \<Rightarrow> int option" where
  "checkedDate ymd =
     (case ymd of (year, month, day) \<Rightarrow>
        if 1 \<le> month \<and> month \<le> 12 \<and> 1 \<le> day \<and> day \<le> 31 then
          (case Date_UTC year (month - 1) day of
             None \<Rightarrow> None
           | Some date \<Rightarrow>
               if getUTCFullYear date = year \<and> getUTCMonth date + 1 = month \<and> getUTCDate date = day
               then Some date else None)
        else None)"

text \<open>
  \<open>parseDate(dateStr)\<close> on a JSON value or a string of the DOM (the branch for \<open>Date\<close>
  objects is never taken on them). Each attempt that fails hands over to the next one; the
  last one is the host's \<open>Date\<close> constructor.
\<close>

definition parseDate :: "dateCtor \<Rightarrow> jsval \<Rightarrow> int option" where
  "parseDate ctor dateStr =
     (if \<not> truthy dateStr then None
      else
        (let strInput = trim_js (String_js dateStr)
         in if strInput = [] then None
            else
              (case Option.bind (matchIso strInput) checkedDate of
                 Some date \<Rightarrow> Some date
               | None \<Rightarrow>
                   (case Option.bind (matchSlash strInput) checkedDate of
                      Some date \<Rightarrow> Some date
                    | None \<Rightarrow>
                        (case ctor strInput of
                           None \<Rightarrow> None
                         | Some (y, m, d) \<Rightarrow> Date_UTC y m d)))))"

text \<open>\<open>formatDate(dateStr, fallback)\<close>.\<close>

definition formatDate :: "dateCtor \<Rightarrow> jsval \<Rightarrow> string \<Rightarrow> string" where
  "formatDate ctor dateStr fallback =
     (if \<not> truthy dateStr then fallback
      else
        (case parseDate ctor dateStr of
           None \<Rightarrow> fallback
         | Some date \<Rightarrow>
             padStart2 (intToString (getUTCMonth date + 1)) @ ''/''
             @ padStart2 (intToString (getUTCDate date)) @ ''/''
             @ intToString (getUTCFullYear date)))"

text \<open>
  Two models of the host's constructor. The first accepts the ISO date format alone and only
  days of the calendar, in the UTC time zone. The second accepts a day number up to 31 in
  every month and lets \<open>MakeDay\<close> carry it into the next month, as lenient engines do.
\<close>

definition strictCtor :: dateCtor where
  "strictCtor s =
     (case matchIso s of
        None \<Rightarrow> None
      | Some (y, m, d) \<Rightarrow>
          if 1 \<le> m \<and> m \<le> 12 \<and> 1 \<le> d \<and> d \<le> daysInMonth y m then Some (y, m - 1, d) else None)"

definition rollingCtor :: dateCtor where
  "rollingCtor s =
     (case matchIso s of
        None \<Rightarrow> None
      | Some (y, m, d) \<Rightarrow>
          if 1 \<le> m \<and> m \<le> 12 \<and> 1 \<le> d \<and> d \<le> 31 then
            (let day = MakeDay y (m - 1) d
             in Some (YearFromDay day, MonthFromDay day, DateFromDay day))
          else None)"

section \<open>CSV export: \<open>formatCsvCell\<close>\<close>

text \<open>\<open>stringValue.replace(/"/g, '""')\<close>: every double quote is doubled.\<close>

definition escapeQuotes :: "string \<Rightarrow> string" where
  "escapeQuotes s = concat (map (\<lambda>c. if c = dquote then [dquote, dquote] else [c]) s)"

text \<open>The test \<open>/[",\n]/.test(stringValue)\<close>.\<close>

definition needsQuoting :: "string \<Rightarrow> bool" where
  "needsQuoting s = (\<exists>c \<in> set s. c = dquote \<or> c = comma \<or> c = newline)"

text \<open>The local \<open>stringValue\<close> of \<open>formatCsvCell\<close>.\<close>

definition csvStringValue :: "jsval \<Rightarrow> string" where
  "csvStringValue v = (if v = JNull \<or> v = JUndefined then [] else String_js v)"

definition formatCsvCell :: "jsval \<Rightarrow> string" where
  "formatCsvCell v =
     (let stringValue = csvStringValue v
      in if needsQuoting stringValue
         then [dquote] @ escapeQuotes stringValue @ [dquote]
         else stringValue)"

text \<open>
  The reader's side: a reader of comma-separated values after RFC 4180, one character at a
  time. A field that starts with a double quote runs to the closing quote, and a doubled
  quote inside it stands for one quote; commas and line breaks inside the quotes belong to
  the field. Any other field runs to the next comma or line break and holds no double
  quote. A line break is a newline, a carriage return, or the two together. The text read is
  a list of records, each a list of fields; \<open>None\<close> is malformed text (a quote inside a bare
  field, text after a closing quote, a quoted field not closed).
\<close>

datatype csvMode = FieldStart | Bare | Quoted | QuoteClosed | AfterReturn

record csvReader =
  rdMode :: csvMode
  rdField :: string
  rdRow :: "string list"
  rdRows :: "string list list"

definition endField :: "csvReader \<Rightarrow> csvReader" where
  "endField st = st\<lparr>rdMode := FieldStart, rdField := [], rdRow := rdRow st @ [rdField st]\<rparr>"

definition endRecord :: "csvMode \<Rightarrow> csvReader \<Rightarrow> csvReader" where
  "endRecord m st =
     st\<lparr>rdMode := m, rdField := [], rdRow := [], rdRows := rdRows st @ [rdRow st @ [rdField st]]\<rparr>"

definition csvStepStart :: "char \<Rightarrow> csvReader \<Rightarrow> csvReader option" where
  "csvStepStart c st =
     (if c = dquote then Some (st\<lparr>rdMode := Quoted\<rparr>)
      else if c = comma then Some (endField st)
      else if c = newline then Some (endRecord FieldStart st)
      else if c = creturn then Some (endRecord AfterReturn st)
      else Some (st\<lparr>rdMode := Bare, rdField := rdField st @ [c]\<rparr>))"

definition csvStep :: "char \<Rightarrow> csvReader \<Rightarrow> csvReader option" where
  "csvStep c st =
     (case rdMode st of
        FieldStart \<Rightarrow> csvStepStart c st
      | AfterReturn \<Rightarrow>
          if c = newline then Some (st\<lparr>rdMode := FieldStart\<rparr>) else csvStepStart c st
      | Bare \<Rightarrow>
          if c = dquote then None
          else if c = comma then Some (endField st)
          else if c = newline then Some (endRecord FieldStart st)
          else if c = creturn then Some (endRecord AfterReturn st)
          else Some (st\<lparr>rdField := rdField st @ [c]\<rparr>)
      | Quoted \<Rightarrow>
          if c = dquote then Some (st\<lparr>rdMode := QuoteClosed\<rparr>)
          else Some (st\<lparr>rdField := rdField st @ [c]\<rparr>)
      | QuoteClosed \<Rightarrow>
          if c = dquote then Some (st\<lparr>rdMode := Quoted, rdField := rdField st @ [dquote]\<rparr>)
          else if c = comma then Some (endField st)
          else if c = newline then Some (endRecord FieldStart st)
          else if c = creturn then Some (endRecord AfterReturn st)
          else None)"

fun csvRun :: "string \<Rightarrow> csvReader \<Rightarrow> csvReader option" where
  "csvRun [] st = Some st"
| "csvRun (c # cs) st = (case csvStep c st of None \<Rightarrow> None | Some st' \<Rightarrow> csvRun cs st')"

definition csvFinish :: "csvReader \<Rightarrow> string list list option" where
  "csvFinish st = (if rdMode st = Quoted then None else Some (rdRows st @ [rdRow st @ [rdField st]]))"

definition readCsv :: "string \<Rightarrow> string list list option" where
  "readCsv s =
     (case csvRun s \<lparr>rdMode = FieldStart, rdField = [], rdRow = [], rdRows = []\<rparr> of
        None \<Rightarrow> None
      | Some st \<Rightarrow> csvFinish st)"

text \<open>
  A string with a carriage return that \<open>formatCsvCell\<close> leaves bare, since it holds no double
  quote, comma or newline; and a string that needs no quotes for any reader.
\<close>

definition bareReturn :: "string \<Rightarrow> bool" where
  "bareReturn s = (creturn \<in> set s \<and> dquote \<notin> set s \<and> comma \<notin> set s \<and> newline \<notin> set s)"

definition plainText :: "string \<Rightarrow> bool" where
  "plainText s = (dquote \<notin> set s \<and> comma \<notin> set s \<and> newline \<notin> set s \<and> creturn \<notin> set s)"

text \<open>The reader has read a whole field: a comma, a line break or the end may follow.\<close>

definition fieldRead :: "csvReader \<Rightarrow> bool" where
  "fieldRead st = (rdMode st = FieldStart \<or> rdMode st = Bare \<or> rdMode st = QuoteClosed)"

section \<open>The project tables: sorting and rendering\<close>

text \<open>
  A project row is a JSON object: its properties in order. Reading a property that the
  object does not have gives \<open>undefined\<close>.
\<close>

type_synonym row = "(string \<times> jsval) list"

definition getProp :: "row \<Rightarrow> string \<Rightarrow> jsval" where
  "getProp r k = (case map_of r k of None \<Rightarrow> JUndefined | Some v \<Rightarrow> v)"

text \<open>
  The global \<open>currentSort\<close>. The direction is only ever \<open>'asc'\<close> or \<open>'desc'\<close>: the initial value
  and the two values that the click handler assigns.
\<close>

datatype direction = Asc | Desc

record sortState =
  sortKey :: string
  sortDirection :: direction

definition numericKeys :: "string list" where
  "numericKeys = [''amount'', ''status'', ''remaining_amount'', ''total_running_weeks'', ''year'']"

definition dateKeys :: "string list" where
  "dateKeys = [''po_date'', ''date_completed'']"

definition sortMultiplier :: "direction \<Rightarrow> jsnum" where
  "sortMultiplier dir = (if dir = Asc then Fin 1 else Fin (- 1))"

text \<open>The value standing for a missing number or date: \<open>direction === 'asc' ? Infinity : -Infinity\<close>.\<close>

definition missingValue :: "direction \<Rightarrow> jsnum" where
  "missingValue dir = (if dir = Asc then PosInf else NegInf)"

text \<open>
  The tail shared by the \<open>latest_update\<close> branch and the last branch of the comparator,
  on the two lowercased strings.
\<close>

definition compareText :: "direction \<Rightarrow> string \<Rightarrow> string \<Rightarrow> jsnum" where
  "compareText dir textA textB =
     (if textA = [] \<and> textB \<noteq> [] then Fin 1
      else if textA \<noteq> [] \<and> textB = [] then Fin (- 1)
      else if textA = [] \<and> textB = [] then Fin 0
      else if textA < textB then num_mul (Fin (- 1)) (sortMultiplier dir)
      else if textA > textB then num_mul (Fin 1) (sortMultiplier dir)
      else Fin 0)"

text \<open>\<open>dateA ? dateA.getTime() : (direction === 'asc' ? Infinity : -Infinity)\<close>.\<close>

definition timeOf :: "dateCtor \<Rightarrow> direction \<Rightarrow> jsval \<Rightarrow> jsnum" where
  "timeOf ctor dir v =
     (case parseDate ctor v of None \<Rightarrow> missingValue dir | Some date \<Rightarrow> Fin (of_int date))"

text \<open>
  The comparator that \<open>renderActiveTable\<close> and \<open>renderCompletedTable\<close> pass to \<open>sort\<close>
  (the two functions hold the same text).
\<close>

definition compareRows :: "dateCtor \<Rightarrow> string \<Rightarrow> direction \<Rightarrow> row \<Rightarrow> row \<Rightarrow> jsnum" where
  "compareRows ctor k dir a b =
     (let valA = getProp a k; valB = getProp b k
      in if k = ''latest_update'' then
           compareText dir
             (toLowerCase (String_js (orElse (getProp a ''latest_update'') (JStr []))))
             (toLowerCase (String_js (orElse (getProp b ''latest_update'') (JStr []))))
         else if k \<in> set dateKeys then
           num_mul (num_sub (timeOf ctor dir valA) (timeOf ctor dir valB)) (sortMultiplier dir)
         else if k \<in> set numericKeys then
           num_mul (num_sub (toNumber (safeFloat valA (JNum (missingValue dir))))
                            (toNumber (safeFloat valB (JNum (missingValue dir)))))
                   (sortMultiplier dir)
         else
           compareText dir
             (toLowerCase (String_js (nullish valA (JStr []))))
             (toLowerCase (String_js (nullish valB (JStr [])))))"

text \<open>
  \<open>Array.prototype.sort(comparefn)\<close>. ECMA-262 asks for a stable sort and reads a comparator
  result \<open>v\<close> only through \<open>v < 0\<close> and \<open>v > 0\<close>, with \<open>NaN\<close> counting as zero. For a
  comparator that is consistent (as \<open>compareRows\<close> is proved to be below) every conforming
  sort returns the same array, the one sorted and stable; the model computes it by insertion.
\<close>

definition comesAfter :: "jsnum \<Rightarrow> bool" where
  "comesAfter v = num_less (Fin 0) v"

definition comesBefore :: "jsnum \<Rightarrow> bool" where
  "comesBefore v = num_less v (Fin 0)"

fun insertBy :: "('a \<Rightarrow> 'a \<Rightarrow> jsnum) \<Rightarrow> 'a \<Rightarrow> 'a list \<Rightarrow> 'a list" where
  "insertBy cmp x [] = [x]"
| "insertBy cmp x (y # ys) =
     (if comesAfter (cmp x y) then y # insertBy cmp x ys else x # y # ys)"

definition sort_js :: "('a \<Rightarrow> 'a \<Rightarrow> jsnum) \<Rightarrow> 'a list \<Rightarrow> 'a list" where
  "sort_js cmp xs = foldr (insertBy cmp) xs []"

text \<open>
  The array \<open>dataToRender\<close> that \<open>renderActiveTable\<close> and \<open>renderCompletedTable\<close> hand to
  \<open>renderProjectTable\<close>, which writes one table row for each element, in order.
\<close>

definition dataToRender :: "dateCtor \<Rightarrow> sortState \<Rightarrow> row list \<Rightarrow> row list" where
  "dataToRender ctor cs projects =
     (if sortKey cs \<noteq> [] then sort_js (compareRows ctor (sortKey cs) (sortDirection cs)) projects
      else projects)"

text \<open>
  The click handler that \<open>setupSortListeners\<close> puts on a table head, for a header whose
  \<open>data-sort-key\<close> is \<open>k\<close>: the same key flips the direction, a new key starts ascending, and
  a header without a key changes nothing.
\<close>

definition clickSortHeader :: "string \<Rightarrow> sortState \<Rightarrow> sortState" where
  "clickSortHeader k cs =
     (if k = [] then cs
      else
        (let nextDirection =
               (if sortKey cs = k then (if sortDirection cs = Asc then Desc else Asc) else Asc)
         in \<lparr>sortKey = k, sortDirection = nextDirection\<rparr>))"

text \<open>
  The orders that the specification speaks of. The number of a row under a numeric key is what
  \<open>safeFloat\<close> reads, its time under a date key is what \<open>parseDate\<close> reads, and its text
  under any other key is the lowercased string of the value.
\<close>

definition numberOfRow :: "string \<Rightarrow> direction \<Rightarrow> row \<Rightarrow> jsnum" where
  "numberOfRow k dir r = toNumber (safeFloat (getProp r k) (JNum (missingValue dir)))"

definition textOfRow :: "string \<Rightarrow> row \<Rightarrow> string" where
  "textOfRow k r =
     (if k = ''latest_update'' then toLowerCase (String_js (orElse (getProp r k) (JStr [])))
      else toLowerCase (String_js (nullish (getProp r k) (JStr []))))"

definition num_le :: "jsnum \<Rightarrow> jsnum \<Rightarrow> bool" where
  "num_le a b = (\<not> num_less b a)"

definition numbersInOrder :: "direction \<Rightarrow> jsnum \<Rightarrow> jsnum \<Rightarrow> bool" where
  "numbersInOrder dir x y = (if dir = Asc then num_le x y else num_le y x)"

text \<open>
  The order as the specification states it: numbers numerically, dates by time, anything
  else by the lowercased text, ascending or descending.
\<close>

definition statedOrder :: "dateCtor \<Rightarrow> string \<Rightarrow> direction \<Rightarrow> row \<Rightarrow> row \<Rightarrow> bool" where
  "statedOrder ctor k dir a b =
     (if k \<noteq> ''latest_update'' \<and> k \<in> set dateKeys then
        numbersInOrder dir (timeOf ctor dir (getProp a k)) (timeOf ctor dir (getProp b k))
      else if k \<noteq> ''latest_update'' \<and> k \<in> set numericKeys then
        numbersInOrder dir (numberOfRow k dir a) (numberOfRow k dir b)
      else if dir = Asc then textOfRow k a \<le> textOfRow k b
      else textOfRow k b \<le> textOfRow k a)"

text \<open>
  The order that the comparator implements: as stated for numbers and dates, where a
  missing or unreadable value counts as \<open>Infinity\<close> when ascending and as \<open>-Infinity\<close> when
  descending; for text, a row with empty text comes after every row with text, in both
  directions, and the rows with text are ordered as stated.
\<close>

definition textsInOrder :: "direction \<Rightarrow> string \<Rightarrow> string \<Rightarrow> bool" where
  "textsInOrder dir x y =
     (if x = [] then y = []
      else y = [] \<or> (if dir = Asc then x \<le> y else y \<le> x))"

definition rowOrder :: "dateCtor \<Rightarrow> string \<Rightarrow> direction \<Rightarrow> row \<Rightarrow> row \<Rightarrow> bool" where
  "rowOrder ctor k dir a b =
     (if k \<noteq> ''latest_update'' \<and> k \<in> set dateKeys then
        numbersInOrder dir (timeOf ctor dir (getProp a k)) (timeOf ctor dir (getProp b k))
      else if k \<noteq> ''latest_update'' \<and> k \<in> set numericKeys then
        numbersInOrder dir (numberOfRow k dir a) (numberOfRow k dir b)
      else textsInOrder dir (textOfRow k a) (textOfRow k b))"

section \<open>The state of the dashboard page\<close>

text \<open>
  A request handed to \<open>apiFetch\<close>: the method, the URL and the properties of the JSON body.
  The answer arrives later, as the value or the error that the \<open>await\<close> resumes with.
\<close>

datatype request = Request string string "(string \<times> jsval) list"

text \<open>
  The body as \<open>JSON.stringify\<close> writes it in \<open>apiFetch\<close>: a number that is not finite is
  written as \<open>null\<close>, and a property whose value is \<open>undefined\<close> is left out.
\<close>

definition jsonValue :: "jsval \<Rightarrow> jsval" where
  "jsonValue v = (case v of JNum (Fin r) \<Rightarrow> v | JNum n \<Rightarrow> JNull | _ \<Rightarrow> v)"

definition jsonBody :: "(string \<times> jsval) list \<Rightarrow> (string \<times> jsval) list" where
  "jsonBody body = map (\<lambda>(k, v). (k, jsonValue v)) (filter (\<lambda>(k, v). v \<noteq> JUndefined) body)"

datatype 'a apiResult = ApiOk 'a | ApiError string

text \<open>
  A table cell of the active-projects table. Its content is either text or the \<open>input\<close>
  element that \<open>makeCellEditable\<close> puts there; the input is kept with the values that the
  listeners of \<open>makeCellEditable\<close> close over. A cell is named by a number, and the page
  holds the cells by name, as the DOM holds nodes by identity.
\<close>

record editing =
  inputValue :: string
  edProjectId :: string
  edFieldKey :: string
  originalNumericValue :: jsval
  originalDisplayValue :: string

datatype content = Text string | Input editing

record cell =
  content :: content
  dataField :: string
  dataProjectId :: string
  dataOriginalValue :: "string option"
  editableClass :: bool

text \<open>
  The body of a project table: the rows of the projects it shows, in order, or a single row
  that holds a notice (the loading row, the row for an empty list, an error row).
\<close>

datatype tableBody = ProjectRows "row list" | Notice string

text \<open>
  The globals of the script (\<open>currentProjectsData\<close>, \<open>currentCompletedProjectsData\<close>,
  \<open>currentSort\<close>, \<open>currentlyEditingCell\<close>) and the parts of the document that the modelled
  functions write: the cells, the feedback area (message and type), the bodies of the two
  tables, the edit form, and the side effects that leave the page, which are the requests
  issued and the files offered for download.
\<close>

record page =
  currentProjectsData :: "row list"
  currentCompletedProjectsData :: "row list"
  currentSort :: sortState
  currentlyEditingCell :: "nat option"
  cells :: "nat \<Rightarrow> cell"
  feedback :: "(string \<times> string) option"
  activeTable :: tableBody
  completedTable :: tableBody
  editForm :: "(string \<times> string) list"
  editModalOpen :: bool
  requests :: "request list"
  downloads :: "(string \<times> string) list"

definition displayFeedback :: "string \<Rightarrow> string \<Rightarrow> page \<Rightarrow> page" where
  "displayFeedback message type st = st\<lparr>feedback := Some (message, type)\<rparr>"

definition clearFeedback :: "page \<Rightarrow> page" where
  "clearFeedback st = st\<lparr>feedback := None\<rparr>"

definition issue :: "request \<Rightarrow> page \<Rightarrow> page" where
  "issue r st = st\<lparr>requests := requests st @ [r]\<rparr>"

definition PROJECTS_API :: string where
  "PROJECTS_API = ''/api/projects''"

definition COMPLETED_PROJECTS_API :: string where
  "COMPLETED_PROJECTS_API = ''/api/projects/completed''"

definition DASHBOARD_API :: string where
  "DASHBOARD_API = ''/api/dashboard''"

definition ADD_FORECAST_API :: string where
  "ADD_FORECAST_API = ''/api/forecast''"

definition UPDATE_PROJECT_API :: "string \<Rightarrow> string" where
  "UPDATE_PROJECT_API projectId = PROJECTS_API @ ''/'' @ projectId"

text \<open>
  The callback of \<open>dataToRender.forEach\<close> in \<open>renderProjectTable\<close> throws for a project
  whose \<open>latest_update\<close> is truthy and not a string: \<open>project.latest_update.substring\<close> is
  then not a function. The formatters called for the other cells return a fallback instead
  of throwing.
\<close>

definition rowThrows :: "row \<Rightarrow> bool" where
  "rowThrows project =
     (case getProp project ''latest_update'' of
        JStr s \<Rightarrow> False
      | v \<Rightarrow> truthy v)"

text \<open>
  \<open>renderProjectTable(dataToRender, tableBody, isCompletedTable)\<close>: the notice for an empty
  list, else one table row for each project in order; when the creation of a row throws,
  the \<open>catch\<close> block replaces the body by one error row.
\<close>

definition renderProjectTable :: "row list \<Rightarrow> bool \<Rightarrow> tableBody" where
  "renderProjectTable shown isCompletedTable =
     (if shown = [] then
        Notice (''No '' @ toLowerCase (if isCompletedTable then ''Completed'' else ''Active'')
                @ '' projects found.'')
      else if \<exists>project \<in> set shown. rowThrows project then
        Notice ''Error rendering project data. Check console for details.''
      else ProjectRows shown)"

text \<open>\<open>renderActiveTable\<close> and \<open>renderCompletedTable\<close>.\<close>

definition renderActiveTable :: "dateCtor \<Rightarrow> page \<Rightarrow> page" where
  "renderActiveTable ctor st =
     st\<lparr>activeTable :=
          renderProjectTable (dataToRender ctor (currentSort st) (currentProjectsData st)) False\<rparr>"

definition renderCompletedTable :: "dateCtor \<Rightarrow> page \<Rightarrow> page" where
  "renderCompletedTable ctor st =
     st\<lparr>completedTable :=
          renderProjectTable (dataToRender ctor (currentSort st) (currentCompletedProjectsData st))
            True\<rparr>"

text \<open>
  A click on a sortable header of one of the two tables: the listener of
  \<open>setupSortListeners\<close> updates \<open>currentSort\<close> and renders the table of the header again.
\<close>

datatype tableId = ActiveProjectTable | CompletedProjectTable

definition sortHeaderClicked :: "dateCtor \<Rightarrow> tableId \<Rightarrow> string \<Rightarrow> page \<Rightarrow> page" where
  "sortHeaderClicked ctor table k st =
     (if k = [] then st
      else
        (let st1 = st\<lparr>currentSort := clickSortHeader k (currentSort st)\<rparr>
         in if table = ActiveProjectTable then renderActiveTable ctor st1
            else renderCompletedTable ctor st1))"

text \<open>
  The body and the global array of one of the two tables, the other table, and the function
  that renders the table. The project rows that a body shows are none when it holds a notice.
\<close>

definition tableOf :: "tableId \<Rightarrow> page \<Rightarrow> tableBody" where
  "tableOf table st = (if table = ActiveProjectTable then activeTable st else completedTable st)"

definition arrayOf :: "tableId \<Rightarrow> page \<Rightarrow> row list" where
  "arrayOf table st =
     (if table = ActiveProjectTable then currentProjectsData st else currentCompletedProjectsData st)"

definition otherTable :: "tableId \<Rightarrow> tableId" where
  "otherTable table =
     (if table = ActiveProjectTable then CompletedProjectTable else ActiveProjectTable)"

definition renderTable :: "dateCtor \<Rightarrow> tableId \<Rightarrow> page \<Rightarrow> page" where
  "renderTable ctor table st =
     (if table = ActiveProjectTable then renderActiveTable ctor st else renderCompletedTable ctor st)"

definition projectRows :: "tableBody \<Rightarrow> row list" where
  "projectRows body = (case body of ProjectRows shown \<Rightarrow> shown | Notice n \<Rightarrow> [])"

text \<open>
  \<open>fetchActiveProjects\<close> and \<open>fetchCompletedProjects\<close>, each in two parts: up to the
  \<open>await\<close>, which shows the loading row and issues the request, and from the answer on,
  which stores the rows in the global and renders them (\<open>data || []\<close> is the empty list for
  a \<open>null\<close> answer, here \<open>None\<close>), or shows the error row.
\<close>

definition fetchActiveProjects :: "page \<Rightarrow> page" where
  "fetchActiveProjects st =
     issue (Request ''GET'' PROJECTS_API []) (st\<lparr>activeTable := Notice ''Loading projects...''\<rparr>)"

definition fetchActiveProjects_resume :: "dateCtor \<Rightarrow> row list option apiResult \<Rightarrow> page \<Rightarrow> page" where
  "fetchActiveProjects_resume ctor answer st =
     (case answer of
        ApiOk data \<Rightarrow>
          renderActiveTable ctor (st\<lparr>currentProjectsData := (case data of None \<Rightarrow> [] | Some d \<Rightarrow> d)\<rparr>)
      | ApiError message \<Rightarrow>
          if message \<noteq> ''Unauthorized''
          then st\<lparr>currentProjectsData := [],
                  activeTable := Notice (''Failed to load projects: '' @ message)\<rparr>
          else st)"

definition fetchCompletedProjects :: "page \<Rightarrow> page" where
  "fetchCompletedProjects st =
     issue (Request ''GET'' COMPLETED_PROJECTS_API [])
       (st\<lparr>completedTable := Notice ''Loading completed projects...''\<rparr>)"

definition fetchCompletedProjects_resume :: "dateCtor \<Rightarrow> row list option apiResult \<Rightarrow> page \<Rightarrow> page" where
  "fetchCompletedProjects_resume ctor answer st =
     (case answer of
        ApiOk data \<Rightarrow>
          renderCompletedTable ctor
            (st\<lparr>currentCompletedProjectsData := (case data of None \<Rightarrow> [] | Some d \<Rightarrow> d)\<rparr>)
      | ApiError message \<Rightarrow>
          if message \<noteq> ''Unauthorized''
          then st\<lparr>currentCompletedProjectsData := [],
                  completedTable := Notice (''Failed to load completed projects: '' @ message)\<rparr>
          else st)"

definition fetchDashboardData :: "page \<Rightarrow> page" where
  "fetchDashboardData st = issue (Request ''GET'' DASHBOARD_API []) st"

text \<open>
  The page as the script leaves it before any data has arrived; the two table bodies are
  taken to be empty until the first fetch writes them.
\<close>

definition initialPage :: page where
  "initialPage =
     \<lparr>currentProjectsData = [],
      currentCompletedProjectsData = [],
      currentSort = \<lparr>sortKey = ''remaining_amount'', sortDirection = Desc\<rparr>,
      currentlyEditingCell = None,
      cells = (\<lambda>_. \<lparr>content = Text [], dataField = [], dataProjectId = [],
                      dataOriginalValue = None, editableClass = False\<rparr>),
      feedback = None,
      activeTable = ProjectRows [],
      completedTable = ProjectRows [],
      editForm = [],
      editModalOpen = False,
      requests = [],
      downloads = []\<rparr>"

text \<open>
  The comparator as the specification describes it for every key: the two values of the
  key compared as lowercased strings.
\<close>

definition compareAsStrings :: "string \<Rightarrow> direction \<Rightarrow> row \<Rightarrow> row \<Rightarrow> jsnum" where
  "compareAsStrings k dir a b =
     compareText dir
       (toLowerCase (String_js (nullish (getProp a k) (JStr []))))
       (toLowerCase (String_js (nullish (getProp b k) (JStr []))))"

section \<open>Inline editing of the status cell\<close>

text \<open>\<open>cell.textContent\<close>: an \<open>input\<close> element holds no text.\<close>

definition textContent :: "cell \<Rightarrow> string" where
  "textContent cl = (case content cl of Text s \<Rightarrow> s | Input ed \<Rightarrow> [])"

definition isInput :: "content \<Rightarrow> bool" where
  "isInput ct = (case ct of Text s \<Rightarrow> False | Input ed \<Rightarrow> True)"

definition updateCell :: "nat \<Rightarrow> (cell \<Rightarrow> cell) \<Rightarrow> page \<Rightarrow> page" where
  "updateCell c f st = st\<lparr>cells := (cells st)(c := f (cells st c))\<rparr>"

text \<open>
  \<open>makeCellEditable(cell)\<close>. The lock \<open>currentlyEditingCell\<close> is taken and the text of the
  cell is replaced by an \<open>input\<close> element; the listeners for \<open>blur\<close> and \<open>keydown\<close> that are
  put on the input close over the project id, the field, the number read from the text and
  the text itself.
\<close>

definition makeCellEditable :: "nat \<Rightarrow> page \<Rightarrow> page" where
  "makeCellEditable c st =
     (case currentlyEditingCell st of
        Some e \<Rightarrow>
          if e \<noteq> c
          then displayFeedback ''Please save or cancel the other edit first.'' ''warning'' st
          else st
      | None \<Rightarrow>
          (let fieldKey = dataField (cells st c);
               projectId = dataProjectId (cells st c)
           in if fieldKey \<noteq> ''status'' then st
              else
                (let shown = trim_js (textContent (cells st c));
                     inputNumber = safeFloat (JStr shown) (JNum (Fin 0));
                     ed = \<lparr>inputValue = String_js inputNumber,
                           edProjectId = projectId,
                           edFieldKey = fieldKey,
                           originalNumericValue = inputNumber,
                           originalDisplayValue = shown\<rparr>
                 in updateCell c (\<lambda>cl. cl\<lparr>content := Input ed, dataOriginalValue := Some shown\<rparr>)
                      (st\<lparr>currentlyEditingCell := Some c\<rparr>))))"

text \<open>The user types into the input of a cell that is being edited.\<close>

definition typeInto :: "nat \<Rightarrow> string \<Rightarrow> page \<Rightarrow> page" where
  "typeInto c s st =
     (case content (cells st c) of
        Text t \<Rightarrow> st
      | Input ed \<Rightarrow> updateCell c (\<lambda>cl. cl\<lparr>content := Input (ed\<lparr>inputValue := s\<rparr>)\<rparr>) st)"

text \<open>
  What \<open>saveEdit\<close> keeps across its \<open>await\<close>: the cell, the request parameters and the two
  texts that it may still write into the cell.
\<close>

record pendingSave =
  psCell :: nat
  psProjectId :: string
  psFieldKey :: string
  psValueToSend :: jsval
  psDisplayValue :: string
  psOriginalValue :: jsval

text \<open>\<open>a !== b\<close> on two numbers.\<close>

definition num_differ :: "jsnum \<Rightarrow> jsnum \<Rightarrow> bool" where
  "num_differ a b = (a = NaN \<or> b = NaN \<or> a \<noteq> b)"

text \<open>
  \<open>saveEdit(inputElement, cell, projectId, fieldKey, originalValue)\<close> up to its \<open>await\<close>;
  the arguments other than the cell are the values that the listeners closed over, found in
  the input \<open>ed\<close>. The result holds the request that is now pending, if one was sent.
\<close>

definition saveEdit :: "editing \<Rightarrow> nat \<Rightarrow> page \<Rightarrow> page \<times> pendingSave option" where
  "saveEdit ed c st =
     (if currentlyEditingCell st \<noteq> Some c then (st, None)
      else
        (let st1 = st\<lparr>currentlyEditingCell := None\<rparr>;
             newValue = trim_js (inputValue ed);
             fieldKey = edFieldKey ed;
             originalValue = originalNumericValue ed
         in if fieldKey = ''status'' then
              (let numericValue = safeFloat (JStr newValue) (JNum NaN)
               in if isNaN numericValue \<or> num_less (toNumber numericValue) (Fin 0)
                     \<or> num_less (Fin 100) (toNumber numericValue)
                  then
                    (updateCell c
                       (\<lambda>cl. cl\<lparr>content := Text (formatPercent originalValue ''N/A''),
                                 editableClass := True\<rparr>)
                       (displayFeedback ''Invalid Status value. Must be between 0 and 100.'' ''error'' st1),
                     None)
                  else
                    (let valueToSend = numericValue;
                         displayValue = formatPercent numericValue ''N/A'';
                         changed = num_differ (parseFloat_js (toFixed1 (toNumber valueToSend)))
                                              (parseFloat_js (toFixed1 (toNumber originalValue)))
                     in if \<not> changed then
                          (updateCell c (\<lambda>cl. cl\<lparr>content := Text displayValue, editableClass := True\<rparr>) st1,
                           None)
                        else
                          (issue (Request ''PUT'' (UPDATE_PROJECT_API (edProjectId ed))
                                    [(fieldKey, valueToSend)])
                             (updateCell c (\<lambda>cl. cl\<lparr>content := Text ''Saving...'', editableClass := False\<rparr>)
                                st1),
                           Some \<lparr>psCell = c,
                                 psProjectId = edProjectId ed,
                                 psFieldKey = fieldKey,
                                 psValueToSend = valueToSend,
                                 psDisplayValue = displayValue,
                                 psOriginalValue = originalValue\<rparr>)))
            else
              (updateCell c
                 (\<lambda>cl. cl\<lparr>content := Text (case dataOriginalValue cl of None \<Rightarrow> [] | Some v \<Rightarrow> v),
                           editableClass := True\<rparr>)
                 st1,
               None)))"

text \<open>\<open>p.id == projectId\<close>, where \<open>projectId\<close> is the string of the cell's \<open>data-project-id\<close>.\<close>

definition looseEqString :: "jsval \<Rightarrow> string \<Rightarrow> bool" where
  "looseEqString v s =
     (case v of
        JUndefined \<Rightarrow> False
      | JNull \<Rightarrow> False
      | JStr t \<Rightarrow> t = s
      | _ \<Rightarrow> toNumber v \<noteq> NaN \<and> toNumber v = toNumber (JStr s))"

text \<open>\<open>findIndex\<close>, with \<open>None\<close> for \<open>-1\<close>.\<close>

fun findIndex :: "('a \<Rightarrow> bool) \<Rightarrow> 'a list \<Rightarrow> nat option" where
  "findIndex P [] = None"
| "findIndex P (x # xs) = (if P x then Some 0 else map_option Suc (findIndex P xs))"

text \<open>The object spread \<open>{ ...old, ...updated }\<close>.\<close>

definition mergeRow :: "row \<Rightarrow> row \<Rightarrow> row" where
  "mergeRow old updated =
     map (\<lambda>(k, v). (k, case map_of updated k of None \<Rightarrow> v | Some v' \<Rightarrow> v')) old
     @ filter (\<lambda>(k, v). map_of old k = None) updated"

text \<open>
  \<open>saveEdit\<close> from the answer of the request on: \<open>ApiOk u\<close> carries \<open>result.updatedProject\<close>
  when the answer has one. On success the cell shows the new value and the saved row is
  merged into the global array that holds the project (or the lists are fetched again); on
  an error other than \<open>Unauthorized\<close> the message is shown and the cell goes back to the
  original percentage. The refresh of the neighbouring remaining-amount cell, which is a
  plain text cell, is not part of the model.
\<close>

definition saveEdit_resume :: "pendingSave \<Rightarrow> row option apiResult \<Rightarrow> page \<Rightarrow> page" where
  "saveEdit_resume p answer st =
     (let c = psCell p;
          fieldKey = psFieldKey p;
          restyle = updateCell c (\<lambda>cl. cl\<lparr>editableClass := True\<rparr>)
      in case answer of
           ApiOk updatedProject \<Rightarrow>
             (let st1 = updateCell c (\<lambda>cl. cl\<lparr>content := Text (psDisplayValue p)\<rparr>) st;
                  dashboard = (\<lambda>s. if fieldKey = ''status'' \<or> fieldKey = ''amount''
                                    then fetchDashboardData s else s)
              in case updatedProject of
                   Some upd \<Rightarrow>
                     (let sameId = (\<lambda>r. looseEqString (getProp r ''id'') (psProjectId p));
                          st2 =
                            (case findIndex sameId (currentProjectsData st1) of
                               Some i \<Rightarrow>
                                 st1\<lparr>currentProjectsData :=
                                       (currentProjectsData st1)
                                         [i := mergeRow (currentProjectsData st1 ! i) upd]\<rparr>
                             | None \<Rightarrow>
                                 (case findIndex sameId (currentCompletedProjectsData st1) of
                                    Some j \<Rightarrow>
                                      st1\<lparr>currentCompletedProjectsData :=
                                            (currentCompletedProjectsData st1)
                                              [j := mergeRow (currentCompletedProjectsData st1 ! j) upd]\<rparr>
                                  | None \<Rightarrow> fetchCompletedProjects (fetchActiveProjects st1)))
                      in restyle (dashboard st2))
                 | None \<Rightarrow> restyle (dashboard (fetchCompletedProjects (fetchActiveProjects st1))))
         | ApiError message \<Rightarrow>
             if message \<noteq> ''Unauthorized'' then
               restyle
                 (updateCell c
                    (\<lambda>cl. cl\<lparr>content :=
                              Text (if fieldKey = ''status''
                                    then formatPercent (psOriginalValue p) ''N/A''
                                    else (case dataOriginalValue cl of None \<Rightarrow> [] | Some v \<Rightarrow> v))\<rparr>)
                    (displayFeedback (''Error updating '' @ fieldKey @ '': '' @ message) ''error'' st))
             else restyle st)"

text \<open>\<open>cancelEdit(inputElement, cell, originalDisplayValue)\<close>.\<close>

definition cancelEdit :: "nat \<Rightarrow> string \<Rightarrow> page \<Rightarrow> page" where
  "cancelEdit c shown st =
     (if currentlyEditingCell st \<noteq> Some c then st
      else
        (updateCell c
           (\<lambda>cl. cl\<lparr>content := Text shown, editableClass := True, dataOriginalValue := None\<rparr>)
           st)
        \<lparr>currentlyEditingCell := None\<rparr>)"

section \<open>The edit form and the CSV export\<close>

text \<open>\<open>a === b\<close>.\<close>

definition strictEq :: "jsval \<Rightarrow> jsval \<Rightarrow> bool" where
  "strictEq a b = (a = b \<and> a \<noteq> JNum NaN)"

text \<open>
  \<open>v ? v.split('T')[0] : ''\<close>: the text before the first \<open>T\<close> of a string; \<open>None\<close> is
  the \<open>TypeError\<close> for a truthy value that is not a string.
\<close>

definition datePart :: "jsval \<Rightarrow> string option" where
  "datePart v =
     (if \<not> truthy v then Some []
      else (case v of JStr s \<Rightarrow> Some (takeWhile (\<lambda>c. c \<noteq> CHR ''T'') s) | _ \<Rightarrow> None))"

text \<open>
  \<open>openEditModal(projectId)\<close>. The project is looked up in the two global arrays; no request
  is made. The form is the list of the fields written, each with the string assigned to the
  field's \<open>value\<close>. A \<open>TypeError\<close> from a date that is not a string ends the function where it
  is raised (\<open>handleTableAction\<close> catches and logs it): the fields written before stay, the
  modal is not shown.
\<close>

definition openEditModal :: "jsnum \<Rightarrow> page \<Rightarrow> page" where
  "openEditModal projectId st =
     (let st1 = clearFeedback st;
          sameId = (\<lambda>p. strictEq (getProp p ''id'') (JNum projectId))
      in case (case find sameId (currentProjectsData st1) of
                 Some p \<Rightarrow> Some p
               | None \<Rightarrow> find sameId (currentCompletedProjectsData st1)) of
           None \<Rightarrow>
             displayFeedback
               (''Error: Project with ID '' @ numberToString projectId @ '' not found.'') ''error'' st1
         | Some project \<Rightarrow>
             (let orEmpty = (\<lambda>k. String_js (orElse (getProp project k) (JStr [])));
                  nullishEmpty = (\<lambda>k. String_js (nullish (getProp project k) (JStr [])));
                  first5 = [(''edit-project_name'', orEmpty ''project_name''),
                            (''edit-project_no'', orEmpty ''project_no''),
                            (''edit-client'', orEmpty ''client''),
                            (''edit-amount'', nullishEmpty ''amount''),
                            (''edit-status'', nullishEmpty ''status'')]
              in case datePart (getProp project ''po_date'') of
                   None \<Rightarrow> st1\<lparr>editForm := first5\<rparr>
                 | Some po \<Rightarrow>
                     (let first7 = first5 @ [(''edit-po_date'', po), (''edit-po_no'', orEmpty ''po_no'')]
                      in case datePart (getProp project ''date_completed'') of
                           None \<Rightarrow> st1\<lparr>editForm := first7\<rparr>
                         | Some done \<Rightarrow>
                             st1\<lparr>editForm :=
                                   first7 @ [(''edit-date_completed'', done),
                                             (''edit-pic'', orEmpty ''pic''),
                                             (''edit-address'', orEmpty ''address''),
                                             (''edit-ds'', orEmpty ''ds''),
                                             (''edit-year'', nullishEmpty ''year'')],
                                 editModalOpen := True\<rparr>)))"

text \<open>\<open>Array.prototype.join\<close>.\<close>

fun join :: "string \<Rightarrow> string list \<Rightarrow> string" where
  "join sep [] = []"
| "join sep [x] = x"
| "join sep (x # y # ys) = x @ sep @ join sep (y # ys)"

definition csvHeaders :: "string list" where
  "csvHeaders = [''BS'', ''Year'', ''Project #'', ''Client'', ''Project Name'', ''Amount'',
                 ''Status (%)'', ''Remaining'', ''Weeks'', ''PO Date'', ''PO No.'', ''Date Completed'',
                 ''PIC'', ''Latest Update'', ''Address'']"

text \<open>The array \<open>row\<close> that \<open>exportToCSV\<close> builds for one project.\<close>

definition csvRowOf :: "dateCtor \<Rightarrow> row \<Rightarrow> jsval list" where
  "csvRowOf ctor project =
     (let orEmpty = (\<lambda>k. nullish (getProp project k) (JStr []))
      in [orEmpty ''ds'', orEmpty ''year'', orEmpty ''project_no'', orEmpty ''client'',
          orEmpty ''project_name'',
          safeFloat (getProp project ''amount'') (JStr []),
          safeFloat (getProp project ''status'') (JStr []),
          safeFloat (getProp project ''remaining_amount'') (JStr []),
          orEmpty ''total_running_weeks'',
          JStr (formatDate ctor (getProp project ''po_date'') []),
          orEmpty ''po_no'',
          JStr (formatDate ctor (getProp project ''date_completed'') []),
          orEmpty ''pic'', orEmpty ''latest_update'', orEmpty ''address''])"

definition csvString :: "dateCtor \<Rightarrow> row list \<Rightarrow> string" where
  "csvString ctor projects =
     join [newline]
       (join [comma] (map (\<lambda>h. formatCsvCell (JStr h)) csvHeaders)
        # map (\<lambda>project. join [comma] (map formatCsvCell (csvRowOf ctor project))) projects)"

text \<open>
  \<open>exportToCSV(dataToExport, filenamePrefix)\<close>: a warning when there is nothing to export,
  else a download of the CSV text. The byte order mark in front of the text and the time
  stamp in the file name are not part of the model; the download is recorded under the
  prefix.
\<close>

definition exportToCSV :: "dateCtor \<Rightarrow> row list \<Rightarrow> string \<Rightarrow> page \<Rightarrow> page" where
  "exportToCSV ctor exported filenamePrefix st =
     (if exported = [] then
        displayFeedback (''No data available to export for '' @ filenamePrefix @ ''.'') ''warning'' st
      else st\<lparr>downloads := downloads st @ [(filenamePrefix, csvString ctor exported)]\<rparr>)"

definition exportActiveToCSV :: "dateCtor \<Rightarrow> page \<Rightarrow> page" where
  "exportActiveToCSV ctor st = exportToCSV ctor (currentProjectsData st) ''Active_Projects'' st"

definition exportCompletedToCSV :: "dateCtor \<Rightarrow> page \<Rightarrow> page" where
  "exportCompletedToCSV ctor st =
     exportToCSV ctor (currentCompletedProjectsData st) ''Completed_Projects'' st"

section \<open>The events of the dashboard page\<close>

text \<open>
  The handlers that the script installs, as events: a double click on a cell of the active
  table that has the class \<open>editable-cell\<close>, typing into the input, the \<open>Enter\<close> and
  \<open>Escape\<close> keys and the delayed \<open>blur\<close> of the input, the closing of the edit modal, a
  click on a sortable header, the table buttons and export buttons, the start of a fetch,
  and the answers of the server to the requests that are pending.
\<close>

datatype event =
    DblClick nat
  | Typed nat string
  | KeyEnter nat
  | KeyEscape nat
  | BlurTimeout nat editing
  | EditModalClosed
  | HeaderClicked tableId string
  | EditClicked jsnum
  | ExportActiveClicked
  | ExportCompletedClicked
  | FetchActive
  | FetchCompleted
  | ActiveAnswered "row list option apiResult"
  | CompletedAnswered "row list option apiResult"
  | SaveAnswered nat "row option apiResult"

text \<open>
  The listener \<open>handleKeyDown\<close> lives on the input element, so it runs only for a cell
  that holds one; it calls \<open>saveEdit\<close> and \<open>cancelEdit\<close> with the values it closed over.
  The timer that \<open>handleBlur\<close> starts runs 150 ms after the \<open>blur\<close>, whatever has become of
  the cell by then: it is modelled with the input \<open>ed\<close> that its closure holds, and with
  \<open>document.activeElement !== input\<close> taken to be true.
\<close>

definition keyEnter :: "nat \<Rightarrow> page \<Rightarrow> page \<times> pendingSave option" where
  "keyEnter c st = (case content (cells st c) of Text t \<Rightarrow> (st, None) | Input ed \<Rightarrow> saveEdit ed c st)"

definition blurTimeout :: "nat \<Rightarrow> editing \<Rightarrow> page \<Rightarrow> page \<times> pendingSave option" where
  "blurTimeout c ed st = (if currentlyEditingCell st = Some c then saveEdit ed c st else (st, None))"

definition keyEscape :: "nat \<Rightarrow> page \<Rightarrow> page" where
  "keyEscape c st =
     (case content (cells st c) of
        Text t \<Rightarrow> st
      | Input ed \<Rightarrow> cancelEdit c (originalDisplayValue ed) st)"

text \<open>The clean-up of the delegated modal listener when the edit modal is closed.\<close>

definition editModalClosed :: "page \<Rightarrow> page" where
  "editModalClosed st =
     (let st1 = st\<lparr>editModalOpen := False\<rparr>
      in case currentlyEditingCell st1 of
           None \<Rightarrow> st1
         | Some c \<Rightarrow>
             if isInput (content (cells st1 c))
             then cancelEdit c (case dataOriginalValue (cells st1 c) of None \<Rightarrow> [] | Some v \<Rightarrow> v) st1
             else st1)"

text \<open>
  One event, on the page and the list of the saves that wait for their answer. An answer
  for a save resumes \<open>saveEdit\<close> and takes the save off the list.
\<close>

definition step :: "dateCtor \<Rightarrow> event \<Rightarrow> page \<times> pendingSave list \<Rightarrow> page \<times> pendingSave list" where
  "step ctor ev s =
     (case s of (st, pending) \<Rightarrow>
        (let sent = (\<lambda>r. case r of (st', None) \<Rightarrow> (st', pending) | (st', Some p) \<Rightarrow> (st', pending @ [p]))
         in case ev of
              DblClick c \<Rightarrow>
                (if editableClass (cells st c) then makeCellEditable c st else st, pending)
            | Typed c t \<Rightarrow> (typeInto c t st, pending)
            | KeyEnter c \<Rightarrow> sent (keyEnter c st)
            | KeyEscape c \<Rightarrow> (keyEscape c st, pending)
            | BlurTimeout c ed \<Rightarrow> sent (blurTimeout c ed st)
            | EditModalClosed \<Rightarrow> (editModalClosed st, pending)
            | HeaderClicked table k \<Rightarrow> (sortHeaderClicked ctor table k st, pending)
            | EditClicked projectId \<Rightarrow> (openEditModal projectId st, pending)
            | ExportActiveClicked \<Rightarrow> (exportActiveToCSV ctor st, pending)
            | ExportCompletedClicked \<Rightarrow> (exportCompletedToCSV ctor st, pending)
            | FetchActive \<Rightarrow> (fetchActiveProjects st, pending)
            | FetchCompleted \<Rightarrow> (fetchCompletedProjects st, pending)
            | ActiveAnswered answer \<Rightarrow> (fetchActiveProjects_resume ctor answer st, pending)
            | CompletedAnswered answer \<Rightarrow> (fetchCompletedProjects_resume ctor answer st, pending)
            | SaveAnswered i answer \<Rightarrow>
                (if i < length pending
                 then (saveEdit_resume (pending ! i) answer st, take i pending @ drop (Suc i) pending)
                 else (st, pending))))"

definition run :: "dateCtor \<Rightarrow> event list \<Rightarrow> page \<times> pendingSave list \<Rightarrow> page \<times> pendingSave list" where
  "run ctor evs s = foldl (\<lambda>s ev. step ctor ev s) s evs"

text \<open>The cell \<open>c\<close> is in edit mode: it holds the input element.\<close>

definition inEditMode :: "page \<Rightarrow> nat \<Rightarrow> bool" where
  "inEditMode st c = isInput (content (cells st c))"

text \<open>The single-editor invariant: only the cell named by the lock can be in edit mode.\<close>

definition singleEditor :: "page \<Rightarrow> bool" where
  "singleEditor st = (\<forall>c. inEditMode st c \<longrightarrow> currentlyEditingCell st = Some c)"

section \<open>The MRF items log\<close>

text \<open>
  What the script of the items log asks of the browser: the local date parts of
  \<open>new Date(string)\<close>, as in \<open>dateCtor\<close>; the text
  \<open>new Date(value).toISOString().split('T')[0]\<close>, with \<open>None\<close> when \<open>toISOString\<close> throws a
  \<open>RangeError\<close> on an invalid date; the text \<open>new Date(value).toLocaleDateString()\<close>; and the
  value that an \<open>input\<close> or \<open>textarea\<close> of a given type shows once a value has been assigned
  to it (the value sanitization of HTML).
\<close>

record browser =
  newDate :: dateCtor
  toISODate :: "jsval \<Rightarrow> string option"
  toLocaleDate :: "jsval \<Rightarrow> string"
  shownValue :: "string \<Rightarrow> jsval \<Rightarrow> string"

text \<open>The options that \<open>displayMrfLog\<close> gives to the status cell of every item.\<close>

definition statusOptions :: "string list" where
  "statusOptions = [''Processing'', ''Pending Approval'', ''For Purchase Order'', ''Awaiting Delivery'',
                    ''Delivered to CMR'', ''Delivered to Site'', ''Cancelled'', ''On Hold'']"

text \<open>The options of the \<open>select\<close> with id \<open>filterStatus\<close> in the page, as (value, label).\<close>

definition filterStatusOptions :: "(string \<times> string) list" where
  "filterStatusOptions =
     [([], ''All Statuses''),
      (''Processing'', ''Processing''),
      (''Pending Approval'', ''Pending Approval''),
      (''For Purchase Order'', ''For Purchase Order''),
      (''Awaiting Delivery'', ''Awaiting Delivery''),
      (''Delivered to CMR'', ''Delivered to CMR''),
      (''Delivered to Site'', ''Delivered to Site''),
      (''Cancelled'', ''Cancelled''),
      (''On Hold'', ''On Hold'')]"

text \<open>
  The edit control that the click listener of \<open>setupEditableCell\<close> puts into a cell: a
  \<open>select\<close> with its options and its value, an \<open>input\<close> with its type and its value, or a
  \<open>textarea\<close> with its value.
\<close>

datatype control = SelectEl "string list" string | InputEl string string | TextareaEl string

datatype mrfContent = MrfText string | MrfControl control

text \<open>
  A cell of the log. An editable cell carries what \<open>setupEditableCell\<close> gave it: the
  attributes \<open>data-field\<close> and \<open>data-id\<close>, and the click listener with the item's value, the
  type and the options.
\<close>

record mrfCell =
  mrfContent :: mrfContent
  mrfEditable :: bool
  mrfField :: string
  mrfDataId :: string
  mrfItemValue :: jsval
  mrfType :: string
  mrfOptions :: "string list"

record mrfPage =
  mrfCells :: "nat \<Rightarrow> mrfCell"
  mrfRequests :: "request list"
  mrfAlerts :: "string list"

definition plainCell :: "string \<Rightarrow> mrfCell" where
  "plainCell shown =
     \<lparr>mrfContent = MrfText shown, mrfEditable = False, mrfField = [], mrfDataId = [],
      mrfItemValue = JUndefined, mrfType = [], mrfOptions = []\<rparr>"

text \<open>\<open>setupEditableCell(cellElement, mrfItem, fieldName, type, options)\<close> on a cell that shows \<open>shown\<close>.\<close>

definition setupEditableCell :: "string \<Rightarrow> row \<Rightarrow> string \<Rightarrow> string \<Rightarrow> string list \<Rightarrow> mrfCell" where
  "setupEditableCell shown mrfItem fieldName type options =
     \<lparr>mrfContent = MrfText shown, mrfEditable = True, mrfField = fieldName,
      mrfDataId = String_js (getProp mrfItem ''item_id''),
      mrfItemValue = getProp mrfItem fieldName, mrfType = type, mrfOptions = options\<rparr>"

text \<open>The cells of the table row that \<open>displayMrfLog\<close> writes for one item, left to right.\<close>

definition mrfRowCells :: "browser \<Rightarrow> row \<Rightarrow> mrfCell list" where
  "mrfRowCells b item =
     (let orNA = (\<lambda>k. String_js (orElse (getProp item k) (JStr ''N/A'')));
          dateOrNA = (\<lambda>k. if truthy (getProp item k) then toLocaleDate b (getProp item k) else ''N/A'');
          nullishNA = (\<lambda>k. String_js (nullish (getProp item k) (JStr ''N/A'')))
      in [plainCell (orNA ''form_no''),
          plainCell (orNA ''project_name''),
          plainCell (dateOrNA ''mrf_date''),
          plainCell (nullishNA ''item_no''),
          setupEditableCell (orNA ''part_no'') item ''part_no'' ''text'' [],
          setupEditableCell (orNA ''brand_name'') item ''brand_name'' ''text'' [],
          setupEditableCell (orNA ''description'') item ''description'' ''textarea'' [],
          setupEditableCell (nullishNA ''qty'') item ''qty'' ''number'' [],
          setupEditableCell (orNA ''uom'') item ''uom'' ''text'' [],
          setupEditableCell (dateOrNA ''install_date'') item ''install_date'' ''date'' [],
          setupEditableCell (orNA ''item_status'') item ''item_status'' ''select'' statusOptions,
          setupEditableCell (dateOrNA ''actual_delivery'') item ''actual_delivery'' ''date'' [],
          setupEditableCell (orNA ''item_remarks'') item ''item_remarks'' ''textarea'' [],
          plainCell []])"

text \<open>\<open>displayMrfLog(mrfItems)\<close>: the cells of all rows, numbered in document order.\<close>

definition displayMrfLog :: "browser \<Rightarrow> row list \<Rightarrow> mrfPage \<Rightarrow> mrfPage" where
  "displayMrfLog b mrfItems st =
     (let shown = (if mrfItems = [] then [plainCell ''No MRF item records found.'']
                   else concat (map (mrfRowCells b) mrfItems))
      in st\<lparr>mrfCells := (\<lambda>n. if n < length shown then shown ! n else plainCell [])\<rparr>)"

definition emptyMrfPage :: mrfPage where
  "emptyMrfPage = \<lparr>mrfCells = (\<lambda>n. plainCell []), mrfRequests = [], mrfAlerts = []\<rparr>"

text \<open>
  The value of a fresh \<open>select\<close>: the option equal to the item's value when there is one,
  else the first option, which the browser selects.
\<close>

definition selectedValue :: "string list \<Rightarrow> jsval \<Rightarrow> string" where
  "selectedValue options originalValue =
     (case originalValue of
        JStr s \<Rightarrow> if s \<in> set options then s else (case options of [] \<Rightarrow> [] | opt # rest \<Rightarrow> opt)
      | _ \<Rightarrow> (case options of [] \<Rightarrow> [] | opt # rest \<Rightarrow> opt))"

definition updateMrfCell :: "nat \<Rightarrow> (mrfCell \<Rightarrow> mrfCell) \<Rightarrow> mrfPage \<Rightarrow> mrfPage" where
  "updateMrfCell c f st = st\<lparr>mrfCells := (mrfCells st)(c := f (mrfCells st c))\<rparr>"

text \<open>
  The click listener of an editable cell. A cell that already holds a control is left alone;
  a \<open>RangeError\<close> from \<open>toISOString\<close> ends the listener before the cell is touched.
\<close>

definition mrfCellClicked :: "browser \<Rightarrow> nat \<Rightarrow> mrfPage \<Rightarrow> mrfPage" where
  "mrfCellClicked b c st =
     (let cl = mrfCells st c; originalValue = mrfItemValue cl
      in if \<not> mrfEditable cl then st
         else
           (case mrfContent cl of
              MrfControl ctl \<Rightarrow> st
            | MrfText shown \<Rightarrow>
                (let made =
                       (if mrfType cl = ''select''
                        then Some (SelectEl (mrfOptions cl) (selectedValue (mrfOptions cl) originalValue))
                        else if mrfType cl = ''date''
                        then (if truthy originalValue
                              then map_option (InputEl ''date'') (toISODate b originalValue)
                              else Some (InputEl ''date'' []))
                        else if mrfType cl = ''number''
                        then Some (InputEl ''number'' (shownValue b ''number'' originalValue))
                        else if mrfType cl = ''textarea''
                        then Some (TextareaEl (shownValue b ''textarea'' originalValue))
                        else Some (InputEl ''text'' (shownValue b ''text'' originalValue)))
                 in case made of
                      None \<Rightarrow> st
                    | Some ctl \<Rightarrow> updateMrfCell c (\<lambda>x. x\<lparr>mrfContent := MrfControl ctl\<rparr>) st)))"

text \<open>The user picks the option number \<open>i\<close> of a \<open>select\<close>, or enters text into a field.\<close>

definition chooseOption :: "nat \<Rightarrow> nat \<Rightarrow> mrfPage \<Rightarrow> mrfPage" where
  "chooseOption c i st =
     (case mrfContent (mrfCells st c) of
        MrfControl (SelectEl options v) \<Rightarrow>
          if i < length options
          then updateMrfCell c (\<lambda>x. x\<lparr>mrfContent := MrfControl (SelectEl options (options ! i))\<rparr>) st
          else st
      | _ \<Rightarrow> st)"

definition enterText :: "nat \<Rightarrow> string \<Rightarrow> mrfPage \<Rightarrow> mrfPage" where
  "enterText c s st =
     (case mrfContent (mrfCells st c) of
        MrfControl (InputEl type v) \<Rightarrow>
          updateMrfCell c (\<lambda>x. x\<lparr>mrfContent := MrfControl (InputEl type s)\<rparr>) st
      | MrfControl (TextareaEl v) \<Rightarrow>
          updateMrfCell c (\<lambda>x. x\<lparr>mrfContent := MrfControl (TextareaEl s)\<rparr>) st
      | _ \<Rightarrow> st)"

text \<open>
  \<open>cellElement.textContent\<close>: the text of a cell, and for a cell that holds a control the
  text inside the control, which is the option texts of a \<open>select\<close> and nothing for an
  \<open>input\<close> or a \<open>textarea\<close> whose value was set by script.
\<close>

definition mrfTextContent :: "mrfCell \<Rightarrow> string" where
  "mrfTextContent cl =
     (case mrfContent cl of
        MrfText s \<Rightarrow> s
      | MrfControl (SelectEl options v) \<Rightarrow> concat options
      | MrfControl (InputEl type v) \<Rightarrow> []
      | MrfControl (TextareaEl v) \<Rightarrow> [])"

definition controlValue :: "control \<Rightarrow> string" where
  "controlValue ctl = (case ctl of SelectEl options v \<Rightarrow> v | InputEl type v \<Rightarrow> v | TextareaEl v \<Rightarrow> v)"

text \<open>\<open>cellElement.querySelector('input[type="date"]')\<close> finds something.\<close>

definition holdsDateInput :: "mrfCell \<Rightarrow> bool" where
  "holdsDateInput cl =
     (case mrfContent cl of MrfControl (InputEl type v) \<Rightarrow> type = ''date'' | _ \<Rightarrow> False)"

text \<open>
  The template \<open>${date.getMonth() + 1}/${date.getDate()}/${date.getFullYear()}\<close> for
  \<open>new Date(newValue)\<close>; the parts of an invalid date are \<open>NaN\<close>.
\<close>

definition localDateText :: "browser \<Rightarrow> string \<Rightarrow> string" where
  "localDateText b newValue =
     (case newDate b newValue of
        None \<Rightarrow> ''NaN/NaN/NaN''
      | Some (y, m, d) \<Rightarrow> intToString (m + 1) @ ''/'' @ intToString d @ ''/'' @ intToString y)"

record pendingMrf =
  pmCell :: nat
  pmDisplayValue :: string
  pmOriginalValue :: string

text \<open>
  \<open>saveEditedMrfItem(cellElement, newValue)\<close> up to its \<open>await\<close>. The request body is
  \<open>{ id: mrfId, [fieldName]: newValue }\<close>.
\<close>

definition saveEditedMrfItem :: "browser \<Rightarrow> nat \<Rightarrow> string \<Rightarrow> mrfPage \<Rightarrow> mrfPage \<times> pendingMrf option" where
  "saveEditedMrfItem b c newValue st =
     (let cl = mrfCells st c;
          mrfId = mrfDataId cl;
          fieldName = mrfField cl;
          originalValue = mrfTextContent cl;
          displayValue =
            (if holdsDateInput cl
             then (if newValue \<noteq> [] then localDateText b newValue else ''N/A'')
             else newValue)
      in if newValue = originalValue \<or> (newValue = [] \<and> originalValue = ''N/A'')
         then (updateMrfCell c (\<lambda>x. x\<lparr>mrfContent := MrfText originalValue\<rparr>) st, None)
         else
           (st\<lparr>mrfRequests := mrfRequests st
                  @ [Request ''PUT'' ''/api/mrf_items''
                       (if fieldName = ''id'' then [(''id'', JStr newValue)]
                        else [(''id'', JStr mrfId), (fieldName, JStr newValue)])]\<rparr>,
            Some \<lparr>pmCell = c, pmDisplayValue = displayValue, pmOriginalValue = originalValue\<rparr>))"

text \<open>
  The answer to the request: success, or the message of the error that the \<open>catch\<close> block
  receives (a response that is not ok, or a failure of \<open>fetch\<close> itself).
\<close>

datatype mrfAnswer = MrfOk | MrfFailed string

definition saveEditedMrfItem_resume :: "pendingMrf \<Rightarrow> mrfAnswer \<Rightarrow> mrfPage \<Rightarrow> mrfPage" where
  "saveEditedMrfItem_resume p answer st =
     (case answer of
        MrfOk \<Rightarrow> updateMrfCell (pmCell p) (\<lambda>x. x\<lparr>mrfContent := MrfText (pmDisplayValue p)\<rparr>) st
      | MrfFailed message \<Rightarrow>
          updateMrfCell (pmCell p) (\<lambda>x. x\<lparr>mrfContent := MrfText (pmOriginalValue p)\<rparr>)
            (st\<lparr>mrfAlerts := mrfAlerts st @ [''Failed to save changes: '' @ message]\<rparr>))"

text \<open>
  The \<open>blur\<close> listener of a control (the \<open>Enter\<close> key blurs the control): it saves the
  control's value.
\<close>

definition controlBlurred :: "browser \<Rightarrow> nat \<Rightarrow> mrfPage \<Rightarrow> mrfPage \<times> pendingMrf option" where
  "controlBlurred b c st =
     (case mrfContent (mrfCells st c) of
        MrfText s \<Rightarrow> (st, None)
      | MrfControl ctl \<Rightarrow> saveEditedMrfItem b c (controlValue ctl) st)"

datatype mrfEvent =
    CellClicked nat
  | OptionChosen nat nat
  | TextEntered nat string
  | ControlBlurred nat
  | MrfAnswered nat mrfAnswer

definition mrfStep :: "browser \<Rightarrow> mrfEvent \<Rightarrow> mrfPage \<times> pendingMrf list \<Rightarrow> mrfPage \<times> pendingMrf list" where
  "mrfStep b ev s =
     (case s of (st, pending) \<Rightarrow>
        (case ev of
           CellClicked c \<Rightarrow> (mrfCellClicked b c st, pending)
         | OptionChosen c i \<Rightarrow> (chooseOption c i st, pending)
         | TextEntered c t \<Rightarrow> (enterText c t st, pending)
         | ControlBlurred c \<Rightarrow>
             (case controlBlurred b c st of
                (st', None) \<Rightarrow> (st', pending)
              | (st', Some p) \<Rightarrow> (st', pending @ [p]))
         | MrfAnswered i answer \<Rightarrow>
             (if i < length pending
              then (saveEditedMrfItem_resume (pending ! i) answer st,
                    take i pending @ drop (Suc i) pending)
              else (st, pending))))"

definition mrfRun :: "browser \<Rightarrow> mrfEvent list \<Rightarrow> mrfPage \<times> pendingMrf list \<Rightarrow> mrfPage \<times> pendingMrf list" where
  "mrfRun b evs s = foldl (\<lambda>s ev. mrfStep b ev s) s evs"

text \<open>The statuses that a request assigns: the values sent under \<open>item_status\<close>.\<close>

definition assignedStatuses :: "request list \<Rightarrow> jsval set" where
  "assignedStatuses rs =
     {v. \<exists>m u body. Request m u body \<in> set rs \<and> (''item_status'', v) \<in> set body}"

text \<open>The statuses that the filter offers: the values of its options, the empty value of
  \<open>All Statuses\<close> apart.\<close>

definition filterStatuses :: "string list" where
  "filterStatuses = filter (\<lambda>v. v \<noteq> []) (map fst filterStatusOptions)"

text \<open>
  The cells of the field \<open>item_status\<close> are the status cells of \<open>displayMrfLog\<close>: each is a
  \<open>select\<close> cell over the eight options, and holds text or a \<open>select\<close> whose value is one of
  them.
\<close>

definition isStatusSelect :: "mrfContent \<Rightarrow> bool" where
  "isStatusSelect ct =
     (case ct of
        MrfText s \<Rightarrow> True
      | MrfControl (SelectEl options v) \<Rightarrow> options = statusOptions \<and> v \<in> set statusOptions
      | MrfControl (InputEl type v) \<Rightarrow> False
      | MrfControl (TextareaEl v) \<Rightarrow> False)"

definition statusCellsOk :: "mrfPage \<Rightarrow> bool" where
  "statusCellsOk st =
     (\<forall>c. mrfField (mrfCells st c) = ''item_status'' \<longrightarrow>
          mrfType (mrfCells st c) = ''select'' \<and> mrfOptions (mrfCells st c) = statusOptions
          \<and> isStatusSelect (mrfContent (mrfCells st c)))"

section \<open>Adding a forecast entry\<close>

text \<open>
  What \<open>handleAddForecastSubmit\<close> reads from the form: the hidden project id, the amount
  and percent fields (trimmed by the handler), the date and the deduction checkbox.
\<close>

record forecastForm =
  ffProjectId :: string
  ffAmount :: string
  ffPercent :: string
  ffDate :: string
  ffDeduct :: bool

text \<open>
  The variables of the validation: \<open>forecast_input_type\<close>, \<open>original_input_value\<close>,
  \<open>isValid\<close>, \<open>valueFieldProvided\<close> and the text of the error element.
\<close>

record validation =
  inputType :: string
  inputNumber :: jsval
  isValid :: bool
  valueFieldProvided :: bool
  errorText :: string

definition invalid :: "string \<Rightarrow> validation \<Rightarrow> validation" where
  "invalid message v = v\<lparr>isValid := False, errorText := message\<rparr>"

definition checkAmount :: "string \<Rightarrow> validation \<Rightarrow> validation" where
  "checkAmount amountStr v =
     (if amountStr \<noteq> [] then
        (let numAmount = safeFloat (JStr amountStr) (JNum NaN)
         in if isNaN numAmount then invalid ''Error: Invalid Amount.'' v
            else v\<lparr>inputType := ''amount'', inputNumber := numAmount, valueFieldProvided := True\<rparr>)
      else v)"

definition checkPercent :: "string \<Rightarrow> validation \<Rightarrow> validation" where
  "checkPercent percentStr v =
     (if percentStr \<noteq> [] then
        (if valueFieldProvided v then invalid ''Error: Enter Amount OR Percent, not both.'' v
         else
           (let numPercent = safeFloat (JStr percentStr) (JNum NaN)
            in if isNaN numPercent then invalid ''Error: Invalid Percent.'' v
               else v\<lparr>inputType := ''percent'', inputNumber := numPercent, valueFieldProvided := True\<rparr>))
      else v)"

definition checkProjectId :: "string \<Rightarrow> validation \<Rightarrow> validation" where
  "checkProjectId projectId v =
     (if projectId = [] \<or> isNaN (JNum (parseInt10 projectId))
      then invalid ''Error: Project ID missing.'' v else v)"

definition checkDate :: "dateCtor \<Rightarrow> string \<Rightarrow> validation \<Rightarrow> validation" where
  "checkDate ctor dateValue v =
     (if dateValue = [] then invalid ''Error: Date required.'' v
      else if parseDate ctor (JStr dateValue) = None then invalid ''Error: Invalid Date format.'' v
      else v)"

definition checkProvided :: "validation \<Rightarrow> validation" where
  "checkProvided v =
     (if \<not> valueFieldProvided v \<and> isValid v then invalid ''Error: Enter Amount or Percent.'' v else v)"

definition validateForecast :: "dateCtor \<Rightarrow> forecastForm \<Rightarrow> validation" where
  "validateForecast ctor f =
     checkProvided
       (checkDate ctor (ffDate f)
          (checkProjectId (ffProjectId f)
             (checkPercent (trim_js (ffPercent f))
                (checkAmount (trim_js (ffAmount f))
                   \<lparr>inputType = [], inputNumber = JNull, isValid = True,
                    valueFieldProvided = False, errorText = []\<rparr>))))"

text \<open>
  \<open>handleAddForecastSubmit\<close> up to its \<open>await\<close>: the error message of a failed validation,
  or the request that is sent. With the checkbox checked the value to send is
  \<open>original_input_value * 0.30\<close>, the product of two doubles; \<open>apiFetch\<close> sends the body
  as JSON.
\<close>

definition handleAddForecastSubmit :: "dateCtor \<Rightarrow> forecastForm \<Rightarrow> string + request" where
  "handleAddForecastSubmit ctor f =
     (let v = validateForecast ctor f;
          isDeductionChecked = ffDeduct f
      in if \<not> isValid v then Inl (errorText v)
         else
           (let original_input_value = inputNumber v;
                final_value_to_send =
                  (if isDeductionChecked
                   then JNum (num_mul (toNumber original_input_value) (roundDouble (3 / 10)))
                   else original_input_value);
                final_is_deduction_flag = isDeductionChecked
            in Inr (Request ''POST'' ADD_FORECAST_API
                      (jsonBody
                         [(''project_id'', JNum (parseInt10 (ffProjectId f))),
                          (''forecast_input_type'', JStr (inputType v)),
                          (''forecast_input_value'', final_value_to_send),
                          (''forecast_date'', JStr (ffDate f)),
                          (''is_deduction'', JBool final_is_deduction_flag)]))))"

text \<open>The number that the user entered: the one field that is filled in, read by \<open>safeFloat\<close>.\<close>

definition enteredValue :: "forecastForm \<Rightarrow> jsval" where
  "enteredValue f =
     (if trim_js (ffAmount f) \<noteq> [] then safeFloat (JStr (trim_js (ffAmount f))) (JNum NaN)
      else safeFloat (JStr (trim_js (ffPercent f))) (JNum NaN))"

definition sentValue :: "request \<Rightarrow> string \<Rightarrow> jsval option" where
  "sentValue r k = (case r of Request m u body \<Rightarrow> map_of body k)"

section \<open>Concrete pages and runs\<close>

text \<open>Two rows, the first with an empty client, and the page that shows them sorted by client.\<close>

definition twoClients :: "row list" where
  "twoClients = [[(''id'', JNum (Fin 1)), (''client'', JStr [])],
                 [(''id'', JNum (Fin 2)), (''client'', JStr ''Acme'')]]"

definition clientsLoaded :: page where
  "clientsLoaded =
     sortHeaderClicked strictCtor ActiveProjectTable ''client''
       (fetchActiveProjects_resume strictCtor (ApiOk (Some twoClients)) initialPage)"

text \<open>
  A row whose \<open>latest_update\<close> is a number, and two rows that the client and the amount
  order differently. The second page has fetched these two, and then a header of the active
  table and a header of the completed table have been clicked.
\<close>

definition numberedUpdate :: row where
  "numberedUpdate = [(''id'', JNum (Fin 3)), (''client'', JStr ''Acme''), (''latest_update'', JNum (Fin 5))]"

definition twoAmounts :: "row list" where
  "twoAmounts = [[(''id'', JNum (Fin 1)), (''client'', JStr ''Zenith''), (''amount'', JNum (Fin 100))],
                 [(''id'', JNum (Fin 2)), (''client'', JStr ''Acme''), (''amount'', JNum (Fin 500))]]"

definition otherHeaderClicked :: page where
  "otherHeaderClicked =
     fst (run strictCtor
            [ActiveAnswered (ApiOk (Some twoAmounts)),
             HeaderClicked ActiveProjectTable ''client'',
             HeaderClicked CompletedProjectTable ''amount'']
            (initialPage, []))"

text \<open>Two rows whose amounts are the strings 9 and 10.\<close>

definition nineRow :: row where "nineRow = [(''id'', JNum (Fin 1)), (''amount'', JStr ''9'')]"

definition tenRow :: row where "tenRow = [(''id'', JNum (Fin 2)), (''amount'', JStr ''10'')]"

text \<open>A page that has fetched one project, with the status cells showing its 75 percent.\<close>

definition pumpProject :: row where
  "pumpProject = [(''id'', JNum (Fin 7)), (''project_name'', JStr ''Pump Station''),
                  (''client'', JStr ''Acme''), (''status'', JNum (Fin 75)),
                  (''po_date'', JStr ''2024-03-10T00:00:00'')]"

definition statusPage :: page where
  "statusPage =
     (fetchActiveProjects_resume strictCtor (ApiOk (Some [pumpProject])) initialPage)
       \<lparr>cells := (\<lambda>c. \<lparr>content = Text ''75.0%'', dataField = ''status'', dataProjectId = ''7'',
                        dataOriginalValue = None, editableClass = True\<rparr>)\<rparr>"

text \<open>A completed project, and the page once both fetches have answered.\<close>

definition depotProject :: row where
  "depotProject = [(''id'', JNum (Fin 9)), (''project_name'', JStr ''Depot''),
                   (''client'', JStr ''Borealis''), (''status'', JNum (Fin 100)),
                   (''date_completed'', JStr ''2023-11-30T00:00:00'')]"

definition bothFetched :: page where
  "bothFetched = fetchCompletedProjects_resume strictCtor (ApiOk (Some [depotProject])) statusPage"

text \<open>The page after a double click on the first status cell and one on the second.\<close>

definition twoDoubleClicks :: page where
  "twoDoubleClicks = fst (run strictCtor [DblClick 0, DblClick 1] (statusPage, []))"

text \<open>
  The status of project 7 is edited from 75 to 80: the input as the listeners hold it, the
  page after typing, after \<open>Enter\<close>, and after the request has failed.
\<close>

definition eightyInput :: editing where
  "eightyInput = \<lparr>inputValue = ''80'', edProjectId = ''7'', edFieldKey = ''status'',
                   originalNumericValue = JNum (Fin 75), originalDisplayValue = ''75.0%''\<rparr>"

definition eightyTyped :: page where
  "eightyTyped = typeInto 0 ''80'' (makeCellEditable 0 statusPage)"

definition eightySaving :: "page \<times> pendingSave option" where
  "eightySaving = keyEnter 0 eightyTyped"

definition eightyFailed :: page where
  "eightyFailed =
     (case snd eightySaving of
        None \<Rightarrow> fst eightySaving
      | Some p \<Rightarrow> saveEdit_resume p (ApiError ''Internal Server Error'') (fst eightySaving))"

text \<open>
  A browser in the UTC time zone with the strict constructor, and an items log with one
  item: its part number is replaced, and its status is picked from the select.
\<close>

definition plainBrowser :: browser where
  "plainBrowser =
     \<lparr>newDate = strictCtor,
      toISODate = (\<lambda>v. case matchIso (String_js v) of None \<Rightarrow> None | Some ymd \<Rightarrow> Some (take 10 (String_js v))),
      toLocaleDate = (\<lambda>v. formatDate strictCtor v ''Invalid Date''),
      shownValue = (\<lambda>type v. if v = JNull then [] else String_js v)\<rparr>"

definition valveItem :: row where
  "valveItem = [(''item_id'', JNum (Fin 12)), (''form_no'', JStr ''MRF-001''),
                (''part_no'', JStr ''V-100''), (''qty'', JNum (Fin 4)),
                (''item_status'', JStr ''Processing'')]"

definition valveLog :: mrfPage where
  "valveLog = displayMrfLog plainBrowser [valveItem] emptyMrfPage"

definition valveEdited :: mrfPage where
  "valveEdited = enterText 4 ''V-200'' (mrfCellClicked plainBrowser 4 valveLog)"

definition valveSaving :: "mrfPage \<times> pendingMrf option" where
  "valveSaving = controlBlurred plainBrowser 4 valveEdited"

definition statusPicked :: "mrfPage \<times> pendingMrf list" where
  "statusPicked =
     mrfRun plainBrowser [CellClicked 10, OptionChosen 10 5, ControlBlurred 10] (valveLog, [])"

text \<open>Two records of cells, some of which need quotes.\<close>

definition quotedCells :: "jsval list list" where
  "quotedCells =
     [[JStr ''Pump, 3 in.'', JNull, JStr [CHR ''a'', dquote, CHR ''b'']],
      [JStr [CHR ''x'', creturn, newline, CHR ''y''], JUndefined, JStr ''ACME'']]"

text \<open>
  Forecast forms: an amount with thousands separator and the deduction checked, the amount
  3 with the deduction checked, and the amount \<open>Infinity\<close> without the deduction.
\<close>

definition deductedForm :: forecastForm where
  "deductedForm = \<lparr>ffProjectId = ''7'', ffAmount = '' 1,000.50 '', ffPercent = [],
                    ffDate = ''2024-03-10'', ffDeduct = True\<rparr>"

definition threeDeducted :: forecastForm where
  "threeDeducted = \<lparr>ffProjectId = ''7'', ffAmount = ''3'', ffPercent = [],
                     ffDate = ''2024-03-10'', ffDeduct = True\<rparr>"

definition infinityEntered :: forecastForm where
  "infinityEntered = \<lparr>ffProjectId = ''7'', ffAmount = ''Infinity'', ffPercent = [],
                       ffDate = ''2024-03-10'', ffDeduct = False\<rparr>"

text \<open>The request for project 7 that carries a given amount and deduction flag.\<close>

definition forecastRequest :: "jsval \<Rightarrow> bool \<Rightarrow> request" where
  "forecastRequest v deducted =
     Request ''POST'' ''/api/forecast''
       [(''project_id'', JNum (Fin 7)),
        (''forecast_input_type'', JStr ''amount''),
        (''forecast_input_value'', v),
        (''forecast_date'', JStr ''2024-03-10''),
        (''is_deduction'', JBool deducted)]"

section \<open>Properties of the CSV export\<close>

lemma csvRun_append:
  "csvRun (a @ b) st = (case csvRun a st of None \<Rightarrow> None | Some st' \<Rightarrow> csvRun b st')"
  by (induction a arbitrary: st) (auto split: option.splits)

lemma csvRun_bare:
  "plainText s \<Longrightarrow> rdMode st = Bare \<Longrightarrow> csvRun s st = Some (st\<lparr>rdField := rdField st @ s\<rparr>)"
proof (induction s arbitrary: st)
  case Nil
  show ?case by simp
next
  case (Cons c s)
  have c: "c \<noteq> dquote" "c \<noteq> comma" "c \<noteq> newline" "c \<noteq> creturn"
    using Cons.prems(1) by (auto simp: plainText_def)
  have s: "plainText s" using Cons.prems(1) by (auto simp: plainText_def)
  have "csvStep c st = Some (st\<lparr>rdField := rdField st @ [c]\<rparr>)"
    using c Cons.prems(2) by (simp add: csvStep_def)
  moreover have "csvRun s (st\<lparr>rdField := rdField st @ [c]\<rparr>)
                   = Some (st\<lparr>rdField := rdField st @ [c]\<rparr>\<lparr>rdField := rdField (st\<lparr>rdField := rdField st @ [c]\<rparr>) @ s\<rparr>)"
    using Cons.prems(2) by (intro Cons.IH [OF s]) simp
  ultimately show ?case by simp
qed

lemma csvRun_plain:
  assumes "plainText s" and "rdMode st = FieldStart" and "rdField st = []"
  shows "csvRun s st = Some (st\<lparr>rdMode := (if s = [] then FieldStart else Bare), rdField := s\<rparr>)"
proof (cases s)
  case Nil
  then show ?thesis using assms by simp
next
  case (Cons c t)
  have c: "c \<noteq> dquote" "c \<noteq> comma" "c \<noteq> newline" "c \<noteq> creturn"
    using assms(1) Cons by (auto simp: plainText_def)
  have t: "plainText t" using assms(1) Cons by (auto simp: plainText_def)
  have "csvStep c st = Some (st\<lparr>rdMode := Bare, rdField := [c]\<rparr>)"
    using c assms by (simp add: csvStep_def csvStepStart_def)
  moreover have "csvRun t (st\<lparr>rdMode := Bare, rdField := [c]\<rparr>)
                   = Some (st\<lparr>rdMode := Bare, rdField := [c]\<rparr>\<lparr>rdField := rdField (st\<lparr>rdMode := Bare, rdField := [c]\<rparr>) @ t\<rparr>)"
    by (intro csvRun_bare [OF t]) simp
  ultimately show ?thesis using Cons by simp
qed

lemma csvRun_quoted:
  "rdMode st = Quoted \<Longrightarrow> csvRun (escapeQuotes s) st = Some (st\<lparr>rdField := rdField st @ s\<rparr>)"
proof (induction s arbitrary: st)
  case Nil
  show ?case by (simp add: escapeQuotes_def)
next
  case (Cons c s)
  let ?st = "st\<lparr>rdField := rdField st @ [c]\<rparr>"
  have m: "rdMode ?st = Quoted" using Cons.prems by simp
  have step: "csvRun (escapeQuotes [c]) st = Some ?st"
    using Cons.prems by (simp add: escapeQuotes_def csvStep_def)
  have "escapeQuotes (c # s) = escapeQuotes [c] @ escapeQuotes s"
    by (simp add: escapeQuotes_def)
  then have "csvRun (escapeQuotes (c # s)) st = csvRun (escapeQuotes s) ?st"
    using step by (simp add: csvRun_append del: csvRun.simps)
  also have "\<dots> = Some (?st\<lparr>rdField := rdField ?st @ s\<rparr>)"
    by (rule Cons.IH [OF m])
  finally show ?case by simp
qed

lemma csvStep_comma:
  "fieldRead st \<Longrightarrow> csvStep comma st = Some (endField st)"
  by (auto simp: fieldRead_def csvStep_def csvStepStart_def)

lemma csvStep_newline:
  "fieldRead st \<Longrightarrow> csvStep newline st = Some (endRecord FieldStart st)"
  by (auto simp: fieldRead_def csvStep_def csvStepStart_def)

lemma csvFinish_fieldRead:
  "fieldRead st \<Longrightarrow> csvFinish st = Some (rdRows st @ [rdRow st @ [rdField st]])"
  by (auto simp: fieldRead_def csvFinish_def)

text \<open>One cell, read from the start of a field.\<close>

lemma csvRun_cell:
  assumes "rdMode st = FieldStart" and "rdField st = []" and "\<not> bareReturn (csvStringValue v)"
  shows "\<exists>m. csvRun (formatCsvCell v) st = Some (st\<lparr>rdMode := m, rdField := csvStringValue v\<rparr>)
             \<and> (m = FieldStart \<or> m = Bare \<or> m = QuoteClosed)"
proof (cases "needsQuoting (csvStringValue v)")
  case True
  let ?s = "csvStringValue v"
  have 1: "csvStep dquote st = Some (st\<lparr>rdMode := Quoted\<rparr>)"
    using assms(1) by (simp add: csvStep_def csvStepStart_def)
  have 2: "csvRun (escapeQuotes ?s) (st\<lparr>rdMode := Quoted\<rparr>)
             = Some (st\<lparr>rdMode := Quoted\<rparr>\<lparr>rdField := rdField (st\<lparr>rdMode := Quoted\<rparr>) @ ?s\<rparr>)"
    by (rule csvRun_quoted) simp
  have 3: "csvStep dquote (st\<lparr>rdMode := Quoted, rdField := ?s\<rparr>)
             = Some (st\<lparr>rdMode := QuoteClosed, rdField := ?s\<rparr>)"
    by (simp add: csvStep_def)
  have "formatCsvCell v = dquote # (escapeQuotes ?s @ [dquote])"
    using True by (simp add: formatCsvCell_def)
  then have "csvRun (formatCsvCell v) st = Some (st\<lparr>rdMode := QuoteClosed, rdField := ?s\<rparr>)"
    using 1 2 3 assms(2) by (simp add: csvRun_append)
  then show ?thesis by blast
next
  case False
  let ?s = "csvStringValue v"
  have "plainText ?s"
    using False assms(3) by (auto simp: plainText_def needsQuoting_def bareReturn_def)
  then have "csvRun ?s st = Some (st\<lparr>rdMode := (if ?s = [] then FieldStart else Bare), rdField := ?s\<rparr>)"
    using assms(1,2) by (rule csvRun_plain)
  moreover have "formatCsvCell v = ?s"
    using False by (simp add: formatCsvCell_def)
  ultimately show ?thesis by auto
qed

text \<open>One record: cells joined by commas.\<close>

lemma csvRun_record:
  assumes "vs \<noteq> []" and "\<forall>v \<in> set vs. \<not> bareReturn (csvStringValue v)"
    and "rdMode st = FieldStart" and "rdField st = []"
  shows "\<exists>st'. csvRun (join [comma] (map formatCsvCell vs)) st = Some st' \<and> fieldRead st'
            \<and> rdRows st' = rdRows st
            \<and> rdRow st' @ [rdField st'] = rdRow st @ map csvStringValue vs"
  using assms
proof (induction vs arbitrary: st)
  case Nil
  then show ?case by simp
next
  case (Cons v vs)
  obtain m where m: "csvRun (formatCsvCell v) st = Some (st\<lparr>rdMode := m, rdField := csvStringValue v\<rparr>)"
      "m = FieldStart \<or> m = Bare \<or> m = QuoteClosed"
    using csvRun_cell [of st v] Cons.prems by auto
  let ?st1 = "st\<lparr>rdMode := m, rdField := csvStringValue v\<rparr>"
  have fr: "fieldRead ?st1" using m(2) by (auto simp: fieldRead_def)
  show ?case
  proof (cases vs)
    case Nil
    then show ?thesis using m fr by simp
  next
    case (Cons w ws)
    let ?st2 = "endField ?st1"
    have st2: "rdMode ?st2 = FieldStart" "rdField ?st2 = []"
      by (simp_all add: endField_def)
    have "vs \<noteq> []" using Cons by simp
    moreover have "\<forall>v \<in> set vs. \<not> bareReturn (csvStringValue v)"
      using Cons.prems(2) by simp
    ultimately obtain st' where st':
        "csvRun (join [comma] (map formatCsvCell vs)) ?st2 = Some st'" "fieldRead st'"
        "rdRows st' = rdRows ?st2" "rdRow st' @ [rdField st'] = rdRow ?st2 @ map csvStringValue vs"
      using Cons.IH [of ?st2] st2 by blast
    have "join [comma] (map formatCsvCell (v # vs))
            = formatCsvCell v @ comma # join [comma] (map formatCsvCell vs)"
      using Cons by simp
    then have "csvRun (join [comma] (map formatCsvCell (v # vs))) st = Some st'"
      using m(1) csvStep_comma [OF fr] st'(1) by (simp add: csvRun_append)
    moreover have "rdRows st' = rdRows st"
      using st'(3) by (simp add: endField_def)
    moreover have "rdRow st' @ [rdField st'] = rdRow st @ map csvStringValue (v # vs)"
      using st'(4) by (simp add: endField_def)
    ultimately show ?thesis using st'(2) by blast
  qed
qed

text \<open>A file: records joined by newlines.\<close>

lemma csvRun_file:
  assumes "rows \<noteq> []"
    and "\<forall>vs \<in> set rows. vs \<noteq> [] \<and> (\<forall>v \<in> set vs. \<not> bareReturn (csvStringValue v))"
    and "rdMode st = FieldStart" and "rdField st = []" and "rdRow st = []"
  shows "\<exists>st'. csvRun (join [newline] (map (\<lambda>vs. join [comma] (map formatCsvCell vs)) rows)) st = Some st' \<and> fieldRead st'
            \<and> rdRows st' @ [rdRow st' @ [rdField st']] = rdRows st @ map (map csvStringValue) rows"
  using assms
proof (induction rows arbitrary: st)
  case Nil
  then show ?case by simp
next
  case (Cons vs rows)
  obtain st1 where st1: "csvRun (join [comma] (map formatCsvCell vs)) st = Some st1" "fieldRead st1"
      "rdRows st1 = rdRows st" "rdRow st1 @ [rdField st1] = rdRow st @ map csvStringValue vs"
    using csvRun_record [of vs st] Cons.prems by auto
  show ?case
  proof (cases rows)
    case Nil
    then show ?thesis using st1 Cons.prems(5) by simp
  next
    case (Cons ws rest)
    let ?st2 = "endRecord FieldStart st1"
    have st2: "rdMode ?st2 = FieldStart" "rdField ?st2 = []" "rdRow ?st2 = []"
      by (simp_all add: endRecord_def)
    have "rows \<noteq> []" using Cons by simp
    moreover have "\<forall>vs \<in> set rows. vs \<noteq> [] \<and> (\<forall>v \<in> set vs. \<not> bareReturn (csvStringValue v))"
      using Cons.prems(2) by simp
    ultimately obtain st' where st':
        "csvRun (join [newline] (map (\<lambda>vs. join [comma] (map formatCsvCell vs)) rows)) ?st2 = Some st'" "fieldRead st'"
        "rdRows st' @ [rdRow st' @ [rdField st']] = rdRows ?st2 @ map (map csvStringValue) rows"
      using Cons.IH [of ?st2] st2 by blast
    have "join [newline] (map (\<lambda>vs. join [comma] (map formatCsvCell vs)) (vs # rows))
            = join [comma] (map formatCsvCell vs) @ newline # join [newline] (map (\<lambda>vs. join [comma] (map formatCsvCell vs)) rows)"
      using Cons by simp
    then have "csvRun (join [newline] (map (\<lambda>vs. join [comma] (map formatCsvCell vs)) (vs # rows))) st = Some st'"
      using st1(1) csvStep_newline [OF st1(2)] st'(1) by (simp add: csvRun_append)
    moreover have "rdRows st' @ [rdRow st' @ [rdField st']]
                     = rdRows st @ map (map csvStringValue) (vs # rows)"
      using st'(3) st1(3,4) Cons.prems(5) by (simp add: endRecord_def)
    ultimately show ?thesis using st'(2) by blast
  qed
qed

lemma readCsv_file:
  assumes "rows \<noteq> []"
    and "\<forall>vs \<in> set rows. vs \<noteq> [] \<and> (\<forall>v \<in> set vs. \<not> bareReturn (csvStringValue v))"
  shows "readCsv (join [newline] (map (\<lambda>vs. join [comma] (map formatCsvCell vs)) rows)) = Some (map (map csvStringValue) rows)"
proof -
  let ?st = "\<lparr>rdMode = FieldStart, rdField = [], rdRow = [], rdRows = []\<rparr>"
  obtain st' where st': "csvRun (join [newline] (map (\<lambda>vs. join [comma] (map formatCsvCell vs)) rows)) ?st = Some st'" "fieldRead st'"
      "rdRows st' @ [rdRow st' @ [rdField st']] = rdRows ?st @ map (map csvStringValue) rows"
    using csvRun_file [of rows ?st] assms by auto
  then show ?thesis
    by (simp add: readCsv_def csvFinish_fieldRead)
qed


lemma csvString_lines:
  "csvString ctor projects
     = join [newline] (map (\<lambda>vs. join [comma] (map formatCsvCell vs))
                          (map JStr csvHeaders # map (csvRowOf ctor) projects))"
  by (simp add: csvString_def comp_def)

lemma csvString_reads_back:
  assumes "\<forall>project \<in> set projects. \<forall>v \<in> set (csvRowOf ctor project). \<not> bareReturn (csvStringValue v)"
  shows "readCsv (csvString ctor projects)
           = Some (csvHeaders # map (\<lambda>project. map csvStringValue (csvRowOf ctor project)) projects)"
proof -
  let ?rows = "map JStr csvHeaders # map (csvRowOf ctor) projects"
  have h: "\<forall>v \<in> set (map JStr csvHeaders). \<not> bareReturn (csvStringValue v)"
    by (simp add: csvHeaders_def bareReturn_def csvStringValue_def String_js_def)
  have n: "\<forall>project \<in> set projects. csvRowOf ctor project \<noteq> []"
    by (simp add: csvRowOf_def Let_def)
  have "\<forall>vs \<in> set ?rows. vs \<noteq> [] \<and> (\<forall>v \<in> set vs. \<not> bareReturn (csvStringValue v))"
    using h n assms by (auto simp: csvHeaders_def)
  then have "readCsv (join [newline] (map (\<lambda>vs. join [comma] (map formatCsvCell vs)) ?rows))
               = Some (map (map csvStringValue) ?rows)"
    by (intro readCsv_file) simp_all
  moreover have "map csvStringValue (map JStr csvHeaders) = csvHeaders"
    by (simp add: csvHeaders_def csvStringValue_def String_js_def)
  ultimately show ?thesis
    by (simp add: csvString_lines comp_def)
qed

text \<open>
  C5. A file of records of cells written by \<open>formatCsvCell\<close>, the cells of a record joined by
  commas and the records by newlines as \<open>exportToCSV\<close> joins them, is read back by the reader
  as the records of the strings \<open>String(value)\<close>, with the empty string for \<open>null\<close> and
  \<open>undefined\<close>, provided that no string holds a carriage return without a double quote, comma
  or newline beside it; and a value whose string holds no comma, double quote or newline is
  written unchanged.
\<close>

theorem formatCsvCell_roundtrip:
  assumes "rows \<noteq> []"
    and "\<forall>vs \<in> set rows. vs \<noteq> [] \<and> (\<forall>v \<in> set vs. \<not> bareReturn (csvStringValue v))"
  shows "readCsv (join [newline] (map (\<lambda>vs. join [comma] (map formatCsvCell vs)) rows))
           = Some (map (map (\<lambda>v. if v = JNull \<or> v = JUndefined then [] else String_js v)) rows)
         \<and> (\<forall>vs \<in> set rows. \<forall>v \<in> set vs.
               dquote \<notin> set (csvStringValue v) \<and> comma \<notin> set (csvStringValue v)
               \<and> newline \<notin> set (csvStringValue v)
               \<longrightarrow> formatCsvCell v = csvStringValue v)"
proof -
  have "csvStringValue = (\<lambda>v. if v = JNull \<or> v = JUndefined then [] else String_js v)"
    by (rule ext) (simp add: csvStringValue_def)
  then have "readCsv (join [newline] (map (\<lambda>vs. join [comma] (map formatCsvCell vs)) rows))
           = Some (map (map (\<lambda>v. if v = JNull \<or> v = JUndefined then [] else String_js v)) rows)"
    using readCsv_file [OF assms] by simp
  moreover have "formatCsvCell v = csvStringValue v"
    if "dquote \<notin> set (csvStringValue v) \<and> comma \<notin> set (csvStringValue v)
        \<and> newline \<notin> set (csvStringValue v)" for v
    using that by (auto simp: formatCsvCell_def needsQuoting_def Let_def)
  ultimately show ?thesis by blast
qed

theorem formatCsvCell_roundtrip_witness:
  "quotedCells \<noteq> []
   \<and> list_all (\<lambda>vs. vs \<noteq> [] \<and> list_all (\<lambda>v. \<not> bareReturn (csvStringValue v)) vs) quotedCells
   \<and> readCsv (join [newline] (map (\<lambda>vs. join [comma] (map formatCsvCell vs)) quotedCells))
       = Some (map (map (\<lambda>v. if v = JNull \<or> v = JUndefined then [] else String_js v)) quotedCells)
   \<and> map (map (\<lambda>v. if v = JNull \<or> v = JUndefined then [] else String_js v)) quotedCells
       = [[''Pump, 3 in.'', [], [CHR ''a'', dquote, CHR ''b'']],
          [[CHR ''x'', creturn, newline, CHR ''y''], [], ''ACME'']]
   \<and> formatCsvCell (JStr ''ACME'') = ''ACME''"
proof -
  have a: "quotedCells \<noteq> []"
    by code_simp
  have b: "\<forall>vs \<in> set quotedCells. vs \<noteq> [] \<and> (\<forall>v \<in> set vs. \<not> bareReturn (csvStringValue v))"
    by code_simp
  have c: "readCsv (join [newline] (map (\<lambda>vs. join [comma] (map formatCsvCell vs)) quotedCells))
       = Some (map (map (\<lambda>v. if v = JNull \<or> v = JUndefined then [] else String_js v)) quotedCells)"
    using formatCsvCell_roundtrip [OF a b] by (rule conjunct1)
  have d: "map (map (\<lambda>v. if v = JNull \<or> v = JUndefined then [] else String_js v)) quotedCells
       = [[''Pump, 3 in.'', [], [CHR ''a'', dquote, CHR ''b'']],
          [[CHR ''x'', creturn, newline, CHR ''y''], [], ''ACME'']]"
    by code_simp
  have e: "formatCsvCell (JStr ''ACME'') = ''ACME''"
    by code_simp
  show ?thesis
    using a b c d e by (simp add: list_all_iff)
qed

text \<open>
  A carriage return alone does not make \<open>formatCsvCell\<close> quote the cell, and the reader takes
  it for a line break: the cell comes back as two records.
\<close>

theorem bare_return_counterexample:
  "formatCsvCell (JStr [CHR ''a'', creturn, CHR ''b'']) = [CHR ''a'', creturn, CHR ''b'']
   \<and> readCsv (formatCsvCell (JStr [CHR ''a'', creturn, CHR ''b''])) = Some [[''a''], [''b'']]
   \<and> readCsv (formatCsvCell (JStr [CHR ''a'', creturn, CHR ''b'']))
        \<noteq> Some [[String_js (JStr [CHR ''a'', creturn, CHR ''b''])]]"
  by code_simp

section \<open>Calendar arithmetic\<close>

lemma div_step:
  fixes x k :: int
  assumes k: "0 < k"
  shows "(x + 1) div k = (if (x + 1) mod k = 0 then x div k + 1 else x div k)"
proof -
  have a: "x = k * (x div k) + x mod k" by simp
  have b: "0 \<le> x mod k" "x mod k < k" using k by simp_all
  show ?thesis
  proof (cases "x mod k + 1 = k")
    case True
    have "x + 1 = k * (x div k) + (x mod k + 1)" using a by linarith
    also have "\<dots> = k * (x div k) + k" using True by simp
    also have "\<dots> = k * (x div k + 1) + 0" by (simp add: distrib_left)
    finally have eq: "x + 1 = k * (x div k + 1) + 0" .
    have "(x + 1) div k = x div k + 1"
      by (rule int_div_pos_eq [OF eq]) (use k in simp_all)
    moreover have "(x + 1) mod k = 0"
      by (rule int_mod_pos_eq [OF eq]) (use k in simp_all)
    ultimately show ?thesis by simp
  next
    case False
    then have c: "x mod k + 1 < k" using b by linarith
    have eq: "x + 1 = k * (x div k) + (x mod k + 1)"
      using a by linarith
    have "(x + 1) div k = x div k"
      by (rule int_div_pos_eq [OF eq]) (use b c in simp_all)
    moreover have "(x + 1) mod k = x mod k + 1"
      by (rule int_mod_pos_eq [OF eq]) (use b c in simp_all)
    ultimately show ?thesis using b by simp
  qed
qed

lemma mod_shift: "(y - k * c) mod k = (y::int) mod k"
proof -
  have "y - k * c = y + (- c) * k" by (simp add: algebra_simps)
  then show ?thesis by (simp only: mod_mult_self1)
qed

lemma mod_400_100: "(y::int) mod 400 = 0 \<Longrightarrow> y mod 100 = 0"
proof -
  assume "y mod 400 = 0"
  then have "(400::int) dvd y" by (simp add: dvd_eq_mod_eq_0)
  moreover have "(100::int) dvd 400" by simp
  ultimately have "(100::int) dvd y" by (rule dvd_trans [rotated])
  then show ?thesis by (simp add: dvd_eq_mod_eq_0)
qed

lemma mod_100_4: "(y::int) mod 100 = 0 \<Longrightarrow> y mod 4 = 0"
proof -
  assume "y mod 100 = 0"
  then have "(100::int) dvd y" by (simp add: dvd_eq_mod_eq_0)
  moreover have "(4::int) dvd 100" by simp
  ultimately have "(4::int) dvd y" by (rule dvd_trans [rotated])
  then show ?thesis by (simp add: dvd_eq_mod_eq_0)
qed

text \<open>A year is as long as \<open>DaysInYear\<close> says.\<close>

lemma DayFromYear_Suc: "DayFromYear (y + 1) = DayFromYear y + DaysInYear y"
proof -
  have s4: "(y - 1968) div 4 = (if y mod 4 = 0 then (y - 1969) div 4 + 1 else (y - 1969) div 4)"
    using div_step [of 4 "y - 1969"] mod_shift [of y 4 492] by simp
  have s100: "(y - 1900) div 100 = (if y mod 100 = 0 then (y - 1901) div 100 + 1 else (y - 1901) div 100)"
    using div_step [of 100 "y - 1901"] mod_shift [of y 100 19] by simp
  have s400: "(y - 1600) div 400 = (if y mod 400 = 0 then (y - 1601) div 400 + 1 else (y - 1601) div 400)"
    using div_step [of 400 "y - 1601"] mod_shift [of y 400 4] by simp
  have "DayFromYear (y + 1) = 365 * (y - 1969) + (y - 1968) div 4 - (y - 1900) div 100 + (y - 1600) div 400"
    by (simp add: DayFromYear_def)
  then show ?thesis
    using mod_400_100 [of y] mod_100_4 [of y]
    by (auto simp: s4 s100 s400 DayFromYear_def DaysInYear_def InLeapYear_def)
qed

lemma DayFromYear_bounds:
  "146097 * (y - 1970) - 607 < 400 * DayFromYear y"
  "400 * DayFromYear y < 146097 * (y - 1970) + 593"
proof -
  define a where "a = (y - 1969) div 4"
  define b where "b = (y - 1901) div 100"
  define c where "c = (y - 1601) div 400"
  have a: "4 * a \<le> y - 1969" "y - 1969 < 4 * a + 4"
    unfolding a_def by linarith+
  have b: "100 * b \<le> y - 1901" "y - 1901 < 100 * b + 100"
    unfolding b_def by linarith+
  have c: "400 * c \<le> y - 1601" "y - 1601 < 400 * c + 400"
    unfolding c_def by linarith+
  have d: "400 * DayFromYear y = 146000 * y - 287620000 + (400 * a - 400 * b + 400 * c)"
    by (simp add: DayFromYear_def a_def b_def c_def algebra_simps)
  have l1: "100 * y - 197300 < 400 * a" using a(2) by linarith
  have l2: "400 * b \<le> 4 * y - 7604" using b(1) by linarith
  have l3: "y - 2001 < 400 * c" using c(2) by linarith
  have lo: "97 * y - 191697 < 400 * a - 400 * b + 400 * c"
    using l1 l2 l3 by linarith
  have u1: "400 * a \<le> 100 * y - 196900" using a(1) by linarith
  have u2: "4 * y - 8004 < 400 * b" using b(2) by linarith
  have u3: "400 * c \<le> y - 1601" using c(1) by linarith
  have hi: "400 * a - 400 * b + 400 * c < 97 * y - 190497"
    using u1 u2 u3 by linarith
  have e: "146097 * (y - 1970) = 146000 * y - 287620000 + (97 * y - 191090)"
    by (simp add: algebra_simps)
  show "146097 * (y - 1970) - 607 < 400 * DayFromYear y"
    unfolding d e using lo by simp
  show "400 * DayFromYear y < 146097 * (y - 1970) + 593"
    unfolding d e using hi by simp
qed

text \<open>\<open>YearFromDay\<close> returns the year that holds the day, which is the year of ECMA-262.\<close>

lemma YearFromDay_spec:
  "DayFromYear (YearFromDay d) \<le> d \<and> d < DayFromYear (YearFromDay d + 1)"
proof -
  define q where "q = (400 * d) div 146097"
  define y0 where "y0 = 1970 + q"
  have m: "400 * d = 146097 * q + (400 * d) mod 146097"
    unfolding q_def by simp
  have r: "0 \<le> (400 * d) mod 146097" "(400 * d) mod 146097 < 146097"
    by simp_all
  have e1: "146097 * q \<le> 400 * d" and e2: "400 * d < 146097 * q + 146097"
    using m r by linarith+
  have b1: "400 * DayFromYear (y0 - 1) < 146097 * (q - 1) + 593"
    using DayFromYear_bounds(2) [of "y0 - 1"] by (simp add: y0_def)
  have "146097 * (q - 1) + 593 = 146097 * q - 145504" by simp
  then have "400 * DayFromYear (y0 - 1) < 400 * d" using b1 e1 by linarith
  then have lo: "DayFromYear (y0 - 1) \<le> d" by simp
  have b2: "146097 * (q + 2) - 607 < 400 * DayFromYear (y0 + 1 + 1)"
    using DayFromYear_bounds(1) [of "y0 + 1 + 1"] by (simp add: y0_def)
  have "146097 * (q + 2) - 607 = 146097 * q + 291587" by simp
  then have "400 * d < 400 * DayFromYear (y0 + 1 + 1)" using b2 e2 by linarith
  then have hi: "d < DayFromYear (y0 + 1 + 1)" by simp
  have "YearFromDay d = (if d < DayFromYear y0 then y0 - 1
         else if DayFromYear (y0 + 1) \<le> d then y0 + 1 else y0)"
    by (simp add: YearFromDay_def y0_def q_def Let_def)
  then show ?thesis
    using lo hi by auto
qed

lemma DayFromYear_mono_step: "0 \<le> n \<Longrightarrow> DayFromYear y + 365 * n \<le> DayFromYear (y + n)"
proof (induction n rule: int_ge_induct)
  case base
  show ?case by simp
next
  case (step i)
  have "DayFromYear (y + (i + 1)) = DayFromYear (y + i) + DaysInYear (y + i)"
    using DayFromYear_Suc [of "y + i"] by (simp add: add.assoc)
  then show ?case using step by (simp add: DaysInYear_def split: if_splits)
qed

lemma DayFromYear_less: "y < z \<Longrightarrow> DayFromYear (y + 1) \<le> DayFromYear z"
  using DayFromYear_mono_step [of "z - (y + 1)" "y + 1"] by simp

lemma DayFromYear_mono: "y \<le> z \<Longrightarrow> DayFromYear y \<le> DayFromYear z"
  using DayFromYear_mono_step [of "z - y" y] by simp

lemma YearFromDay_unique:
  assumes "DayFromYear y \<le> d" "d < DayFromYear (y + 1)"
  shows "YearFromDay d = y"
proof -
  let ?z = "YearFromDay d"
  have z: "DayFromYear ?z \<le> d" "d < DayFromYear (?z + 1)"
    using YearFromDay_spec [of d] by simp_all
  have "\<not> ?z < y" using DayFromYear_less [of ?z y] z assms by linarith
  moreover have "\<not> y < ?z" using DayFromYear_less [of y ?z] z assms by linarith
  ultimately show ?thesis by linarith
qed

lemma month_cases:
  assumes "1 \<le> m" "m \<le> 12"
  shows "m = 1 \<or> m = 2 \<or> m = 3 \<or> m = 4 \<or> m = 5 \<or> m = 6 \<or> m = 7 \<or> m = 8 \<or> m = 9
      \<or> m = 10 \<or> m = 11 \<or> m = (12::int)"
  using assms by arith

lemma leapDay_range: "leapDay y = 0 \<or> leapDay y = 1"
  by (simp add: leapDay_def)

lemma DaysInYear_leapDay: "DaysInYear y = 365 + leapDay y"
  by (simp add: DaysInYear_def leapDay_def)

lemma MakeDay_within:
  assumes "1 \<le> m" "m \<le> 12" "1 \<le> d" "d \<le> daysInMonth y m"
  shows "MakeDay y (m - 1) d = DayFromYear y + (daysBeforeMonth y (m - 1) + d - 1)"
    and "0 \<le> daysBeforeMonth y (m - 1) + d - 1"
    and "daysBeforeMonth y (m - 1) + d - 1 < DaysInYear y"
proof -
  note m = month_cases [OF assms(1,2)]
  have dm: "(m - 1) div 12 = 0" "(m - 1) mod 12 = m - 1"
    using assms(1,2) by simp_all
  show "MakeDay y (m - 1) d = DayFromYear y + (daysBeforeMonth y (m - 1) + d - 1)"
    by (simp add: MakeDay_def dm Let_def)
  show "0 \<le> daysBeforeMonth y (m - 1) + d - 1"
    using m assms(3) leapDay_range [of y]
    by (elim disjE; simp add: daysBeforeMonth_def Let_def)
  show "daysBeforeMonth y (m - 1) + d - 1 < DaysInYear y"
    using m assms(4) leapDay_range [of y]
    by (elim disjE; simp add: daysBeforeMonth_def daysInMonth_def DaysInYear_leapDay Let_def)
qed

text \<open>
  A day of the calendar, made into a day number by \<open>MakeDay\<close>, is read back with the
  same year, month and day of the month.
\<close>

lemma civil_roundtrip:
  assumes "1 \<le> m" "m \<le> 12" "1 \<le> d" "d \<le> daysInMonth y m"
  shows "YearFromDay (MakeDay y (m - 1) d) = y
       \<and> MonthFromDay (MakeDay y (m - 1) d) = m - 1
       \<and> DateFromDay (MakeDay y (m - 1) d) = d"
proof -
  let ?w = "daysBeforeMonth y (m - 1) + d - 1"
  let ?D = "MakeDay y (m - 1) d"
  note w = MakeDay_within [OF assms]
  have yr: "YearFromDay ?D = y"
    using w DayFromYear_Suc [of y] by (intro YearFromDay_unique) simp_all
  have "DayWithinYear ?D = ?D - DayFromYear y"
    by (simp only: DayWithinYear_def yr)
  then have dw: "DayWithinYear ?D = ?w"
    by (simp add: w(1))
  note m = month_cases [OF assms(1,2)]
  have mo: "MonthFromDay ?D = m - 1"
    unfolding MonthFromDay_def dw yr Let_def
    using m assms(3,4) leapDay_range [of y]
    by (elim disjE; simp add: daysBeforeMonth_def daysInMonth_def Let_def)
  have "DateFromDay ?D = d"
    unfolding DateFromDay_def dw yr mo Let_def
    using m
    by (elim disjE; simp add: daysBeforeMonth_def Let_def)
  with yr mo show ?thesis by simp
qed


section \<open>Properties of \<open>parseDate\<close> and \<open>formatDate\<close>\<close>

lemma DayFromYear_range:
  assumes "100 \<le> y" "y \<le> 9999"
  shows "- 684000 < DayFromYear y" "DayFromYear y < 2933000"
proof -
  have "DayFromYear 100 \<le> DayFromYear y" using assms(1) by (rule DayFromYear_mono)
  moreover have "DayFromYear 100 = - 683003" by (simp add: DayFromYear_def)
  ultimately show "- 684000 < DayFromYear y" by simp
  have "DayFromYear y \<le> DayFromYear 9999" using assms(2) by (rule DayFromYear_mono)
  moreover have "DayFromYear 9999 = 2932532" by (simp add: DayFromYear_def)
  ultimately show "DayFromYear y < 2933000" by simp
qed

lemma Date_UTC_valid:
  assumes "100 \<le> y" "y \<le> 9999" "1 \<le> m" "m \<le> 12" "1 \<le> d" "d \<le> daysInMonth y m"
  shows "Date_UTC y (m - 1) d = Some (MakeDay y (m - 1) d * msPerDay)"
proof -
  note w = MakeDay_within [OF assms(3-6)]
  have "DaysInYear y \<le> 366" by (simp add: DaysInYear_def)
  then have "- 684000 < MakeDay y (m - 1) d" "MakeDay y (m - 1) d < 2934000"
    using w DayFromYear_range [OF assms(1,2)] by linarith+
  then have "\<bar>MakeDay y (m - 1) d\<bar> < 2934000" by linarith
  then have "\<bar>MakeDay y (m - 1) d\<bar> * 86400000 \<le> 2934000 * 86400000"
    by (intro mult_right_mono) simp_all
  then have "\<bar>MakeDay y (m - 1) d * msPerDay\<bar> \<le> 8640000000000000"
    by (simp add: msPerDay_def abs_mult)
  moreover have "MakeFullYear y = y" using assms(1) by (simp add: MakeFullYear_def)
  ultimately show ?thesis by (simp add: Date_UTC_def TimeClip_def)
qed

lemma getters_of_day:
  "getUTCFullYear (day * msPerDay) = YearFromDay day"
  "getUTCMonth (day * msPerDay) = MonthFromDay day"
  "getUTCDate (day * msPerDay) = DateFromDay day"
  by (simp_all add: getUTCFullYear_def getUTCMonth_def getUTCDate_def msPerDay_def)

lemma daysInMonth_le_31: "daysInMonth y m \<le> 31"
  by (simp add: daysInMonth_def leapDay_def)

lemma checkedDate_valid:
  assumes "100 \<le> y" "y \<le> 9999" "1 \<le> m" "m \<le> 12" "1 \<le> d" "d \<le> daysInMonth y m"
  shows "checkedDate (y, m, d) = Some (MakeDay y (m - 1) d * msPerDay)"
proof -
  have "d \<le> 31" using assms(6) daysInMonth_le_31 [of y m] by linarith
  then show ?thesis
    using assms civil_roundtrip [OF assms(3-6)] Date_UTC_valid [OF assms]
    by (simp add: checkedDate_def getters_of_day)
qed

lemma matchIso_nonempty: "matchIso s = Some ymd \<Longrightarrow> s \<noteq> []"
  by (auto simp: matchIso_def split: if_splits)

lemma trim_js_Nil: "trim_js [] = []"
  by (simp add: trim_js_def)

text \<open>
  What holds of \<open>parseDate\<close> and \<open>formatDate\<close> on every host: a string that starts with
  \<open>YYYY-MM-DD\<close>, for a day of the calendar from the year 100 on, is parsed by the ISO attempt
  to the UTC date with these parts and printed with them.
\<close>

theorem parseDate_iso_valid:
  assumes "matchIso (trim_js s) = Some (y, m, d)"
      and "100 \<le> y" "y \<le> 9999" "1 \<le> m" "m \<le> 12" "1 \<le> d" "d \<le> daysInMonth y m"
  shows "parseDate ctor (JStr s) = Some (MakeDay y (m - 1) d * msPerDay)
       \<and> getUTCFullYear (MakeDay y (m - 1) d * msPerDay) = y
       \<and> getUTCMonth (MakeDay y (m - 1) d * msPerDay) + 1 = m
       \<and> getUTCDate (MakeDay y (m - 1) d * msPerDay) = d
       \<and> formatDate ctor (JStr s) fallback
           = padStart2 (intToString m) @ ''/'' @ padStart2 (intToString d) @ ''/'' @ intToString y"
proof -
  have ne: "trim_js s \<noteq> []" using assms(1) by (rule matchIso_nonempty)
  then have s: "s \<noteq> []" using trim_js_Nil by auto
  have p: "parseDate ctor (JStr s) = Some (MakeDay y (m - 1) d * msPerDay)"
    using ne s assms(1) checkedDate_valid [OF assms(2-7)]
    by (simp add: parseDate_def truthy_def String_js_def Let_def)
  moreover note civil_roundtrip [OF assms(4-7)]
  ultimately show ?thesis
    using s by (simp add: formatDate_def truthy_def getters_of_day)
qed

theorem parseDate_iso_valid_witness:
  "parseDate strictCtor (JStr ''2024-02-29'') = Some 1709164800000
   \<and> formatDate strictCtor (JStr ''2024-02-29'') ''N/A'' = ''02/29/2024''"
proof -
  have m: "matchIso (trim_js ''2024-02-29'') = Some (2024, 2, 29)" by code_simp
  have d: "(29::int) \<le> daysInMonth 2024 2" by code_simp
  have v: "MakeDay 2024 (2 - 1) 29 * msPerDay = 1709164800000" by code_simp
  have f: "padStart2 (intToString 2) @ ''/'' @ padStart2 (intToString 29) @ ''/'' @ intToString 2024
      = ''02/29/2024''" by code_simp
  show ?thesis
    using parseDate_iso_valid [OF m _ _ _ _ _ d, of strictCtor "''N/A''"] v f by simp
qed

text \<open>
  A date that the ISO attempt rejects is handed to the host's constructor, whose answer
  \<open>parseDate\<close> returns.
\<close>

lemma parseDate_feb30_host:
  "parseDate ctor (JStr ''2023-02-30'')
     = (case ctor ''2023-02-30'' of None \<Rightarrow> None | Some (y, m, d) \<Rightarrow> Date_UTC y m d)"
proof -
  have "trim_js ''2023-02-30'' = ''2023-02-30''" by code_simp
  moreover have "Option.bind (matchIso ''2023-02-30'') checkedDate = None" by code_simp
  moreover have "Option.bind (matchSlash ''2023-02-30'') checkedDate = None" by code_simp
  ultimately show ?thesis
    by (simp add: parseDate_def truthy_def String_js_def Let_def)
qed

lemma parseDate_year50_host:
  "parseDate ctor (JStr ''0050-01-01'')
     = (case ctor ''0050-01-01'' of None \<Rightarrow> None | Some (y, m, d) \<Rightarrow> Date_UTC y m d)"
proof -
  have "trim_js ''0050-01-01'' = ''0050-01-01''" by code_simp
  moreover have "Option.bind (matchIso ''0050-01-01'') checkedDate = None" by code_simp
  moreover have "Option.bind (matchSlash ''0050-01-01'') checkedDate = None" by code_simp
  ultimately show ?thesis
    by (simp add: parseDate_def truthy_def String_js_def Let_def)
qed

text \<open>
  C10. The claim asks that a date which does not exist, such as 30 February, is rejected to
  \<open>null\<close> and never rolled over, and that every real \<open>YYYY-MM-DD\<close> comes back with its own
  parts. The ISO attempt does reject 30 February 2023, but the host's constructor then gets
  the string: on the host that rolls over, \<open>parseDate\<close> returns 2 March 2023 and \<open>formatDate\<close>
  prints it. The real date 1 January of the year 50 is read by \<open>Date.UTC\<close> as 1950, so
  the final check fails and the fallback returns 1 January 1950.
\<close>

theorem parseDate_rejected_dates_come_back:
  "parseDate rollingCtor (JStr ''2023-02-30'') = Some 1677715200000
   \<and> formatDate rollingCtor (JStr ''2023-02-30'') ''N/A'' = ''03/02/2023''
   \<and> parseDate strictCtor (JStr ''0050-01-01'') = Some (- 631152000000)
   \<and> getUTCFullYear (- 631152000000) = 1950"
  by code_simp

lemma parseDate_empty:
  "parseDate ctor (JStr []) = None" "parseDate ctor JNull = None" "parseDate ctor JUndefined = None"
  "formatDate ctor (JStr []) fallback = fallback" "formatDate ctor JNull fallback = fallback"
  by (simp_all add: parseDate_def formatDate_def truthy_def)

section \<open>Properties of the numbers\<close>

text \<open>The powers of two, and the exponent of a rational as the floor of its binary logarithm.\<close>

lemma pow2_powi: "pow2 e = 2 powi e"
  by (simp add: pow2_def power_int_def inverse_eq_divide power_one_over)

lemma pow2_pos: "0 < pow2 e"
  by (simp add: pow2_def)

lemma pow2_add: "pow2 (a + b) = pow2 a * pow2 b"
  by (simp add: pow2_powi power_int_add)

lemma pow2_mono: "a \<le> b \<Longrightarrow> pow2 a \<le> pow2 b"
  by (simp add: pow2_powi power_int_increasing)

lemma pow2_nat: "0 \<le> e \<Longrightarrow> pow2 e = 2 ^ nat e"
  by (simp add: pow2_def)

lemma bitLength_bounds:
  "0 < n \<Longrightarrow> 2 ^ nat (bitLength n - 1) \<le> n \<and> n < 2 ^ nat (bitLength n) \<and> 0 < bitLength n"
proof (induction n rule: bitLength.induct)
  case (1 n)
  show ?case
  proof (cases "n div 2 = 0")
    case True
    then have n: "n = 1" using "1.prems" by presburger
    have "bitLength 1 = 1"
      by (simp add: bitLength.simps [of 1] bitLength.simps [of 0])
    then show ?thesis using n by simp
  next
    case False
    then have pos: "0 < n div 2" using "1.prems" by presburger
    have not: "\<not> n \<le> 0" using "1.prems" by simp
    let ?b = "bitLength (n div 2)"
    have ih: "2 ^ nat (?b - 1) \<le> n div 2" "n div 2 < 2 ^ nat ?b" "0 < ?b"
      using "1.IH" [OF not pos] by simp_all
    have b: "bitLength n = 1 + ?b"
      using not by (subst bitLength.simps) simp
    have e1: "nat (bitLength n - 1) = Suc (nat (?b - 1))"
      using ih(3) b by simp
    have e2: "nat (bitLength n) = Suc (nat ?b)"
      using ih(3) b by simp
    have "2 * 2 ^ nat (?b - 1) \<le> n"
      using ih(1) by presburger
    moreover have "n < 2 * 2 ^ nat ?b"
      using ih(2) by presburger
    ultimately show ?thesis
      using e1 e2 ih(3) b by simp
  qed
qed

lemma bitLength_pow2:
  assumes "0 < n"
  shows "pow2 (bitLength n - 1) \<le> of_int n" and "of_int n < pow2 (bitLength n)"
proof -
  note b = bitLength_bounds [OF assms]
  have "(2::rat) ^ nat (bitLength n - 1) = of_int (2 ^ nat (bitLength n - 1))" by simp
  also have "\<dots> \<le> of_int n" using b by (subst of_int_le_iff) simp
  finally show "pow2 (bitLength n - 1) \<le> of_int n"
    using b by (simp add: pow2_nat)
  have "(of_int n :: rat) < of_int (2 ^ nat (bitLength n))"
    using b by (subst of_int_less_iff) simp
  then show "of_int n < pow2 (bitLength n)"
    using b by (simp add: pow2_nat)
qed

lemma exponentOf_bounds:
  assumes "r \<noteq> 0"
  shows "pow2 (exponentOf r) \<le> \<bar>r\<bar>" and "\<bar>r\<bar> < pow2 (exponentOf r + 1)"
proof -
  obtain p q where pq: "quotient_of \<bar>r\<bar> = (p, q)" by (cases "quotient_of \<bar>r\<bar>")
  have q: "0 < q" using pq quotient_of_denom_pos by blast
  have r: "\<bar>r\<bar> = of_int p / of_int q" using pq by (rule quotient_of_div)
  have "0 < \<bar>r\<bar>" using assms by simp
  then have p: "0 < p" using q r by (simp add: zero_less_divide_iff)
  let ?e = "bitLength p - bitLength q"
  have Q: "0 < (of_int q :: rat)" using q by simp
  have lo: "pow2 (?e - 1) < \<bar>r\<bar>"
  proof -
    have "pow2 (?e - 1) * of_int q < pow2 (?e - 1) * pow2 (bitLength q)"
      using bitLength_pow2(2) [OF q] pow2_pos [of "?e - 1"] by simp
    also have "\<dots> = pow2 (bitLength p - 1)"
      by (simp add: pow2_add [symmetric])
    also have "\<dots> \<le> of_int p" by (rule bitLength_pow2(1) [OF p])
    finally show ?thesis using Q by (simp add: r pos_less_divide_eq)
  qed
  have hi: "\<bar>r\<bar> < pow2 (?e + 1)"
  proof -
    have "(of_int p :: rat) < pow2 (bitLength p)" by (rule bitLength_pow2(2) [OF p])
    also have "\<dots> = pow2 (?e + 1) * pow2 (bitLength q - 1)"
      by (simp add: pow2_add [symmetric])
    also have "\<dots> \<le> pow2 (?e + 1) * of_int q"
      using bitLength_pow2(1) [OF q] pow2_pos [of "?e + 1"] by simp
    finally show ?thesis using Q by (simp add: r pos_divide_less_eq)
  qed
  have e: "exponentOf r = (if pow2 ?e \<le> \<bar>r\<bar> then ?e else ?e - 1)"
    by (simp add: exponentOf_def pq)
  show "pow2 (exponentOf r) \<le> \<bar>r\<bar>"
    using lo by (simp add: e)
  show "\<bar>r\<bar> < pow2 (exponentOf r + 1)"
    using hi by (auto simp: e not_le)
qed

lemma exponentOf_minus: "exponentOf (- r) = exponentOf r"
  by (simp add: exponentOf_def)

lemma roundHalfEven_bounds: "of_int (roundHalfEven x) \<le> x + 1 / 2" "x - 1 / 2 \<le> of_int (roundHalfEven x)"
  unfolding roundHalfEven_def Let_def by (auto; linarith)+

lemma roundHalfEven_ge_1: "1 \<le> x \<Longrightarrow> 1 \<le> roundHalfEven x"
proof -
  assume "1 \<le> x"
  then have "1 \<le> \<lfloor>x\<rfloor>" by linarith
  then show ?thesis by (auto simp: roundHalfEven_def Let_def)
qed

lemma roundHalfEven_int: "roundHalfEven (of_int n) = n"
  by (simp add: roundHalfEven_def)

lemma onGrid_simps [simp]: "onGrid 0" "onGrid (- r) = onGrid r" "onGrid (of_int i)"
  by (simp_all add: onGrid_def)

lemma onGrid_diff: "onGrid x \<Longrightarrow> onGrid y \<Longrightarrow> onGrid (x - y)"
  by (simp add: onGrid_def left_diff_distrib)

lemma onGrid_ulp:
  assumes "- 1022 \<le> e"
  shows "onGrid (of_int n * pow2 (e - 52))"
proof -
  have "pow2 (e - 52) * 2 ^ 1074 = pow2 (e - 52) * pow2 1074"
    by (simp add: pow2_def)
  also have "\<dots> = pow2 (e + 1022)"
    using pow2_add [of "e - 52" 1074] by (simp add: algebra_simps)
  also have "\<dots> = of_int (2 ^ nat (e + 1022))"
    using assms by (simp add: pow2_nat)
  finally have "of_int n * pow2 (e - 52) * 2 ^ 1074 = of_int (n * 2 ^ nat (e + 1022))"
    by (simp add: mult.assoc)
  then show ?thesis
    unfolding onGrid_def by (metis Ints_of_int)
qed

lemma onGrid_small:
  assumes "onGrid d" and "d \<noteq> 0"
  shows "pow2 (- 1074) \<le> \<bar>d\<bar>"
proof -
  obtain i :: int where i: "d * 2 ^ 1074 = of_int i"
    using assms(1) by (auto simp: onGrid_def elim: Ints_cases)
  have "i \<noteq> 0" using i assms(2) by auto
  then have "1 \<le> \<bar>i\<bar>" by simp
  then have "(1::rat) \<le> \<bar>of_int i\<bar>" by (metis of_int_1_le_iff of_int_abs)
  then have "1 \<le> \<bar>d\<bar> * 2 ^ 1074"
    using i by (simp add: abs_mult [symmetric] del: of_int_abs)
  then show ?thesis
    by (simp add: pow2_def pos_divide_le_eq)
qed

text \<open>The result of a rounding is a number on the grid, or an infinity.\<close>

lemma gridNumber_roundDouble: "gridNumber (roundDouble r)"
proof (cases "r = 0")
  case True
  then show ?thesis by (simp add: roundDouble_def gridNumber_def)
next
  case False
  have "- 1022 \<le> max (exponentOf r) (- 1022)" by simp
  then show ?thesis
    using False by (simp add: roundDouble_def gridNumber_def Let_def onGrid_ulp)
qed

lemma roundDouble_minus: "roundDouble (- r) = num_neg (roundDouble r)"
proof -
  consider "r = 0" | "r < 0" | "0 < r" by linarith
  then show ?thesis
    by cases (auto simp: roundDouble_def num_neg_def exponentOf_minus Let_def)
qed

text \<open>A number that is not below the least positive double in size keeps its sign.\<close>

lemma roundDouble_positive:
  assumes "pow2 (- 1074) \<le> r"
  shows "roundDouble r = PosInf \<or> (\<exists>m. roundDouble r = Fin m \<and> 0 < m)"
proof -
  have r: "0 < r" using assms pow2_pos [of "- 1074"] by simp
  let ?e = "max (exponentOf r) (- 1022)"
  let ?ulp = "pow2 (?e - 52)"
  have "?ulp \<le> r"
  proof (cases "exponentOf r \<le> - 1022")
    case True
    then have "?e = - 1022" by simp
    then show ?thesis using assms by simp
  next
    case False
    then have "?e = exponentOf r" by simp
    then have "?ulp \<le> pow2 (exponentOf r)" by (simp add: pow2_mono)
    also have "\<dots> \<le> r" using exponentOf_bounds(1) [of r] r by simp
    finally show ?thesis .
  qed
  then have "1 \<le> \<bar>r\<bar> / ?ulp"
    using r pow2_pos [of "?e - 52"] by (simp add: pos_le_divide_eq)
  then have "1 \<le> roundHalfEven (\<bar>r\<bar> / ?ulp)" by (rule roundHalfEven_ge_1)
  then have "(0::rat) < of_int (roundHalfEven (\<bar>r\<bar> / ?ulp))" by simp
  then have "0 < of_int (roundHalfEven (\<bar>r\<bar> / ?ulp)) * ?ulp"
    using pow2_pos [of "?e - 52"] by simp
  then show ?thesis
    using r by (auto simp: roundDouble_def Let_def)
qed

lemma roundDouble_sign:
  assumes "onGrid d"
  shows "d = 0 \<Longrightarrow> roundDouble d = Fin 0"
    and "0 < d \<Longrightarrow> roundDouble d = PosInf \<or> (\<exists>m. roundDouble d = Fin m \<and> 0 < m)"
    and "d < 0 \<Longrightarrow> roundDouble d = NegInf \<or> (\<exists>m. roundDouble d = Fin m \<and> m < 0)"
proof -
  show "d = 0 \<Longrightarrow> roundDouble d = Fin 0" by (simp add: roundDouble_def)
  show "0 < d \<Longrightarrow> roundDouble d = PosInf \<or> (\<exists>m. roundDouble d = Fin m \<and> 0 < m)"
    using onGrid_small [OF assms] by (intro roundDouble_positive) simp
  assume neg: "d < 0"
  then have "pow2 (- 1074) \<le> - d"
    using onGrid_small [OF assms] by simp
  then have "roundDouble (- d) = PosInf \<or> (\<exists>m. roundDouble (- d) = Fin m \<and> 0 < m)"
    by (rule roundDouble_positive)
  then show "roundDouble d = NegInf \<or> (\<exists>m. roundDouble d = Fin m \<and> m < 0)"
    unfolding roundDouble_minus by (cases "roundDouble d") (auto simp: num_neg_def)
qed

text \<open>The rounding error is at most half a unit in the last place.\<close>

lemma roundDouble_error:
  assumes "roundDouble r = Fin m"
  shows "\<bar>m - r\<bar> \<le> pow2 (max (exponentOf r) (- 1022) - 53)"
proof (cases "r = 0")
  case True
  then show ?thesis using assms pow2_pos [of "max (exponentOf 0) (- 1022) - 53"]
    by (simp add: roundDouble_def less_imp_le)
next
  case False
  let ?e = "max (exponentOf r) (- 1022)"
  let ?ulp = "pow2 (?e - 52)"
  let ?n = "roundHalfEven (\<bar>r\<bar> / ?ulp)"
  have u: "0 < ?ulp" by (rule pow2_pos)
  have half: "pow2 (?e - 53) = ?ulp / 2"
  proof -
    have "pow2 (?e - 52) = pow2 (?e - 53) * pow2 1"
      by (simp add: pow2_add [symmetric])
    then show ?thesis by (simp add: pow2_def)
  qed
  have "\<bar>of_int ?n - \<bar>r\<bar> / ?ulp\<bar> \<le> 1 / 2"
    using roundHalfEven_bounds [of "\<bar>r\<bar> / ?ulp"] by linarith
  then have "\<bar>of_int ?n - \<bar>r\<bar> / ?ulp\<bar> * ?ulp \<le> 1 / 2 * ?ulp"
    using u by (intro mult_right_mono) simp_all
  moreover have "\<bar>of_int ?n - \<bar>r\<bar> / ?ulp\<bar> * ?ulp = \<bar>of_int ?n * ?ulp - \<bar>r\<bar>\<bar>"
  proof -
    have "\<bar>of_int ?n - \<bar>r\<bar> / ?ulp\<bar> * ?ulp = \<bar>(of_int ?n - \<bar>r\<bar> / ?ulp) * ?ulp\<bar>"
      using u by (simp add: abs_mult)
    also have "(of_int ?n - \<bar>r\<bar> / ?ulp) * ?ulp = of_int ?n * ?ulp - \<bar>r\<bar>"
      using u by (simp add: left_diff_distrib)
    finally show ?thesis .
  qed
  ultimately have err: "\<bar>of_int ?n * ?ulp - \<bar>r\<bar>\<bar> \<le> ?ulp / 2" by simp
  have m: "m = (if r < 0 then - (of_int ?n * ?ulp) else of_int ?n * ?ulp)"
    using assms False by (simp add: roundDouble_def Let_def split: if_splits)
  have "\<bar>m - r\<bar> = \<bar>of_int ?n * ?ulp - \<bar>r\<bar>\<bar>"
    unfolding m by (cases "r < 0") (simp_all add: abs_minus_commute)
  then show ?thesis using err half by simp
qed

lemma pow2_strict_mono: "a < b \<Longrightarrow> pow2 a < pow2 b"
  by (simp add: pow2_powi power_int_strict_increasing)

text \<open>The exponent is determined by its two bounds.\<close>

lemma exponentOf_unique:
  assumes "pow2 e \<le> \<bar>r\<bar>" and "\<bar>r\<bar> < pow2 (e + 1)"
  shows "exponentOf r = e"
proof -
  have r: "r \<noteq> 0" using assms(1) pow2_pos [of e] by auto
  note b = exponentOf_bounds [OF r]
  have "\<not> exponentOf r < e"
  proof
    assume "exponentOf r < e"
    then have "pow2 (exponentOf r + 1) \<le> pow2 e" by (intro pow2_mono) simp
    then show False using b(2) assms(1) by simp
  qed
  moreover have "\<not> e < exponentOf r"
  proof
    assume "e < exponentOf r"
    then have "pow2 (e + 1) \<le> pow2 (exponentOf r)" by (intro pow2_mono) simp
    then show False using b(1) assms(2) by simp
  qed
  ultimately show ?thesis by simp
qed

text \<open>
  A normal double, \<open>n \<times> 2\<^sup>e\<^sup>-\<^sup>5\<^sup>2\<close> with 53 bits in \<open>n\<close> and \<open>e\<close> from -1022 to 1023, and a
  subnormal one, \<open>n \<times> 2\<^sup>-\<^sup>1\<^sup>0\<^sup>7\<^sup>4\<close> with \<open>n\<close> below \<open>2\<^sup>5\<^sup>2\<close>, are rounded to themselves.
\<close>

lemma roundDouble_normal:
  assumes "2 ^ 52 \<le> n" "n < 2 ^ 53" "- 1022 \<le> e" "e \<le> 1023"
  shows "roundDouble (of_int n * pow2 (e - 52)) = Fin (of_int n * pow2 (e - 52))"
proof -
  let ?m = "of_int n * pow2 (e - 52)"
  have u: "0 < pow2 (e - 52)" by (rule pow2_pos)
  have n: "(2::rat) ^ 52 \<le> of_int n" "(of_int n :: rat) < 2 ^ 53"
    using assms(1,2) by (metis of_int_le_iff of_int_numeral of_int_power, metis of_int_less_iff of_int_numeral of_int_power)
  have pos: "0 < ?m" using u n(1) by (simp add: zero_less_mult_iff)
  have "pow2 e = pow2 52 * pow2 (e - 52)" by (simp add: pow2_add [symmetric])
  also have "\<dots> \<le> ?m" using n(1) u by (simp add: pow2_def)
  finally have lo: "pow2 e \<le> \<bar>?m\<bar>" using pos by simp
  have "?m < pow2 53 * pow2 (e - 52)" using n(2) u by (simp add: pow2_def)
  also have "\<dots> = pow2 (e + 1)" using pow2_add [of 53 "e - 52"] by (simp add: algebra_simps)
  finally have hi: "\<bar>?m\<bar> < pow2 (e + 1)" using pos by simp
  have e: "exponentOf ?m = e" using lo hi by (rule exponentOf_unique)
  have q: "\<bar>?m\<bar> / pow2 (e - 52) = of_int n" using pos u by simp
  have "n \<noteq> 9007199254740992" using assms(2) by simp
  then show ?thesis
    using pos assms(3,4) by (simp add: roundDouble_def Let_def e q roundHalfEven_int max_def)
qed

lemma roundDouble_subnormal:
  assumes "0 < n" "n < 2 ^ 52"
  shows "roundDouble (of_int n * pow2 (- 1074)) = Fin (of_int n * pow2 (- 1074))"
proof -
  let ?m = "of_int n * pow2 (- 1074)"
  have u: "0 < pow2 (- 1074)" by (rule pow2_pos)
  have n: "(0::rat) < of_int n" "(of_int n :: rat) < 2 ^ 52"
    using assms by (simp, metis of_int_less_iff of_int_numeral of_int_power)
  have pos: "0 < ?m" using u n(1) by (simp add: zero_less_mult_iff)
  have "?m < pow2 52 * pow2 (- 1074)" using n(2) u by (simp add: pow2_def)
  also have "\<dots> = pow2 (- 1022)" by (simp add: pow2_add [symmetric])
  finally have hi: "\<bar>?m\<bar> < pow2 (- 1022)" using pos by simp
  have "exponentOf ?m < - 1022"
  proof (rule ccontr)
    assume "\<not> exponentOf ?m < - 1022"
    then have "pow2 (- 1022) \<le> pow2 (exponentOf ?m)" by (intro pow2_mono) simp
    moreover have "?m \<noteq> 0" using pos by (rule less_imp_neq [symmetric])
    then have "pow2 (exponentOf ?m) \<le> \<bar>?m\<bar>" by (rule exponentOf_bounds(1))
    ultimately show False using hi by linarith
  qed
  then have e: "max (exponentOf ?m) (- 1022) = - 1022" by simp
  have q: "\<bar>?m\<bar> / pow2 (- 1074) = of_int n" using pos u by simp
  show ?thesis
    using pos by (simp add: roundDouble_def Let_def e q roundHalfEven_int)
qed

lemma roundDouble_one: "roundDouble 1 = Fin 1" "roundDouble (- 1) = Fin (- 1)"
  by code_simp+

text \<open>The sign of a rounded number on the grid, through the two comparisons with zero.\<close>

lemma roundDouble_less:
  assumes "onGrid d"
  shows "num_less (Fin 0) (roundDouble d) = (0 < d)"
    and "num_less (roundDouble d) (Fin 0) = (d < 0)"
proof -
  consider "d = 0" | "0 < d" | "d < 0" by linarith
  then have "num_less (Fin 0) (roundDouble d) = (0 < d) \<and> num_less (roundDouble d) (Fin 0) = (d < 0)"
  proof cases
    case 1
    then show ?thesis using roundDouble_sign(1) [OF assms] by (simp add: num_less_def)
  next
    case 2
    then show ?thesis using roundDouble_sign(2) [OF assms] by (auto simp: num_less_def)
  next
    case 3
    then show ?thesis using roundDouble_sign(3) [OF assms] by (auto simp: num_less_def)
  qed
  then show "num_less (Fin 0) (roundDouble d) = (0 < d)"
    and "num_less (roundDouble d) (Fin 0) = (d < 0)" by simp_all
qed

lemma gridNumber_not_NaN: "gridNumber a \<Longrightarrow> a \<noteq> NaN"
  by (auto simp: gridNumber_def)

text \<open>The sign of \<open>x - y\<close> for two numbers on the grid.\<close>

lemma num_sub_sign:
  assumes "gridNumber x" "gridNumber y"
  shows "num_less (Fin 0) (num_sub x y) = num_less y x"
    and "num_less (num_sub x y) (Fin 0) = num_less x y"
    and "num_sub x y = NaN \<or> gridNumber (num_sub x y)"
proof -
  have "num_less (Fin 0) (num_sub x y) = num_less y x
      \<and> num_less (num_sub x y) (Fin 0) = num_less x y
      \<and> (num_sub x y = NaN \<or> gridNumber (num_sub x y))"
  proof (cases "\<exists>a b. x = Fin a \<and> y = Fin b")
    case True
    then obtain a b where ab: "x = Fin a" "y = Fin b" by blast
    have "onGrid (a - b)"
      using assms ab by (simp add: gridNumber_def onGrid_diff)
    then show ?thesis
      using roundDouble_less [of "a - b"] gridNumber_roundDouble [of "a - b"]
      by (simp add: ab num_sub_def num_less_def)
  next
    case False
    then show ?thesis
      using assms
      by (cases x; cases y) (auto simp: num_sub_def num_less_def gridNumber_def)
  qed
  then show "num_less (Fin 0) (num_sub x y) = num_less y x"
    and "num_less (num_sub x y) (Fin 0) = num_less x y"
    and "num_sub x y = NaN \<or> gridNumber (num_sub x y)" by simp_all
qed

text \<open>The sign of \<open>d * sortMultiplier\<close> for a number on the grid, or \<open>NaN\<close>.\<close>

lemma num_mul_sign:
  assumes "d = NaN \<or> gridNumber d"
  shows "comesAfter (num_mul d (sortMultiplier dir))
           = (if dir = Asc then num_less (Fin 0) d else num_less d (Fin 0))"
    and "comesBefore (num_mul d (sortMultiplier dir))
           = (if dir = Asc then num_less d (Fin 0) else num_less (Fin 0) d)"
proof -
  have "comesAfter (num_mul d (sortMultiplier dir))
           = (if dir = Asc then num_less (Fin 0) d else num_less d (Fin 0))
      \<and> comesBefore (num_mul d (sortMultiplier dir))
           = (if dir = Asc then num_less d (Fin 0) else num_less (Fin 0) d)"
  proof (cases d)
    case (Fin m)
    then have g: "onGrid m" using assms by (simp add: gridNumber_def)
    then have g': "onGrid (- m)" by simp
    show ?thesis
      using roundDouble_less [OF g] roundDouble_less [OF g']
      by (cases dir)
         (simp_all add: Fin num_mul_def sortMultiplier_def comesAfter_def comesBefore_def
            num_less_def)
  qed (cases dir;
       simp add: num_mul_def sortMultiplier_def comesAfter_def comesBefore_def num_less_def
         num_sgn_def)+
  then show "comesAfter (num_mul d (sortMultiplier dir))
           = (if dir = Asc then num_less (Fin 0) d else num_less d (Fin 0))"
    and "comesBefore (num_mul d (sortMultiplier dir))
           = (if dir = Asc then num_less d (Fin 0) else num_less (Fin 0) d)" by simp_all
qed

lemma gridNumber_num_neg: "gridNumber (num_neg a) = gridNumber a"
  by (cases a) (simp_all add: num_neg_def gridNumber_def)

text \<open>What \<open>parseFloat\<close> reads is \<open>NaN\<close> or a number on the grid.\<close>

lemma parseUnsigned_grid: "fst (parseUnsigned s) = NaN \<or> gridNumber (fst (parseUnsigned s))"
  using gridNumber_roundDouble
  by (auto simp: parseUnsigned_def Let_def gridNumber_def split: prod.split)

lemma parseFloat_js_grid: "parseFloat_js s = NaN \<or> gridNumber (parseFloat_js s)"
proof -
  have "fst (parseSigned t) = NaN \<or> gridNumber (fst (parseSigned t))" for t
  proof (cases t)
    case Nil
    then show ?thesis by (simp add: parseSigned_def)
  next
    case (Cons c r)
    have "num_neg (fst (parseUnsigned r)) = NaN \<or> gridNumber (num_neg (fst (parseUnsigned r)))"
      using parseUnsigned_grid [of r]
      by (cases "fst (parseUnsigned r)") (auto simp: num_neg_def gridNumber_def)
    then show ?thesis
      using parseUnsigned_grid [of r] parseUnsigned_grid [of t] Cons
      by (auto simp: parseSigned_def split: prod.split)
  qed
  then show ?thesis by (simp add: parseFloat_js_def)
qed

section \<open>Properties of the sort\<close>

lemma mset_insertBy: "mset (insertBy cmp x ys) = add_mset x (mset ys)"
  by (induction ys) simp_all

lemma mset_sort_js: "mset (sort_js cmp xs) = mset xs"
  by (induction xs) (simp_all add: sort_js_def mset_insertBy)

lemma set_insertBy: "set (insertBy cmp x ys) = insert x (set ys)"
  by (induction ys) auto

lemma sorted_wrt_insertBy:
  assumes total: "\<And>a b. comesAfter (cmp a b) \<Longrightarrow> le b a"
      and le: "\<And>a b. \<not> comesAfter (cmp a b) \<Longrightarrow> le a b"
      and trans: "\<And>a b c. le a b \<Longrightarrow> le b c \<Longrightarrow> le a c"
      and "sorted_wrt le ys"
  shows "sorted_wrt le (insertBy cmp x ys)"
  using assms(4)
proof (induction ys)
  case Nil
  show ?case by simp
next
  case (Cons y ys)
  show ?case
  proof (cases "comesAfter (cmp x y)")
    case True
    then have "le y x" by (rule total)
    with Cons True show ?thesis by (auto simp: set_insertBy)
  next
    case False
    then have xy: "le x y" by (rule le)
    have "\<forall>z \<in> set ys. le x z"
      using Cons.prems xy trans by auto
    with Cons.prems xy False show ?thesis by simp
  qed
qed

lemma sorted_wrt_sort_js:
  assumes "\<And>a b. comesAfter (cmp a b) \<Longrightarrow> le b a"
      and "\<And>a b. \<not> comesAfter (cmp a b) \<Longrightarrow> le a b"
      and "\<And>a b c. le a b \<Longrightarrow> le b c \<Longrightarrow> le a c"
  shows "sorted_wrt le (sort_js cmp xs)"
proof (induction xs)
  case Nil
  show ?case by (simp add: sort_js_def)
next
  case (Cons x xs)
  have "sort_js cmp (x # xs) = insertBy cmp x (sort_js cmp xs)"
    by (simp add: sort_js_def)
  then show ?case
    using sorted_wrt_insertBy [of cmp le, OF assms Cons] by simp
qed

subsection \<open>The comparator and the order\<close>

lemma num_less_irrefl: "\<not> num_less a a"
  by (cases a) (simp_all add: num_less_def)

lemma num_less_trans: "num_less a b \<Longrightarrow> num_less b c \<Longrightarrow> num_less a c"
  by (cases a; cases b; cases c) (simp_all add: num_less_def)

lemma num_less_total: "a \<noteq> NaN \<Longrightarrow> b \<noteq> NaN \<Longrightarrow> num_less a b \<or> a = b \<or> num_less b a"
  by (cases a; cases b) (auto simp: num_less_def)

lemma num_le_trans:
  "b \<noteq> NaN \<Longrightarrow> num_le a b \<Longrightarrow> num_le b c \<Longrightarrow> num_le a c"
  by (cases a; cases b; cases c) (auto simp: num_le_def num_less_def)

lemma num_le_total: "num_le a b \<or> num_le b a"
  by (cases a; cases b) (auto simp: num_le_def num_less_def)

text \<open>The sign of \<open>(x - y) * sortMultiplier\<close> for two numbers on the grid.\<close>

lemma comesAfter_difference:
  assumes "gridNumber x" "gridNumber y"
  shows "comesAfter (num_mul (num_sub x y) (sortMultiplier dir))
           = (if dir = Asc then num_less y x else num_less x y)"
  using num_sub_sign [OF assms] by (simp add: num_mul_sign)

lemma safeFloat_grid:
  assumes "gridNumber fb"
  shows "gridNumber (toNumber (safeFloat v (JNum fb)))"
  using assms parseFloat_js_grid [of "trim_js (stripCurrency (String_js v))"]
  by (auto simp: safeFloat_def Let_def isNaN_def toNumber_def)

lemma missingValue_grid: "gridNumber (missingValue dir)"
  by (simp add: missingValue_def gridNumber_def)

lemma numberOfRow_grid: "gridNumber (numberOfRow k dir r)"
  by (simp add: numberOfRow_def safeFloat_grid missingValue_grid)

lemma timeOf_grid: "gridNumber (timeOf ctor dir v)"
  using missingValue_grid [of dir]
  by (simp add: timeOf_def gridNumber_def split: option.split)

lemma numberOfRow_not_NaN: "numberOfRow k dir r \<noteq> NaN"
  using numberOfRow_grid by (rule gridNumber_not_NaN)

lemma timeOf_not_NaN: "timeOf ctor dir v \<noteq> NaN"
  using timeOf_grid by (rule gridNumber_not_NaN)

lemma comesAfter_compareText:
  "comesAfter (compareText dir x y)
     = (if x = [] then y \<noteq> []
        else y \<noteq> [] \<and> (if dir = Asc then y < x else x < y))"
  by (cases dir)
     (auto simp: compareText_def comesAfter_def num_less_def num_mul_def sortMultiplier_def
        roundDouble_one)

lemma compareRows_text:
  assumes "k = ''latest_update'' \<or> (k \<notin> set dateKeys \<and> k \<notin> set numericKeys)"
  shows "compareRows ctor k dir a b = compareText dir (textOfRow k a) (textOfRow k b)"
  using assms by (auto simp: compareRows_def textOfRow_def Let_def)

lemma compareRows_date:
  assumes "k \<noteq> ''latest_update''" "k \<in> set dateKeys"
  shows "compareRows ctor k dir a b
           = num_mul (num_sub (timeOf ctor dir (getProp a k)) (timeOf ctor dir (getProp b k)))
                     (sortMultiplier dir)"
  using assms by (simp add: compareRows_def Let_def)

lemma compareRows_number:
  assumes "k \<noteq> ''latest_update''" "k \<notin> set dateKeys" "k \<in> set numericKeys"
  shows "compareRows ctor k dir a b
           = num_mul (num_sub (numberOfRow k dir a) (numberOfRow k dir b)) (sortMultiplier dir)"
  using assms by (simp add: compareRows_def numberOfRow_def Let_def)

lemma dateKeys_not_numeric: "k \<in> set dateKeys \<Longrightarrow> k \<notin> set numericKeys"
  by (auto simp: dateKeys_def numericKeys_def)

text \<open>The comparator puts \<open>a\<close> after \<open>b\<close> exactly when the two rows are out of order.\<close>

lemma comesAfter_compareRows:
  "comesAfter (compareRows ctor k dir a b) = (\<not> rowOrder ctor k dir a b)"
proof -
  consider (strings) "k = ''latest_update'' \<or> (k \<notin> set dateKeys \<and> k \<notin> set numericKeys)"
    | (dates) "k \<noteq> ''latest_update''" "k \<in> set dateKeys"
    | (numbers) "k \<noteq> ''latest_update''" "k \<notin> set dateKeys" "k \<in> set numericKeys"
    by blast
  then show ?thesis
  proof cases
    case strings
    then have "rowOrder ctor k dir a b = textsInOrder dir (textOfRow k a) (textOfRow k b)"
      by (auto simp: rowOrder_def)
    then show ?thesis
      using strings
      by (auto simp: compareRows_text comesAfter_compareText textsInOrder_def not_le)
  next
    case dates
    then show ?thesis
      by (simp add: compareRows_date comesAfter_difference timeOf_grid rowOrder_def
          numbersInOrder_def num_le_def)
  next
    case numbers
    then show ?thesis
      by (simp add: compareRows_number comesAfter_difference numberOfRow_grid rowOrder_def
          numbersInOrder_def num_le_def)
  qed
qed

text \<open>
  The comparator is consistent in the sense of ECMA-262: \<open>a\<close> sorts before \<open>b\<close> exactly
  when \<open>b\<close> sorts after \<open>a\<close>, and with \<open>rowOrder_total\<close> and \<open>rowOrder_trans\<close> the rows are
  totally preordered.
\<close>

lemma comesBefore_difference:
  assumes "gridNumber x" "gridNumber y"
  shows "comesBefore (num_mul (num_sub x y) (sortMultiplier dir))
           = comesAfter (num_mul (num_sub y x) (sortMultiplier dir))"
  using num_sub_sign [OF assms] num_sub_sign [OF assms(2,1)] by (simp add: num_mul_sign)

lemma comesBefore_compareText:
  "comesBefore (compareText dir x y) = comesAfter (compareText dir y x)"
  by (cases dir)
     (auto simp: compareText_def comesAfter_def comesBefore_def num_less_def num_mul_def
        sortMultiplier_def roundDouble_one)

lemma compareRows_consistent:
  "comesBefore (compareRows ctor k dir a b) = comesAfter (compareRows ctor k dir b a)"
proof -
  consider (strings) "k = ''latest_update'' \<or> (k \<notin> set dateKeys \<and> k \<notin> set numericKeys)"
    | (dates) "k \<noteq> ''latest_update''" "k \<in> set dateKeys"
    | (numbers) "k \<noteq> ''latest_update''" "k \<notin> set dateKeys" "k \<in> set numericKeys"
    by blast
  then show ?thesis
  proof cases
    case strings
    then show ?thesis by (simp add: compareRows_text comesBefore_compareText)
  next
    case dates
    then show ?thesis by (simp add: compareRows_date comesBefore_difference timeOf_grid)
  next
    case numbers
    then show ?thesis by (simp add: compareRows_number comesBefore_difference numberOfRow_grid)
  qed
qed

lemma numbersInOrder_total: "numbersInOrder dir x y \<or> numbersInOrder dir y x"
  using num_le_total by (auto simp: numbersInOrder_def)

lemma numbersInOrder_trans:
  "y \<noteq> NaN \<Longrightarrow> numbersInOrder dir x y \<Longrightarrow> numbersInOrder dir y z \<Longrightarrow> numbersInOrder dir x z"
  using num_le_trans by (auto simp: numbersInOrder_def split: if_splits)

lemma textsInOrder_total: "textsInOrder dir x y \<or> textsInOrder dir y x"
  by (auto simp: textsInOrder_def)

lemma textsInOrder_trans:
  "textsInOrder dir x y \<Longrightarrow> textsInOrder dir y z \<Longrightarrow> textsInOrder dir x z"
  by (auto simp: textsInOrder_def split: if_splits)

lemma rowOrder_total: "rowOrder ctor k dir a b \<or> rowOrder ctor k dir b a"
  using numbersInOrder_total textsInOrder_total by (auto simp: rowOrder_def)

lemma rowOrder_trans:
  assumes "rowOrder ctor k dir a b" "rowOrder ctor k dir b c"
  shows "rowOrder ctor k dir a c"
proof -
  consider (dates) "k \<noteq> ''latest_update'' \<and> k \<in> set dateKeys"
    | (numbers) "\<not> (k \<noteq> ''latest_update'' \<and> k \<in> set dateKeys)"
        "k \<noteq> ''latest_update'' \<and> k \<in> set numericKeys"
    | (strings) "\<not> (k \<noteq> ''latest_update'' \<and> k \<in> set dateKeys)"
        "\<not> (k \<noteq> ''latest_update'' \<and> k \<in> set numericKeys)"
    by blast
  then show ?thesis
  proof cases
    case dates
    then have eq: "\<And>x y. rowOrder ctor k dir x y
        = numbersInOrder dir (timeOf ctor dir (getProp x k)) (timeOf ctor dir (getProp y k))"
      by (simp add: rowOrder_def)
    show ?thesis
      using assms numbersInOrder_trans [OF timeOf_not_NaN] unfolding eq by blast
  next
    case numbers
    then have eq: "\<And>x y. rowOrder ctor k dir x y
        = numbersInOrder dir (numberOfRow k dir x) (numberOfRow k dir y)"
      by (simp add: rowOrder_def)
    show ?thesis
      using assms numbersInOrder_trans [OF numberOfRow_not_NaN] unfolding eq by blast
  next
    case strings
    then have eq: "\<And>x y. rowOrder ctor k dir x y
        = textsInOrder dir (textOfRow k x) (textOfRow k y)"
      by (auto simp: rowOrder_def)
    show ?thesis
      using assms textsInOrder_trans unfolding eq by blast
  qed
qed

lemma sorted_dataToRender:
  assumes "sortKey cs \<noteq> []"
  shows "sorted_wrt (rowOrder ctor (sortKey cs) (sortDirection cs)) (dataToRender ctor cs projects)"
proof -
  let ?cmp = "compareRows ctor (sortKey cs) (sortDirection cs)"
  let ?le = "rowOrder ctor (sortKey cs) (sortDirection cs)"
  have "sorted_wrt ?le (sort_js ?cmp projects)"
  proof (rule sorted_wrt_sort_js)
    fix a b
    assume "comesAfter (?cmp a b)"
    then show "?le b a" using rowOrder_total [of ctor _ _ a b] by (simp add: comesAfter_compareRows) blast
  next
    fix a b
    assume "\<not> comesAfter (?cmp a b)"
    then show "?le a b" by (simp add: comesAfter_compareRows)
  next
    fix a b c
    assume "?le a b" "?le b c"
    then show "?le a c" by (rule rowOrder_trans)
  qed
  then show ?thesis using assms by (simp add: dataToRender_def)
qed

subsection \<open>The rendered tables\<close>

lemma clickSortHeader_key: "k \<noteq> [] \<Longrightarrow> sortKey (clickSortHeader k cs) = k"
  by (simp add: clickSortHeader_def Let_def)

lemma renderProjectTable_rows:
  assumes "\<forall>p \<in> set shown. \<not> rowThrows p"
  shows "projectRows (renderProjectTable shown completed) = shown"
  using assms by (simp add: renderProjectTable_def projectRows_def)

lemma renderProjectTable_error:
  assumes "\<exists>p \<in> set shown. rowThrows p"
  shows "renderProjectTable shown completed
           = Notice ''Error rendering project data. Check console for details.''"
proof -
  have "shown \<noteq> []" using assms by auto
  then show ?thesis using assms by (simp add: renderProjectTable_def)
qed

lemma set_dataToRender: "set (dataToRender ctor cs projects) = set projects"
  using mset_sort_js [of "compareRows ctor (sortKey cs) (sortDirection cs)" projects]
  by (auto simp: dataToRender_def dest: mset_eq_setD)

lemma mset_dataToRender: "mset (dataToRender ctor cs projects) = mset projects"
  by (simp add: dataToRender_def mset_sort_js)

text \<open>What \<open>renderActiveTable\<close> and \<open>renderCompletedTable\<close> leave in the table.\<close>

lemma tableOf_renderTable:
  "tableOf table (renderTable ctor table st)
     = renderProjectTable (dataToRender ctor (currentSort st) (arrayOf table st))
         (table = CompletedProjectTable)"
  by (cases table)
     (simp_all add: tableOf_def renderTable_def arrayOf_def renderActiveTable_def
        renderCompletedTable_def)

lemma renderTable_sorted:
  assumes "sortKey (currentSort st) \<noteq> []" and "\<forall>p \<in> set (arrayOf table st). \<not> rowThrows p"
  shows "mset (projectRows (tableOf table (renderTable ctor table st))) = mset (arrayOf table st)"
    and "sorted_wrt (rowOrder ctor (sortKey (currentSort st)) (sortDirection (currentSort st)))
           (projectRows (tableOf table (renderTable ctor table st)))"
proof -
  let ?shown = "dataToRender ctor (currentSort st) (arrayOf table st)"
  have "\<forall>p \<in> set ?shown. \<not> rowThrows p"
    using assms(2) by (simp add: set_dataToRender)
  then have "projectRows (tableOf table (renderTable ctor table st)) = ?shown"
    by (simp add: tableOf_renderTable renderProjectTable_rows)
  then show "mset (projectRows (tableOf table (renderTable ctor table st))) = mset (arrayOf table st)"
    and "sorted_wrt (rowOrder ctor (sortKey (currentSort st)) (sortDirection (currentSort st)))
           (projectRows (tableOf table (renderTable ctor table st)))"
    using sorted_dataToRender [OF assms(1), of ctor "arrayOf table st"]
    by (simp_all add: mset_dataToRender)
qed

lemma renderTable_error:
  assumes "\<exists>p \<in> set (arrayOf table st). rowThrows p"
  shows "tableOf table (renderTable ctor table st)
           = Notice ''Error rendering project data. Check console for details.''"
proof -
  have "\<exists>p \<in> set (dataToRender ctor (currentSort st) (arrayOf table st)). rowThrows p"
    using assms by (simp add: set_dataToRender)
  then show ?thesis
    by (simp add: tableOf_renderTable renderProjectTable_error)
qed

text \<open>A click on a header with a key sets the sort state and renders the table of the header.\<close>

lemma sortHeaderClicked_renders:
  assumes "k \<noteq> []"
  shows "sortHeaderClicked ctor table k st
           = renderTable ctor table (st\<lparr>currentSort := clickSortHeader k (currentSort st)\<rparr>)"
  using assms by (simp add: sortHeaderClicked_def renderTable_def Let_def)

lemma clickSortHeader_state:
  assumes "k \<noteq> []"
  shows "clickSortHeader k cs
           = \<lparr>sortKey = k,
              sortDirection = (if sortKey cs = k \<and> sortDirection cs = Asc then Desc else Asc)\<rparr>"
  using assms by (auto simp: clickSortHeader_def Let_def)

lemma renderTable_fields:
  "currentSort (renderTable ctor table st) = currentSort st"
  "arrayOf table' (renderTable ctor table st) = arrayOf table' st"
  "tableOf (otherTable table) (renderTable ctor table st) = tableOf (otherTable table) st"
  by (cases table; cases table';
      simp add: renderTable_def renderActiveTable_def renderCompletedTable_def arrayOf_def
        tableOf_def otherTable_def)+

text \<open>The key of the sort state is never empty: no event of the page empties it.\<close>

lemma currentSort_updateCell: "currentSort (updateCell c f st) = currentSort st"
  by (simp add: updateCell_def)

lemma currentSort_makeCellEditable: "currentSort (makeCellEditable c st) = currentSort st"
  by (simp add: makeCellEditable_def Let_def displayFeedback_def currentSort_updateCell
      split: option.split)

lemma currentSort_typeInto: "currentSort (typeInto c t st) = currentSort st"
  by (simp add: typeInto_def currentSort_updateCell split: content.split)

lemma currentSort_saveEdit: "currentSort (fst (saveEdit ed c st)) = currentSort st"
  by (simp add: saveEdit_def Let_def displayFeedback_def issue_def currentSort_updateCell)

lemma currentSort_cancelEdit: "currentSort (cancelEdit c shown st) = currentSort st"
  by (simp add: cancelEdit_def Let_def currentSort_updateCell)

lemma currentSort_keyEnter: "currentSort (fst (keyEnter c st)) = currentSort st"
  by (simp add: keyEnter_def currentSort_saveEdit split: content.split)

lemma currentSort_blurTimeout: "currentSort (fst (blurTimeout c ed st)) = currentSort st"
  by (simp add: blurTimeout_def currentSort_saveEdit)

lemma currentSort_keyEscape: "currentSort (keyEscape c st) = currentSort st"
  by (simp add: keyEscape_def currentSort_cancelEdit split: content.split)

lemma currentSort_editModalClosed: "currentSort (editModalClosed st) = currentSort st"
  by (simp add: editModalClosed_def Let_def currentSort_cancelEdit split: option.split)

lemma currentSort_openEditModal: "currentSort (openEditModal i st) = currentSort st"
  by (simp add: openEditModal_def Let_def clearFeedback_def displayFeedback_def split: option.split)

lemma currentSort_exportToCSV: "currentSort (exportToCSV ctor rows prefix st) = currentSort st"
  by (simp add: exportToCSV_def displayFeedback_def)

lemma currentSort_fetch:
  "currentSort (fetchActiveProjects st) = currentSort st"
  "currentSort (fetchCompletedProjects st) = currentSort st"
  "currentSort (fetchDashboardData st) = currentSort st"
  "currentSort (fetchActiveProjects_resume ctor a st) = currentSort st"
  "currentSort (fetchCompletedProjects_resume ctor a st) = currentSort st"
  by (simp_all add: fetchActiveProjects_def fetchCompletedProjects_def fetchDashboardData_def
      fetchActiveProjects_resume_def fetchCompletedProjects_resume_def issue_def
      renderActiveTable_def renderCompletedTable_def split: apiResult.split)

lemma currentSort_saveEdit_resume: "currentSort (saveEdit_resume p a st) = currentSort st"
  by (simp add: saveEdit_resume_def Let_def currentSort_updateCell currentSort_fetch
      displayFeedback_def split: apiResult.split option.split)

lemma sortKey_sortHeaderClicked:
  assumes "sortKey (currentSort st) \<noteq> []"
  shows "sortKey (currentSort (sortHeaderClicked ctor table k st)) \<noteq> []"
proof (cases "k = []")
  case True
  then show ?thesis using assms by (simp add: sortHeaderClicked_def)
next
  case False
  then show ?thesis
    by (simp add: sortHeaderClicked_renders renderTable_fields clickSortHeader_key)
qed

lemma fst_pending:
  "fst (case r of (st', None) \<Rightarrow> (st', pending) | (st', Some p) \<Rightarrow> (st', pending @ [p])) = fst r"
  by (cases r) (simp split: option.split)

lemma sortKey_step:
  assumes "sortKey (currentSort st) \<noteq> []"
  shows "sortKey (currentSort (fst (step ctor ev (st, pending)))) \<noteq> []"
proof (cases ev)
  case (HeaderClicked table k)
  then show ?thesis using assms by (simp add: step_def sortKey_sortHeaderClicked)
qed (use assms in \<open>simp_all add: step_def fst_pending currentSort_makeCellEditable currentSort_typeInto
      currentSort_keyEnter currentSort_keyEscape currentSort_blurTimeout currentSort_editModalClosed
      currentSort_openEditModal exportActiveToCSV_def exportCompletedToCSV_def
      currentSort_exportToCSV currentSort_fetch currentSort_saveEdit_resume\<close>)

lemma sortKey_run:
  "sortKey (currentSort (fst s)) \<noteq> [] \<Longrightarrow> sortKey (currentSort (fst (run ctor evs s))) \<noteq> []"
proof (induction evs arbitrary: s)
  case Nil
  then show ?case by (simp add: run_def)
next
  case (Cons ev evs)
  obtain st pending where s: "s = (st, pending)" by (cases s)
  have "sortKey (currentSort (fst (step ctor ev s))) \<noteq> []"
    using Cons.prems sortKey_step unfolding s by simp
  then have "sortKey (currentSort (fst (run ctor evs (step ctor ev s)))) \<noteq> []" by (rule Cons.IH)
  then show ?case by (simp add: run_def)
qed

text \<open>
  C1. On every page that the events can lead to, the sort state has a key, and each of the
  two tables is sorted when it is rendered: \<open>renderActiveTable\<close> and \<open>renderCompletedTable\<close>
  show the rows of their global array ordered by the key of the sort state, by number under
  a numeric key and by time under a date key, a missing or unreadable value last in both
  directions, by lowercased text under any other key, rows with empty text last in both
  directions, ascending or descending as the direction says. When the array holds a row that
  cannot be rendered, the table shows the error row instead. A click on a header with a key
  sets the sort state to that key, ascending unless the key was the current one and
  ascending, and renders the table of the header so; the other table stays as it was.
\<close>

theorem rendered_tables_sorted:
  assumes "st = fst (run ctor evs (initialPage, []))"
    and "rendered = renderTable ctor table st"
    and "k \<noteq> []"
    and "clicked = sortHeaderClicked ctor table k st"
  shows "sortKey (currentSort st) \<noteq> []
    \<and> ((\<forall>p \<in> set (arrayOf table st). \<not> rowThrows p) \<longrightarrow>
          mset (projectRows (tableOf table rendered)) = mset (arrayOf table st)
          \<and> sorted_wrt (rowOrder ctor (sortKey (currentSort st)) (sortDirection (currentSort st)))
               (projectRows (tableOf table rendered))
          \<and> mset (projectRows (tableOf table clicked)) = mset (arrayOf table st)
          \<and> sorted_wrt (rowOrder ctor k (sortDirection (currentSort clicked)))
               (projectRows (tableOf table clicked)))
    \<and> ((\<exists>p \<in> set (arrayOf table st). rowThrows p) \<longrightarrow>
          tableOf table rendered = Notice ''Error rendering project data. Check console for details.''
          \<and> tableOf table clicked = Notice ''Error rendering project data. Check console for details.'')
    \<and> currentSort clicked
        = \<lparr>sortKey = k,
           sortDirection =
             (if sortKey (currentSort st) = k \<and> sortDirection (currentSort st) = Asc then Desc
              else Asc)\<rparr>
    \<and> tableOf (otherTable table) clicked = tableOf (otherTable table) st"
proof -
  let ?st1 = "st\<lparr>currentSort := clickSortHeader k (currentSort st)\<rparr>"
  have key: "sortKey (currentSort st) \<noteq> []"
    unfolding assms(1) by (rule sortKey_run) (simp add: initialPage_def)
  have clicked: "clicked = renderTable ctor table ?st1"
    unfolding assms(4) using assms(3) by (rule sortHeaderClicked_renders)
  have st1: "sortKey (currentSort ?st1) = k" "arrayOf table ?st1 = arrayOf table st"
      "tableOf (otherTable table) ?st1 = tableOf (otherTable table) st"
    using assms(3) by (simp_all add: clickSortHeader_key arrayOf_def tableOf_def)
  have sort: "currentSort clicked
        = \<lparr>sortKey = k,
           sortDirection =
             (if sortKey (currentSort st) = k \<and> sortDirection (currentSort st) = Asc then Desc
              else Asc)\<rparr>"
    using assms(3) by (simp add: clicked renderTable_fields clickSortHeader_state)
  have other: "tableOf (otherTable table) clicked = tableOf (otherTable table) st"
    by (simp add: clicked renderTable_fields st1)
  have good: "mset (projectRows (tableOf table rendered)) = mset (arrayOf table st)
          \<and> sorted_wrt (rowOrder ctor (sortKey (currentSort st)) (sortDirection (currentSort st)))
               (projectRows (tableOf table rendered))
          \<and> mset (projectRows (tableOf table clicked)) = mset (arrayOf table st)
          \<and> sorted_wrt (rowOrder ctor k (sortDirection (currentSort clicked)))
               (projectRows (tableOf table clicked))"
    if ok: "\<forall>p \<in> set (arrayOf table st). \<not> rowThrows p"
  proof -
    have ok1: "\<forall>p \<in> set (arrayOf table ?st1). \<not> rowThrows p"
      using ok st1(2) by simp
    have k1: "sortKey (currentSort ?st1) \<noteq> []"
      using st1(1) assms(3) by simp
    have "currentSort clicked = currentSort ?st1"
      by (simp add: clicked renderTable_fields)
    then show ?thesis
      using renderTable_sorted [OF key ok, of ctor] renderTable_sorted [OF k1 ok1, of ctor]
        st1(1,2)
      unfolding assms(2) clicked by simp
  qed
  have bad: "tableOf table rendered = Notice ''Error rendering project data. Check console for details.''
          \<and> tableOf table clicked = Notice ''Error rendering project data. Check console for details.''"
    if no: "\<exists>p \<in> set (arrayOf table st). rowThrows p"
  proof -
    have "\<exists>p \<in> set (arrayOf table ?st1). rowThrows p"
      using no st1(2) by simp
    then show ?thesis
      using renderTable_error [OF no, of ctor] renderTable_error [of table ?st1 ctor]
      unfolding assms(2) clicked by simp
  qed
  show ?thesis
    using key good bad sort other by blast
qed

lemma clientsLoaded_sort: "currentSort clientsLoaded = \<lparr>sortKey = ''client'', sortDirection = Asc\<rparr>"
  by (simp add: clientsLoaded_def sortHeaderClicked_def clickSortHeader_def renderActiveTable_def
     fetchActiveProjects_resume_def initialPage_def Let_def)

lemma clientsLoaded_table: "activeTable clientsLoaded = ProjectRows (rev twoClients)"
  by code_simp

lemma twoClients_fetched:
  "arrayOf ActiveProjectTable
     (fst (run strictCtor [ActiveAnswered (ApiOk (Some twoClients))] (initialPage, []))) = twoClients"
  "sortHeaderClicked strictCtor ActiveProjectTable ''client''
     (fst (run strictCtor [ActiveAnswered (ApiOk (Some twoClients))] (initialPage, []))) = clientsLoaded"
  by (simp_all add: run_def step_def arrayOf_def clientsLoaded_def fetchActiveProjects_resume_def
      renderActiveTable_def)

lemma numberedUpdate_fetched:
  "arrayOf ActiveProjectTable
     (fst (run strictCtor [ActiveAnswered (ApiOk (Some [numberedUpdate]))] (initialPage, [])))
     = [numberedUpdate]"
  by (simp add: run_def step_def arrayOf_def fetchActiveProjects_resume_def renderActiveTable_def)

theorem rendered_tables_sorted_witness:
  "''client'' \<noteq> []
   \<and> list_all (\<lambda>p. \<not> rowThrows p) twoClients
   \<and> projectRows (activeTable clientsLoaded) = rev twoClients
   \<and> sorted_wrt (rowOrder strictCtor ''client'' Asc) (projectRows (activeTable clientsLoaded))
   \<and> rowThrows numberedUpdate
   \<and> activeTable
        (renderActiveTable strictCtor
           (fst (run strictCtor [ActiveAnswered (ApiOk (Some [numberedUpdate]))] (initialPage, []))))
       = Notice ''Error rendering project data. Check console for details.''"
proof -
  let ?st = "fst (run strictCtor [ActiveAnswered (ApiOk (Some twoClients))] (initialPage, []))"
  let ?st2 = "fst (run strictCtor [ActiveAnswered (ApiOk (Some [numberedUpdate]))] (initialPage, []))"
  note a = rendered_tables_sorted [of ?st strictCtor "[ActiveAnswered (ApiOk (Some twoClients))]"
      "renderTable strictCtor ActiveProjectTable ?st" ActiveProjectTable "''client''" clientsLoaded]
  note b = rendered_tables_sorted [of ?st2 strictCtor "[ActiveAnswered (ApiOk (Some [numberedUpdate]))]"
      "renderTable strictCtor ActiveProjectTable ?st2" ActiveProjectTable "''client''"
      "sortHeaderClicked strictCtor ActiveProjectTable ''client'' ?st2"]
  have ok: "\<forall>p \<in> set twoClients. \<not> rowThrows p"
    by code_simp
  have no: "\<exists>p \<in> set [numberedUpdate]. rowThrows p"
    by code_simp
  have 1: "sorted_wrt (rowOrder strictCtor ''client'' Asc) (projectRows (activeTable clientsLoaded))"
    using a ok by (simp add: twoClients_fetched clientsLoaded_sort tableOf_def)
  have 2: "activeTable (renderActiveTable strictCtor ?st2)
             = Notice ''Error rendering project data. Check console for details.''"
    using b no by (simp add: numberedUpdate_fetched tableOf_def renderTable_def)
  show ?thesis
    using ok no 1 2 by (simp add: clientsLoaded_table projectRows_def list_all_iff)
qed

text \<open>
  Against the order as the specification states it: sorted ascending by client, the row
  with the empty client comes after the row of Acme. Against a table that stays sorted by
  the last clicked column: after a click on the client header of the active table and one
  on the amount header of the completed table, the sort state is the amount, ascending,
  and the active table still shows Acme with 500 before Zenith with 100.
\<close>

theorem stated_order_counterexample:
  "activeTable clientsLoaded
     = ProjectRows [[(''id'', JNum (Fin 2)), (''client'', JStr ''Acme'')],
                    [(''id'', JNum (Fin 1)), (''client'', JStr [])]]
   \<and> \<not> sorted_wrt (statedOrder strictCtor ''client'' Asc) (projectRows (activeTable clientsLoaded))
   \<and> currentSort otherHeaderClicked = \<lparr>sortKey = ''amount'', sortDirection = Asc\<rparr>
   \<and> activeTable otherHeaderClicked = ProjectRows (rev twoAmounts)
   \<and> \<not> sorted_wrt (rowOrder strictCtor ''amount'' Asc) (projectRows (activeTable otherHeaderClicked))
   \<and> \<not> sorted_wrt (statedOrder strictCtor ''amount'' Asc)
         (projectRows (activeTable otherHeaderClicked))"
  by code_simp

text \<open>
  C4. The comparator compares lowercased strings for the keys that are neither numeric nor
  date keys. Under a numeric key it orders two rows by the numbers that \<open>safeFloat\<close> reads,
  and under a date key by the times that \<open>parseDate\<close> reads.
\<close>

theorem compareRows_by_kind:
  "(k \<noteq> ''latest_update'' \<and> k \<notin> set dateKeys \<and> k \<notin> set numericKeys
      \<longrightarrow> compareRows ctor k dir a b = compareAsStrings k dir a b)
   \<and> (k = ''latest_update''
      \<longrightarrow> compareRows ctor k dir a b = compareText dir (textOfRow k a) (textOfRow k b))
   \<and> (k \<in> set numericKeys
      \<longrightarrow> comesAfter (compareRows ctor k dir a b)
          = (if dir = Asc then num_less (numberOfRow k dir b) (numberOfRow k dir a)
             else num_less (numberOfRow k dir a) (numberOfRow k dir b)))
   \<and> (k \<in> set dateKeys
      \<longrightarrow> comesAfter (compareRows ctor k dir a b)
          = (if dir = Asc then num_less (timeOf ctor dir (getProp b k)) (timeOf ctor dir (getProp a k))
             else num_less (timeOf ctor dir (getProp a k)) (timeOf ctor dir (getProp b k))))"
proof (intro conjI impI)
  assume "k \<noteq> ''latest_update'' \<and> k \<notin> set dateKeys \<and> k \<notin> set numericKeys"
  then show "compareRows ctor k dir a b = compareAsStrings k dir a b"
    by (simp add: compareRows_text textOfRow_def compareAsStrings_def)
next
  assume "k = ''latest_update''"
  then show "compareRows ctor k dir a b = compareText dir (textOfRow k a) (textOfRow k b)"
    by (simp add: compareRows_text)
next
  assume k: "k \<in> set numericKeys"
  then have "k \<noteq> ''latest_update''" "k \<notin> set dateKeys"
    by (auto simp: numericKeys_def dateKeys_def)
  then show "comesAfter (compareRows ctor k dir a b)
          = (if dir = Asc then num_less (numberOfRow k dir b) (numberOfRow k dir a)
             else num_less (numberOfRow k dir a) (numberOfRow k dir b))"
    using k by (simp add: compareRows_number comesAfter_difference numberOfRow_grid)
next
  assume k: "k \<in> set dateKeys"
  then have "k \<noteq> ''latest_update''"
    by (auto simp: dateKeys_def)
  then show "comesAfter (compareRows ctor k dir a b)
          = (if dir = Asc then num_less (timeOf ctor dir (getProp b k)) (timeOf ctor dir (getProp a k))
             else num_less (timeOf ctor dir (getProp a k)) (timeOf ctor dir (getProp b k)))"
    using k by (simp add: compareRows_date comesAfter_difference timeOf_grid)
qed

lemma numberOfRow_nine_ten:
  "numberOfRow ''amount'' Asc nineRow = Fin 9" "numberOfRow ''amount'' Asc tenRow = Fin 10"
  by code_simp+

theorem compareRows_by_kind_witness:
  "compareRows strictCtor ''client'' Asc nineRow tenRow = compareAsStrings ''client'' Asc nineRow tenRow
   \<and> compareRows strictCtor ''latest_update'' Asc nineRow tenRow = Fin 0
   \<and> \<not> comesAfter (compareRows strictCtor ''amount'' Asc nineRow tenRow)
   \<and> \<not> comesAfter (compareRows strictCtor ''po_date'' Asc nineRow tenRow)"
proof -
  have t: "timeOf strictCtor Asc (getProp nineRow ''po_date'') = PosInf"
      "timeOf strictCtor Asc (getProp tenRow ''po_date'') = PosInf"
    by (simp_all add: timeOf_def getProp_def nineRow_def tenRow_def parseDate_def truthy_def
        missingValue_def)
  have u: "textOfRow ''latest_update'' nineRow = []" "textOfRow ''latest_update'' tenRow = []"
    by (simp_all add: textOfRow_def getProp_def nineRow_def tenRow_def orElse_def truthy_def
        String_js_def toLowerCase_def)
  show ?thesis
    using compareRows_by_kind [of "''client''" strictCtor Asc nineRow tenRow]
      compareRows_by_kind [of "''latest_update''" strictCtor Asc nineRow tenRow]
      compareRows_by_kind [of "''amount''" strictCtor Asc nineRow tenRow]
      compareRows_by_kind [of "''po_date''" strictCtor Asc nineRow tenRow]
    by (simp add: dateKeys_def numericKeys_def numberOfRow_nine_ten t u num_less_def compareText_def)
qed

theorem compareRows_strings_counterexample:
  "compareRows strictCtor ''amount'' Asc nineRow tenRow = Fin (- 1)
   \<and> compareAsStrings ''amount'' Asc nineRow tenRow = Fin 1"
  by code_simp

section \<open>Properties of the forecast form\<close>

lemma checks_keep_number:
  "inputNumber (checkProjectId p v) = inputNumber v"
  "inputNumber (checkDate ctor d v) = inputNumber v"
  "inputNumber (checkProvided v) = inputNumber v"
  "inputType (checkProjectId p v) = inputType v"
  "inputType (checkDate ctor d v) = inputType v"
  "inputType (checkProvided v) = inputType v"
  by (simp_all add: checkProjectId_def checkDate_def checkProvided_def invalid_def)

lemma checks_stay_invalid:
  "\<not> isValid v \<Longrightarrow> \<not> isValid (checkPercent s v)"
  "\<not> isValid v \<Longrightarrow> \<not> isValid (checkProjectId p v)"
  "\<not> isValid v \<Longrightarrow> \<not> isValid (checkDate ctor d v)"
  "\<not> isValid v \<Longrightarrow> \<not> isValid (checkProvided v)"
  by (simp_all add: checkPercent_def checkProjectId_def checkDate_def checkProvided_def invalid_def
      Let_def)

lemma checks_keep_provided:
  "valueFieldProvided (checkProjectId p v) = valueFieldProvided v"
  "valueFieldProvided (checkDate ctor d v) = valueFieldProvided v"
  by (simp_all add: checkProjectId_def checkDate_def invalid_def)

lemma checkProvided_valid: "isValid (checkProvided v) \<Longrightarrow> valueFieldProvided v"
  by (auto simp: checkProvided_def invalid_def split: if_splits)

text \<open>A form that passes the validation has its one number in \<open>original_input_value\<close>.\<close>

lemma valid_forecast_number:
  assumes "isValid (validateForecast ctor f)"
  shows "inputNumber (validateForecast ctor f) = enteredValue f
       \<and> inputType (validateForecast ctor f)
           = (if trim_js (ffAmount f) \<noteq> [] then ''amount'' else ''percent'')"
proof -
  let ?v0 = "\<lparr>inputType = [], inputNumber = JNull, isValid = True,
               valueFieldProvided = False, errorText = []\<rparr>"
  let ?a = "checkAmount (trim_js (ffAmount f)) ?v0"
  let ?p = "checkPercent (trim_js (ffPercent f)) ?a"
  have vp: "isValid ?p"
    using assms checks_stay_invalid(2-4) unfolding validateForecast_def by blast
  have prov: "valueFieldProvided ?p"
    using assms checkProvided_valid checks_keep_provided unfolding validateForecast_def by metis
  have va: "isValid ?a"
    using vp checks_stay_invalid(1) by blast
  have eq: "inputNumber (validateForecast ctor f) = inputNumber ?p"
       "inputType (validateForecast ctor f) = inputType ?p"
    by (simp_all add: validateForecast_def checks_keep_number)
  show ?thesis
  proof (cases "trim_js (ffAmount f) = []")
    case True
    then have a: "?a = ?v0" by (simp add: checkAmount_def)
    show ?thesis
      using vp prov True unfolding eq a
      by (auto simp: checkPercent_def enteredValue_def invalid_def Let_def split: if_splits)
  next
    case False
    then have a: "?a = ?v0\<lparr>inputType := ''amount'',
          inputNumber := safeFloat (JStr (trim_js (ffAmount f))) (JNum NaN),
          valueFieldProvided := True\<rparr>"
      using va by (auto simp: checkAmount_def invalid_def Let_def split: if_splits)
    show ?thesis
      using vp False unfolding eq a
      by (auto simp: checkPercent_def enteredValue_def invalid_def Let_def split: if_splits)
  qed
qed

lemma valid_forecast_entered:
  assumes "isValid (validateForecast ctor f)"
  shows "\<exists>n. enteredValue f = JNum n \<and> n \<noteq> NaN"
proof -
  let ?v0 = "\<lparr>inputType = [], inputNumber = JNull, isValid = True,
               valueFieldProvided = False, errorText = []\<rparr>"
  let ?a = "checkAmount (trim_js (ffAmount f)) ?v0"
  let ?p = "checkPercent (trim_js (ffPercent f)) ?a"
  have vp: "isValid ?p"
    using assms checks_stay_invalid(2-4) unfolding validateForecast_def by blast
  have prov: "valueFieldProvided ?p"
    using assms checkProvided_valid checks_keep_provided unfolding validateForecast_def by metis
  have va: "isValid ?a"
    using vp checks_stay_invalid(1) by blast
  have cases: "safeFloat (JStr t) (JNum NaN) = JNum NaN
          \<or> (\<exists>n. safeFloat (JStr t) (JNum NaN) = JNum n \<and> n \<noteq> NaN)" for t
    by (auto simp: safeFloat_def Let_def isNaN_def toNumber_def)
  have num: "\<exists>n. safeFloat (JStr t) (JNum NaN) = JNum n \<and> n \<noteq> NaN"
    if "\<not> isNaN (safeFloat (JStr t) (JNum NaN))" for t
    using cases [of t] that by (auto simp: isNaN_def toNumber_def)
  show ?thesis
  proof (cases "trim_js (ffAmount f) = []")
    case True
    then have a: "?a = ?v0" by (simp add: checkAmount_def)
    have "\<not> isNaN (safeFloat (JStr (trim_js (ffPercent f))) (JNum NaN))"
      using vp prov unfolding a
      by (auto simp: checkPercent_def invalid_def Let_def split: if_splits)
    then show ?thesis using True num by (simp add: enteredValue_def)
  next
    case False
    have "\<not> isNaN (safeFloat (JStr (trim_js (ffAmount f))) (JNum NaN))"
      using va False by (auto simp: checkAmount_def invalid_def Let_def split: if_splits)
    then show ?thesis using False num by (simp add: enteredValue_def)
  qed
qed

lemma roundDouble_three_tenths:
  "roundDouble (3 / 10) = Fin (5404319552844595 / 18014398509481984)"
  by code_simp

lemma sentValue_jsonBody:
  assumes "map_of body k = Some v" and "v \<noteq> JUndefined"
  shows "sentValue (Request m u (jsonBody body)) k = Some (jsonValue v)"
  using assms by (induction body) (auto simp: sentValue_def jsonBody_def)

text \<open>
  C9. A request sent by \<open>handleAddForecastSubmit\<close> carries \<open>is_deduction\<close> as the checkbox
  says, and as \<open>forecast_input_value\<close>, with the checkbox checked, the product in doubles of
  the entered number and 0.30, and with the checkbox unchecked the entered number itself,
  for the amount and for the percent, as JSON writes them. For a finite entered number
  \<open>x\<close> the product is the double nearest to \<open>x\<close> times the double nearest to 3/10; an entered
  infinity is sent as \<open>null\<close>. The entered number is never \<open>NaN\<close>.
\<close>

theorem forecast_deduction_sent:
  assumes "handleAddForecastSubmit ctor f = Inr r"
  shows "sentValue r ''forecast_input_value''
           = Some (jsonValue
                     (if ffDeduct f
                      then JNum (num_mul (toNumber (enteredValue f)) (roundDouble (3 / 10)))
                      else enteredValue f))
       \<and> (\<forall>x. enteredValue f = JNum (Fin x) \<longrightarrow>
             sentValue r ''forecast_input_value''
               = Some (if ffDeduct f
                       then jsonValue
                              (JNum (roundDouble (x * (5404319552844595 / 18014398509481984))))
                       else JNum (Fin x)))
       \<and> (enteredValue f = JNum PosInf \<or> enteredValue f = JNum NegInf \<longrightarrow>
             sentValue r ''forecast_input_value'' = Some JNull)
       \<and> (\<exists>n. enteredValue f = JNum n \<and> n \<noteq> NaN)
       \<and> sentValue r ''is_deduction'' = Some (JBool (ffDeduct f))
       \<and> sentValue r ''forecast_input_type''
           = Some (JStr (if trim_js (ffAmount f) \<noteq> [] then ''amount'' else ''percent''))"
proof -
  have v: "isValid (validateForecast ctor f)"
    using assms by (auto simp: handleAddForecastSubmit_def Let_def split: if_splits)
  note n = valid_forecast_number [OF v]
  obtain e where e: "enteredValue f = JNum e" "e \<noteq> NaN"
    using valid_forecast_entered [OF v] by blast
  let ?sent = "if ffDeduct f
                then JNum (num_mul (toNumber (enteredValue f)) (roundDouble (3 / 10)))
                else enteredValue f"
  let ?body = "[(''project_id'', JNum (parseInt10 (ffProjectId f))),
               (''forecast_input_type'',
                  JStr (if trim_js (ffAmount f) \<noteq> [] then ''amount'' else ''percent'')),
               (''forecast_input_value'', ?sent),
               (''forecast_date'', JStr (ffDate f)),
               (''is_deduction'', JBool (ffDeduct f))]"
  have r: "r = Request ''POST'' ADD_FORECAST_API (jsonBody ?body)"
    using assms v n by (simp add: handleAddForecastSubmit_def Let_def)
  have u: "?sent \<noteq> JUndefined"
    using e by simp
  have 1: "sentValue r ''forecast_input_value'' = Some (jsonValue ?sent)"
    unfolding r using u by (intro sentValue_jsonBody) simp_all
  have 2: "sentValue r ''is_deduction'' = Some (JBool (ffDeduct f))"
    unfolding r using sentValue_jsonBody [of ?body "''is_deduction''" "JBool (ffDeduct f)"]
    by (simp add: jsonValue_def)
  have 3: "sentValue r ''forecast_input_type''
           = Some (JStr (if trim_js (ffAmount f) \<noteq> [] then ''amount'' else ''percent''))"
    unfolding r
    using sentValue_jsonBody [of ?body "''forecast_input_type''"
        "JStr (if trim_js (ffAmount f) \<noteq> [] then ''amount'' else ''percent'')"]
    by (simp add: jsonValue_def)
  have 4: "sentValue r ''forecast_input_value''
               = Some (if ffDeduct f
                       then jsonValue
                              (JNum (roundDouble (x * (5404319552844595 / 18014398509481984))))
                       else JNum (Fin x))"
    if x: "enteredValue f = JNum (Fin x)" for x
  proof -
    have "jsonValue ?sent
            = (if ffDeduct f
               then jsonValue (JNum (roundDouble (x * (5404319552844595 / 18014398509481984))))
               else JNum (Fin x))"
    proof (cases "ffDeduct f")
      case True
      then show ?thesis
        by (simp add: x toNumber_def num_mul_def roundDouble_three_tenths)
    next
      case False
      then show ?thesis
        by (simp add: x jsonValue_def)
    qed
    then show ?thesis
      using 1 by (simp only:)
  qed
  have 5: "sentValue r ''forecast_input_value'' = Some JNull"
    if "enteredValue f = JNum PosInf \<or> enteredValue f = JNum NegInf"
    using 1 that
    by (auto simp: toNumber_def num_mul_def roundDouble_three_tenths jsonValue_def num_sgn_def)
  show ?thesis
    using 1 2 3 4 5 e by blast
qed

lemma threeDeducted_sent:
  "handleAddForecastSubmit strictCtor threeDeducted
     = Inr (forecastRequest (JNum (Fin (2026619832316723 / 2251799813685248))) True)"
  "enteredValue threeDeducted = JNum (Fin 3)"
  by code_simp+

lemma infinityEntered_sent:
  "handleAddForecastSubmit strictCtor infinityEntered = Inr (forecastRequest JNull False)"
  "enteredValue infinityEntered = JNum PosInf"
  by code_simp+

lemma deductedForm_sent:
  "handleAddForecastSubmit strictCtor deductedForm
     = Inr (forecastRequest (JNum (Fin (2640147320615731 / 8796093022208))) True)"
  "roundDouble (30015 / 100) = Fin (2640147320615731 / 8796093022208)"
  by code_simp+

theorem forecast_deduction_sent_witness:
  "handleAddForecastSubmit strictCtor threeDeducted
     = Inr (forecastRequest (JNum (Fin (2026619832316723 / 2251799813685248))) True)
   \<and> enteredValue threeDeducted = JNum (Fin 3)
   \<and> sentValue (forecastRequest (JNum (Fin (2026619832316723 / 2251799813685248))) True)
        ''forecast_input_value''
       = Some (jsonValue (JNum (roundDouble (3 * (5404319552844595 / 18014398509481984)))))
   \<and> sentValue (forecastRequest (JNum (Fin (2026619832316723 / 2251799813685248))) True)
        ''is_deduction'' = Some (JBool True)
   \<and> handleAddForecastSubmit strictCtor infinityEntered = Inr (forecastRequest JNull False)
   \<and> enteredValue infinityEntered = JNum PosInf
   \<and> sentValue (forecastRequest JNull False) ''forecast_input_value'' = Some JNull"
proof -
  note three = forecast_deduction_sent [OF threeDeducted_sent(1)]
  note infinite = forecast_deduction_sent [OF infinityEntered_sent(1)]
  have d: "ffDeduct threeDeducted"
    by (simp add: threeDeducted_def)
  have 1: "sentValue (forecastRequest (JNum (Fin (2026619832316723 / 2251799813685248))) True)
             ''forecast_input_value''
           = Some (jsonValue (JNum (roundDouble (3 * (5404319552844595 / 18014398509481984)))))"
    using three [THEN conjunct2, THEN conjunct1, rule_format, OF threeDeducted_sent(2)]
    by (simp only: d if_True)
  have 2: "sentValue (forecastRequest (JNum (Fin (2026619832316723 / 2251799813685248))) True)
             ''is_deduction'' = Some (JBool True)"
    using three d by (simp only: simp_thms)
  have 3: "sentValue (forecastRequest JNull False) ''forecast_input_value'' = Some JNull"
    using infinite infinityEntered_sent(2) by blast
  show ?thesis
    using threeDeducted_sent infinityEntered_sent 1 2 3 by blast
qed

text \<open>
  Against the claim as stated: for the entered amount 3 with the deduction checked the
  value sent is 0.8999999999999999, the double below 0.9, and not 30 percent of 3; for the
  entered amount \<open>Infinity\<close> without the deduction the value sent is \<open>null\<close>, not the entered
  value.
\<close>

theorem thirty_percent_counterexample:
  "handleAddForecastSubmit strictCtor threeDeducted
     = Inr (forecastRequest (JNum (Fin (2026619832316723 / 2251799813685248))) True)
   \<and> enteredValue threeDeducted = JNum (Fin 3)
   \<and> sentValue (forecastRequest (JNum (Fin (2026619832316723 / 2251799813685248))) True)
        ''forecast_input_value''
       = Some (JNum (Fin (2026619832316723 / 2251799813685248)))
   \<and> (2026619832316723 / 2251799813685248 :: rat) < 3 * (3 / 10)
   \<and> handleAddForecastSubmit strictCtor infinityEntered = Inr (forecastRequest JNull False)
   \<and> enteredValue infinityEntered = JNum PosInf
   \<and> sentValue (forecastRequest JNull False) ''forecast_input_value'' = Some JNull
   \<and> sentValue (forecastRequest JNull False) ''forecast_input_value''
       \<noteq> Some (enteredValue infinityEntered)"
  by code_simp

text \<open>A form with one readable number, a project id and a date is sent.\<close>

lemma forecast_sent_when_valid:
  assumes "trim_js (ffAmount f) \<noteq> [] \<longleftrightarrow> trim_js (ffPercent f) = []"
      and "\<not> isNaN (enteredValue f)"
      and "ffProjectId f \<noteq> []" "\<not> isNaN (JNum (parseInt10 (ffProjectId f)))"
      and "ffDate f \<noteq> []" "parseDate ctor (JStr (ffDate f)) \<noteq> None"
  shows "\<exists>r. handleAddForecastSubmit ctor f = Inr r"
proof -
  have "isValid (validateForecast ctor f)"
    using assms
    by (auto simp: validateForecast_def checkAmount_def checkPercent_def checkProjectId_def
        checkDate_def checkProvided_def invalid_def enteredValue_def Let_def)
  then show ?thesis
    by (simp add: handleAddForecastSubmit_def Let_def)
qed

section \<open>Properties of inline editing\<close>

lemma singleEditor_same:
  assumes "cells st' = cells st" "currentlyEditingCell st' = currentlyEditingCell st"
  shows "singleEditor st' = singleEditor st"
  using assms by (simp add: singleEditor_def inEditMode_def)

lemma frame_displayFeedback [simp]:
  "cells (displayFeedback m t st) = cells st"
  "currentlyEditingCell (displayFeedback m t st) = currentlyEditingCell st"
  by (simp_all add: displayFeedback_def)

lemma frame_clearFeedback [simp]:
  "cells (clearFeedback st) = cells st"
  "currentlyEditingCell (clearFeedback st) = currentlyEditingCell st"
  by (simp_all add: clearFeedback_def)

lemma frame_issue [simp]:
  "cells (issue r st) = cells st"
  "currentlyEditingCell (issue r st) = currentlyEditingCell st"
  by (simp_all add: issue_def)

lemma frame_render [simp]:
  "cells (renderActiveTable ctor st) = cells st"
  "currentlyEditingCell (renderActiveTable ctor st) = currentlyEditingCell st"
  "cells (renderCompletedTable ctor st) = cells st"
  "currentlyEditingCell (renderCompletedTable ctor st) = currentlyEditingCell st"
  by (simp_all add: renderActiveTable_def renderCompletedTable_def)

lemma frame_sortHeaderClicked [simp]:
  "cells (sortHeaderClicked ctor t k st) = cells st"
  "currentlyEditingCell (sortHeaderClicked ctor t k st) = currentlyEditingCell st"
  by (simp_all add: sortHeaderClicked_def Let_def)

lemma frame_fetch [simp]:
  "cells (fetchActiveProjects st) = cells st"
  "currentlyEditingCell (fetchActiveProjects st) = currentlyEditingCell st"
  "cells (fetchCompletedProjects st) = cells st"
  "currentlyEditingCell (fetchCompletedProjects st) = currentlyEditingCell st"
  "cells (fetchDashboardData st) = cells st"
  "currentlyEditingCell (fetchDashboardData st) = currentlyEditingCell st"
  by (simp_all add: fetchActiveProjects_def fetchCompletedProjects_def fetchDashboardData_def)

lemma frame_fetch_resume [simp]:
  "cells (fetchActiveProjects_resume ctor a st) = cells st"
  "currentlyEditingCell (fetchActiveProjects_resume ctor a st) = currentlyEditingCell st"
  "cells (fetchCompletedProjects_resume ctor a st) = cells st"
  "currentlyEditingCell (fetchCompletedProjects_resume ctor a st) = currentlyEditingCell st"
  by (simp_all add: fetchActiveProjects_resume_def fetchCompletedProjects_resume_def
      split: apiResult.split)

lemma frame_openEditModal [simp]:
  "cells (openEditModal i st) = cells st"
  "currentlyEditingCell (openEditModal i st) = currentlyEditingCell st"
  by (simp_all add: openEditModal_def Let_def split: option.split)

lemma frame_export [simp]:
  "cells (exportActiveToCSV ctor st) = cells st"
  "currentlyEditingCell (exportActiveToCSV ctor st) = currentlyEditingCell st"
  "cells (exportCompletedToCSV ctor st) = cells st"
  "currentlyEditingCell (exportCompletedToCSV ctor st) = currentlyEditingCell st"
  by (simp_all add: exportActiveToCSV_def exportCompletedToCSV_def exportToCSV_def)

lemma updateCell_simps [simp]:
  "cells (updateCell c f st) = (cells st)(c := f (cells st c))"
  "currentlyEditingCell (updateCell c f st) = currentlyEditingCell st"
  by (simp_all add: updateCell_def)

lemma singleEditor_makeCellEditable:
  "singleEditor st \<Longrightarrow> singleEditor (makeCellEditable c st)"
  by (auto simp: singleEditor_def inEditMode_def makeCellEditable_def Let_def isInput_def
      split: option.splits if_splits)

lemma singleEditor_typeInto:
  "singleEditor st \<Longrightarrow> singleEditor (typeInto c s st)"
  by (auto simp: singleEditor_def inEditMode_def typeInto_def isInput_def
      split: content.splits if_splits)

lemma saveEdit_effect:
  "currentlyEditingCell st \<noteq> Some c \<Longrightarrow> saveEdit ed c st = (st, None)"
  "currentlyEditingCell st = Some c \<Longrightarrow>
     currentlyEditingCell (fst (saveEdit ed c st)) = None
     \<and> (\<exists>t. content (cells (fst (saveEdit ed c st)) c) = Text t)
     \<and> (\<forall>c'. c' \<noteq> c \<longrightarrow> cells (fst (saveEdit ed c st)) c' = cells st c')"
  by (simp_all add: saveEdit_def Let_def)

lemma singleEditor_saveEdit:
  assumes "singleEditor st"
  shows "singleEditor (fst (saveEdit ed c st))"
proof (cases "currentlyEditingCell st = Some c")
  case False
  then show ?thesis using assms by (simp add: saveEdit_effect(1))
next
  case True
  note e = saveEdit_effect(2) [OF True, of ed]
  show ?thesis
    unfolding singleEditor_def inEditMode_def
  proof (intro allI impI)
    fix c'
    assume i: "isInput (content (cells (fst (saveEdit ed c st)) c'))"
    then have "c' \<noteq> c" using e by (auto simp: isInput_def)
    then have "isInput (content (cells st c'))" using i e by simp
    then have "currentlyEditingCell st = Some c'"
      using assms by (simp add: singleEditor_def inEditMode_def)
    with True \<open>c' \<noteq> c\<close> show "currentlyEditingCell (fst (saveEdit ed c st)) = Some c'" by simp
  qed
qed

lemma isInput_updateCell_Text:
  "isInput (content (cells (updateCell c (\<lambda>cl. cl\<lparr>content := Text (t cl)\<rparr>) st) c'))
     \<Longrightarrow> isInput (content (cells st c'))"
  by (cases "c' = c") (simp_all add: isInput_def)

lemma content_restyle:
  "content (cells (updateCell c (\<lambda>cl. cl\<lparr>editableClass := b\<rparr>) st) c') = content (cells st c')"
  by simp

lemma saveEdit_resume_lock:
  "currentlyEditingCell (saveEdit_resume p a st) = currentlyEditingCell st"
  by (simp add: saveEdit_resume_def Let_def split: apiResult.split option.split)

lemma saveEdit_resume_effect:
  "currentlyEditingCell (saveEdit_resume p a st) = currentlyEditingCell st"
  "isInput (content (cells (saveEdit_resume p a st) c)) \<Longrightarrow> isInput (content (cells st c))"
proof -
  show "currentlyEditingCell (saveEdit_resume p a st) = currentlyEditingCell st"
    by (rule saveEdit_resume_lock)
  assume i: "isInput (content (cells (saveEdit_resume p a st) c))"
  show "isInput (content (cells st c))"
  proof (cases a)
    case (ApiOk u)
    have e: "cells (saveEdit_resume p a st)
       = cells (updateCell (psCell p) (\<lambda>cl. cl\<lparr>editableClass := True\<rparr>)
           (updateCell (psCell p) (\<lambda>cl. cl\<lparr>content := Text ((\<lambda>_. psDisplayValue p) cl)\<rparr>) st))"
      using ApiOk by (simp add: saveEdit_resume_def Let_def split: option.split)
    have "isInput (content (cells
        (updateCell (psCell p) (\<lambda>cl. cl\<lparr>content := Text ((\<lambda>_. psDisplayValue p) cl)\<rparr>) st) c))"
      using i unfolding e content_restyle .
    then show ?thesis by (rule isInput_updateCell_Text)
  next
    case (ApiError m)
    show ?thesis
    proof (cases "m = ''Unauthorized''")
      case True
      then have e: "cells (saveEdit_resume p a st)
          = cells (updateCell (psCell p) (\<lambda>cl. cl\<lparr>editableClass := True\<rparr>) st)"
        using ApiError by (simp add: saveEdit_resume_def Let_def)
      show ?thesis using i unfolding e content_restyle .
    next
      case False
      then have e: "cells (saveEdit_resume p a st)
         = cells (updateCell (psCell p) (\<lambda>cl. cl\<lparr>editableClass := True\<rparr>)
           (updateCell (psCell p)
              (\<lambda>cl. cl\<lparr>content := Text ((\<lambda>cl. if psFieldKey p = ''status''
                                      then formatPercent (psOriginalValue p) ''N/A''
                                      else (case dataOriginalValue cl of None \<Rightarrow> [] | Some v \<Rightarrow> v)) cl)\<rparr>) st))"
        using ApiError by (simp add: saveEdit_resume_def Let_def)
      have "isInput (content (cells
          (updateCell (psCell p)
              (\<lambda>cl. cl\<lparr>content := Text ((\<lambda>cl. if psFieldKey p = ''status''
                                      then formatPercent (psOriginalValue p) ''N/A''
                                      else (case dataOriginalValue cl of None \<Rightarrow> [] | Some v \<Rightarrow> v)) cl)\<rparr>) st) c))"
        using i unfolding e content_restyle .
      then show ?thesis by (rule isInput_updateCell_Text)
    qed
  qed
qed

lemma singleEditor_saveEdit_resume:
  "singleEditor st \<Longrightarrow> singleEditor (saveEdit_resume p a st)"
  using saveEdit_resume_effect [of p a st]
  by (auto simp: singleEditor_def inEditMode_def)

lemma singleEditor_cancelEdit:
  "singleEditor st \<Longrightarrow> singleEditor (cancelEdit c shown st)"
  by (auto simp: singleEditor_def inEditMode_def cancelEdit_def isInput_def split: if_splits)

lemma singleEditor_keyEnter:
  "singleEditor st \<Longrightarrow> singleEditor (fst (keyEnter c st))"
  by (simp add: keyEnter_def singleEditor_saveEdit split: content.split)

lemma singleEditor_blurTimeout:
  "singleEditor st \<Longrightarrow> singleEditor (fst (blurTimeout c ed st))"
  by (simp add: blurTimeout_def singleEditor_saveEdit)

lemma singleEditor_keyEscape:
  "singleEditor st \<Longrightarrow> singleEditor (keyEscape c st)"
  by (simp add: keyEscape_def singleEditor_cancelEdit split: content.split)

lemma singleEditor_editModalClosed:
  assumes "singleEditor st"
  shows "singleEditor (editModalClosed st)"
proof -
  have "singleEditor (st\<lparr>editModalOpen := False\<rparr>)"
    using assms by (simp add: singleEditor_def inEditMode_def)
  then show ?thesis
    by (simp add: editModalClosed_def Let_def singleEditor_cancelEdit split: option.split)
qed

lemma fst_sent:
  "fst (case r of (st', None) \<Rightarrow> (st', pending) | (st', Some p) \<Rightarrow> (st', pending @ [p])) = fst r"
  by (cases r) (simp split: option.split)

lemma singleEditor_others:
  "singleEditor (sortHeaderClicked ctor t k st) = singleEditor st"
  "singleEditor (openEditModal i st) = singleEditor st"
  "singleEditor (exportActiveToCSV ctor st) = singleEditor st"
  "singleEditor (exportCompletedToCSV ctor st) = singleEditor st"
  "singleEditor (fetchActiveProjects st) = singleEditor st"
  "singleEditor (fetchCompletedProjects st) = singleEditor st"
  "singleEditor (fetchActiveProjects_resume ctor a st) = singleEditor st"
  "singleEditor (fetchCompletedProjects_resume ctor a st) = singleEditor st"
  by (rule singleEditor_same; simp)+

lemma singleEditor_step:
  assumes "singleEditor st"
  shows "singleEditor (fst (step ctor ev (st, pending)))"
proof (cases ev)
  case (DblClick c)
  then show ?thesis using assms by (simp add: step_def singleEditor_makeCellEditable)
next
  case (Typed c t)
  then show ?thesis using assms by (simp add: step_def singleEditor_typeInto)
next
  case (KeyEnter c)
  then show ?thesis using assms by (simp add: step_def fst_sent singleEditor_keyEnter)
next
  case (KeyEscape c)
  then show ?thesis using assms by (simp add: step_def singleEditor_keyEscape)
next
  case (BlurTimeout c ed)
  then show ?thesis using assms by (simp add: step_def fst_sent singleEditor_blurTimeout)
next
  case EditModalClosed
  then show ?thesis using assms by (simp add: step_def singleEditor_editModalClosed)
next
  case (SaveAnswered i a)
  then show ?thesis using assms by (simp add: step_def singleEditor_saveEdit_resume)
next
  case (HeaderClicked t k)
  then show ?thesis using assms by (simp add: step_def singleEditor_others)
next
  case (EditClicked i)
  then show ?thesis using assms by (simp add: step_def singleEditor_others)
next
  case ExportActiveClicked
  then show ?thesis using assms by (simp add: step_def singleEditor_others)
next
  case ExportCompletedClicked
  then show ?thesis using assms by (simp add: step_def singleEditor_others)
next
  case FetchActive
  then show ?thesis using assms by (simp add: step_def singleEditor_others)
next
  case FetchCompleted
  then show ?thesis using assms by (simp add: step_def singleEditor_others)
next
  case (ActiveAnswered a)
  then show ?thesis using assms by (simp add: step_def singleEditor_others)
next
  case (CompletedAnswered a)
  then show ?thesis using assms by (simp add: step_def singleEditor_others)
qed

lemma singleEditor_run:
  "singleEditor (fst s) \<Longrightarrow> singleEditor (fst (run ctor evs s))"
proof (induction evs arbitrary: s)
  case Nil
  then show ?case by (simp add: run_def)
next
  case (Cons ev evs)
  obtain st pending where s: "s = (st, pending)" by (cases s)
  have "singleEditor (fst (step ctor ev s))"
    using Cons.prems singleEditor_step unfolding s by simp
  then have "singleEditor (fst (run ctor evs (step ctor ev s)))" by (rule Cons.IH)
  then show ?case by (simp add: run_def)
qed

lemma makeCellEditable_locked:
  "currentlyEditingCell st = Some e \<Longrightarrow> currentlyEditingCell (makeCellEditable c st) = Some e"
  by (simp add: makeCellEditable_def)

lemma makeCellEditable_refuses:
  "currentlyEditingCell st = Some e \<Longrightarrow> e \<noteq> c \<Longrightarrow>
     makeCellEditable c st = displayFeedback ''Please save or cancel the other edit first.'' ''warning'' st"
  by (simp add: makeCellEditable_def)

lemma typeInto_lock: "currentlyEditingCell (typeInto c s st) = currentlyEditingCell st"
  by (simp add: typeInto_def split: content.split)

lemma saveEdit_other_lock:
  "currentlyEditingCell st = Some e \<Longrightarrow> c \<noteq> e \<Longrightarrow>
     currentlyEditingCell (fst (saveEdit ed c st)) = Some e"
  by (simp add: saveEdit_effect(1))

lemma cancelEdit_other_lock:
  "currentlyEditingCell st = Some e \<Longrightarrow> c \<noteq> e \<Longrightarrow>
     currentlyEditingCell (cancelEdit c shown st) = Some e"
  by (simp add: cancelEdit_def)

text \<open>The lock is given up only by the events that call \<open>saveEdit\<close> or \<open>cancelEdit\<close>.\<close>

lemma lock_released_by:
  assumes "currentlyEditingCell st = Some e"
      and "currentlyEditingCell (fst (step ctor ev (st, pending))) \<noteq> Some e"
  shows "ev = KeyEnter e \<or> (\<exists>ed. ev = BlurTimeout e ed) \<or> ev = KeyEscape e \<or> ev = EditModalClosed"
proof (cases ev)
  case (DblClick c)
  then show ?thesis using assms by (auto simp: step_def makeCellEditable_locked split: if_splits)
next
  case (Typed c t)
  then show ?thesis using assms by (simp add: step_def typeInto_lock)
next
  case (KeyEnter c)
  then show ?thesis
    using assms saveEdit_other_lock [of st e c]
    by (cases "c = e") (auto simp: step_def fst_sent keyEnter_def split: content.splits)
next
  case (KeyEscape c)
  then show ?thesis
    using assms cancelEdit_other_lock [of st e c]
    by (cases "c = e") (auto simp: step_def keyEscape_def split: content.splits)
next
  case (BlurTimeout c ed)
  then show ?thesis
    using assms saveEdit_other_lock [of st e c]
    by (cases "c = e") (auto simp: step_def fst_sent blurTimeout_def)
next
  case (SaveAnswered i a)
  then show ?thesis using assms by (auto simp: step_def saveEdit_resume_lock split: if_splits)
qed (use assms in \<open>simp_all add: step_def\<close>)

text \<open>
  C8. On a page where only the cell named by \<open>currentlyEditingCell\<close> can be in edit mode,
  this stays so after any sequence of events, hence two cells are never in edit mode
  together; \<open>makeCellEditable\<close> on a cell other than the one named by the lock changes
  nothing but the feedback, which shows the warning; and an event after which the lock no
  longer names its cell is one that calls \<open>saveEdit\<close> (\<open>Enter\<close>, \<open>blur\<close>) or \<open>cancelEdit\<close>
  (\<open>Escape\<close>, closing the edit modal).
\<close>

theorem single_editor_invariant:
  assumes "singleEditor st"
  shows "singleEditor (fst (run ctor evs (st, pending)))
       \<and> (\<forall>c c'. inEditMode (fst (run ctor evs (st, pending))) c
                 \<and> inEditMode (fst (run ctor evs (st, pending))) c' \<longrightarrow> c = c')
       \<and> (\<forall>e c. currentlyEditingCell st = Some e \<and> e \<noteq> c \<longrightarrow>
             makeCellEditable c st
               = displayFeedback ''Please save or cancel the other edit first.'' ''warning'' st)
       \<and> (\<forall>e ev. currentlyEditingCell st = Some e
                 \<and> currentlyEditingCell (fst (step ctor ev (st, pending))) \<noteq> Some e \<longrightarrow>
             ev = KeyEnter e \<or> (\<exists>ed. ev = BlurTimeout e ed) \<or> ev = KeyEscape e
             \<or> ev = EditModalClosed)"
proof -
  have inv: "singleEditor (fst (run ctor evs (st, pending)))"
    using assms singleEditor_run [of "(st, pending)" ctor evs] by simp
  then have "\<forall>c c'. inEditMode (fst (run ctor evs (st, pending))) c
                 \<and> inEditMode (fst (run ctor evs (st, pending))) c' \<longrightarrow> c = c'"
    unfolding singleEditor_def by (metis option.inject)
  with inv show ?thesis
    using makeCellEditable_refuses lock_released_by by blast
qed


lemma singleEditor_statusPage: "singleEditor statusPage"
  by (simp add: singleEditor_def inEditMode_def statusPage_def isInput_def)

lemma twoDoubleClicks_cells:
  "currentlyEditingCell twoDoubleClicks = Some 0"
  "inEditMode twoDoubleClicks 0"
  "\<not> inEditMode twoDoubleClicks 1"
  "feedback twoDoubleClicks = Some (''Please save or cancel the other edit first.'', ''warning'')"
  by (simp_all add: twoDoubleClicks_def run_def step_def statusPage_def makeCellEditable_def
      updateCell_def displayFeedback_def inEditMode_def isInput_def Let_def
      fetchActiveProjects_resume_def renderActiveTable_def initialPage_def)

theorem single_editor_invariant_witness:
  "singleEditor statusPage
   \<and> singleEditor twoDoubleClicks
   \<and> inEditMode twoDoubleClicks 0 \<and> \<not> inEditMode twoDoubleClicks 1
   \<and> feedback twoDoubleClicks = Some (''Please save or cancel the other edit first.'', ''warning'')"
  using single_editor_invariant [OF singleEditor_statusPage, of strictCtor "[DblClick 0, DblClick 1]" "[]",
      folded twoDoubleClicks_def]
    singleEditor_statusPage twoDoubleClicks_cells
  by simp

subsection \<open>Saving an edit\<close>

lemma saveEdit_sent:
  assumes "saveEdit ed c st = (st', Some p)"
  shows "content (cells st' c) = Text ''Saving...''"
    and "psCell p = c"
    and "psFieldKey p = ''status''"
    and "psOriginalValue p = originalNumericValue ed"
    and "psDisplayValue p = formatPercent (safeFloat (JStr (trim_js (inputValue ed))) (JNum NaN)) ''N/A''"
    and "requests st' = requests st
           @ [Request ''PUT'' (UPDATE_PROJECT_API (edProjectId ed))
                [(''status'', safeFloat (JStr (trim_js (inputValue ed))) (JNum NaN))]]"
  using assms
  by (auto simp: saveEdit_def Let_def issue_def updateCell_def split: if_splits)

lemma saveEdit_resume_ok:
  "content (cells (saveEdit_resume p (ApiOk u) st) (psCell p)) = Text (psDisplayValue p)"
  by (simp add: saveEdit_resume_def Let_def split: option.split)

lemma saveEdit_resume_error:
  assumes "message \<noteq> ''Unauthorized''" "psFieldKey p = ''status''"
  shows "content (cells (saveEdit_resume p (ApiError message) st) (psCell p))
           = Text (formatPercent (psOriginalValue p) ''N/A'')"
    and "feedback (saveEdit_resume p (ApiError message) st)
           = Some (''Error updating status: '' @ message, ''error'')"
  using assms by (simp_all add: saveEdit_resume_def Let_def displayFeedback_def updateCell_def)

lemma saveEditedMrfItem_sent:
  assumes "saveEditedMrfItem b c newValue st = (st', Some q)"
  shows "mrfCells st' = mrfCells st"
    and "pmCell q = c"
    and "pmOriginalValue q = mrfTextContent (mrfCells st c)"
    and "\<not> holdsDateInput (mrfCells st c) \<longrightarrow> pmDisplayValue q = newValue"
    and "mrfRequests st' \<noteq> mrfRequests st"
  using assms by (auto simp: saveEditedMrfItem_def Let_def split: if_splits)

lemma saveEditedMrfItem_resume_ok:
  "mrfContent (mrfCells (saveEditedMrfItem_resume q MrfOk st) (pmCell q)) = MrfText (pmDisplayValue q)"
  by (simp add: saveEditedMrfItem_resume_def updateMrfCell_def)

lemma saveEditedMrfItem_resume_failed:
  "mrfContent (mrfCells (saveEditedMrfItem_resume q (MrfFailed message) st) (pmCell q))
     = MrfText (pmOriginalValue q)"
  "mrfAlerts (saveEditedMrfItem_resume q (MrfFailed message) st)
     = mrfAlerts st @ [''Failed to save changes: '' @ message]"
  by (simp_all add: saveEditedMrfItem_resume_def updateMrfCell_def)

text \<open>
  C2. The new value is written into the cell only after the request has succeeded. When
  \<open>saveEdit\<close> sends the request, the cell shows \<open>Saving...\<close> while the request is pending, and
  the formatted new value once the answer is a success. When \<open>saveEditedMrfItem\<close> sends the
  request, the cell is left as it is, still holding the edit control, and its text becomes the
  new value once the answer is a success.
\<close>

theorem value_shown_after_success:
  "(saveEdit ed c st = (st', Some p) \<longrightarrow>
      content (cells st' c) = Text ''Saving...''
      \<and> psDisplayValue p = formatPercent (safeFloat (JStr (trim_js (inputValue ed))) (JNum NaN)) ''N/A''
      \<and> content (cells (saveEdit_resume p (ApiOk u) st'') c) = Text (psDisplayValue p))
   \<and> (saveEditedMrfItem b k newValue ms = (ms', Some q) \<longrightarrow>
      mrfCells ms' = mrfCells ms
      \<and> (\<not> holdsDateInput (mrfCells ms k) \<longrightarrow> pmDisplayValue q = newValue)
      \<and> mrfContent (mrfCells (saveEditedMrfItem_resume q MrfOk ms'') k) = MrfText (pmDisplayValue q))"
  using saveEdit_sent(1,2,5) [of ed c st st' p] saveEdit_resume_ok [of p u st'']
    saveEditedMrfItem_sent(1,2,4) [of b k newValue ms ms' q] saveEditedMrfItem_resume_ok [of q ms'']
  by auto

lemma eightySaving_value:
  "snd eightySaving \<noteq> None"
  "content (cells (fst eightySaving) 0) = Text ''Saving...''"
  "requests (fst eightySaving) = [Request ''PUT'' ''/api/projects/7'' [(''status'', JNum (Fin 80))]]"
  "map_option psDisplayValue (snd eightySaving) = Some ''80.0%''"
  by code_simp+

lemma eightyTyped_input: "content (cells eightyTyped 0) = Input eightyInput"
  by code_simp

lemma eightySaving_saveEdit:
  "saveEdit eightyInput 0 eightyTyped = (fst eightySaving, Some (the (snd eightySaving)))"
proof -
  have "eightySaving = saveEdit eightyInput 0 eightyTyped"
    by (simp add: eightySaving_def keyEnter_def eightyTyped_input)
  then show ?thesis
    using eightySaving_value(1) by (cases "saveEdit eightyInput 0 eightyTyped") auto
qed

lemma valveSaving_value:
  "snd valveSaving \<noteq> None"
  "map_option pmDisplayValue (snd valveSaving) = Some ''V-200''"
  "mrfContent (mrfCells valveEdited 4) = MrfControl (InputEl ''text'' ''V-200'')"
  "mrfContent (mrfCells (fst valveSaving) 4) = MrfControl (InputEl ''text'' ''V-200'')"
  "mrfRequests (fst valveSaving)
     = [Request ''PUT'' ''/api/mrf_items'' [(''id'', JStr ''12''), (''part_no'', JStr ''V-200'')]]"
  by code_simp+

lemma valveSaving_save:
  "saveEditedMrfItem plainBrowser 4 ''V-200'' valveEdited
     = (fst valveSaving, Some (the (snd valveSaving)))"
proof -
  have "valveSaving = saveEditedMrfItem plainBrowser 4 ''V-200'' valveEdited"
    by (simp add: valveSaving_def controlBlurred_def valveSaving_value(3) controlValue_def)
  then show ?thesis
    using valveSaving_value(1)
    by (cases "saveEditedMrfItem plainBrowser 4 ''V-200'' valveEdited") auto
qed

theorem value_shown_after_success_witness:
  "saveEdit eightyInput 0 eightyTyped = (fst eightySaving, Some (the (snd eightySaving)))
   \<and> content (cells (fst eightySaving) 0) = Text ''Saving...''
   \<and> content (cells (saveEdit_resume (the (snd eightySaving)) (ApiOk None) (fst eightySaving)) 0)
       = Text ''80.0%''
   \<and> saveEditedMrfItem plainBrowser 4 ''V-200'' valveEdited
       = (fst valveSaving, Some (the (snd valveSaving)))
   \<and> mrfContent (mrfCells (saveEditedMrfItem_resume (the (snd valveSaving)) MrfOk (fst valveSaving)) 4)
       = MrfText ''V-200''"
proof -
  have d: "psDisplayValue (the (snd eightySaving)) = ''80.0%''"
    using eightySaving_value(1,4) by auto
  have e: "pmDisplayValue (the (snd valveSaving)) = ''V-200''"
    using valveSaving_value(1,2) by auto
  show ?thesis
    using value_shown_after_success [of eightyInput 0 eightyTyped "fst eightySaving"
        "the (snd eightySaving)" None "fst eightySaving" plainBrowser 4 "''V-200''" valveEdited
        "fst valveSaving" "the (snd valveSaving)" "fst valveSaving"]
      eightySaving_saveEdit valveSaving_save d e
    by simp
qed

text \<open>
  Against the claim as stated: the user replaces 75 by 80 in the status cell of project 7 and
  presses \<open>Enter\<close>. The request is out and not answered, and the cell shows \<open>Saving...\<close>, not
  the new value \<open>80.0%\<close>.
\<close>

theorem optimistic_update_counterexample:
  "requests (fst eightySaving) = [Request ''PUT'' ''/api/projects/7'' [(''status'', JNum (Fin 80))]]
   \<and> map_option psDisplayValue (snd eightySaving) = Some ''80.0%''
   \<and> content (cells (fst eightySaving) 0) = Text ''Saving...''"
  by (simp add: eightySaving_value)

lemma makeCellEditable_original:
  assumes "content (cells st c) = Text shown" "dataField (cells st c) = ''status''"
      and "currentlyEditingCell st = None"
  shows "\<exists>ed. content (cells (makeCellEditable c st) c) = Input ed
            \<and> originalNumericValue ed = safeFloat (JStr (trim_js shown)) (JNum (Fin 0))"
  using assms by (simp add: makeCellEditable_def Let_def textContent_def)

text \<open>
  C3. When the request of an inline edit fails, the handler shows the message and puts a
  text back into the cell. After an error other than \<open>Unauthorized\<close>, \<open>saveEdit\<close> displays
  \<open>Error updating status\<close> with the message and sets the cell to the percentage of the
  original number, which \<open>makeCellEditable\<close> read from the text that the cell showed before
  the edit. \<open>saveEditedMrfItem\<close> alerts the message and sets the cell to the text held in its
  variable \<open>originalValue\<close>.
\<close>

theorem failed_save_reverts:
  "(message \<noteq> ''Unauthorized'' \<and> saveEdit ed c st = (st', Some p) \<longrightarrow>
      content (cells (saveEdit_resume p (ApiError message) st'') c)
        = Text (formatPercent (originalNumericValue ed) ''N/A'')
      \<and> feedback (saveEdit_resume p (ApiError message) st'')
        = Some (''Error updating status: '' @ message, ''error''))
   \<and> (content (cells st c) = Text shown \<and> dataField (cells st c) = ''status''
        \<and> currentlyEditingCell st = None \<longrightarrow>
      (\<exists>ed'. content (cells (makeCellEditable c st) c) = Input ed'
            \<and> originalNumericValue ed' = safeFloat (JStr (trim_js shown)) (JNum (Fin 0))))
   \<and> (saveEditedMrfItem b k newValue ms = (ms', Some q) \<longrightarrow>
      mrfContent (mrfCells (saveEditedMrfItem_resume q (MrfFailed message) ms'') k)
        = MrfText (pmOriginalValue q)
      \<and> mrfAlerts (saveEditedMrfItem_resume q (MrfFailed message) ms'')
        = mrfAlerts ms'' @ [''Failed to save changes: '' @ message])"
  using saveEdit_sent(2,3,4) [of ed c st st' p] saveEdit_resume_error [of message p st'']
    makeCellEditable_original [of st c shown]
    saveEditedMrfItem_sent(2) [of b k newValue ms ms' q]
    saveEditedMrfItem_resume_failed [of q message ms'']
  by auto

lemma eightyFailed_value:
  "content (cells statusPage 0) = Text ''75.0%''"
  "dataField (cells statusPage 0) = ''status''"
  "currentlyEditingCell statusPage = None"
  "content (cells eightyFailed 0) = Text ''75.0%''"
  "feedback eightyFailed = Some (''Error updating status: Internal Server Error'', ''error'')"
  by code_simp+

theorem failed_save_reverts_witness:
  "saveEdit eightyInput 0 eightyTyped = (fst eightySaving, Some (the (snd eightySaving)))
   \<and> content (cells (saveEdit_resume (the (snd eightySaving)) (ApiError ''Internal Server Error'')
                       (fst eightySaving)) 0) = Text ''75.0%''
   \<and> content (cells statusPage 0) = Text ''75.0%'' \<and> dataField (cells statusPage 0) = ''status''
   \<and> currentlyEditingCell statusPage = None
   \<and> (\<exists>ed'. content (cells (makeCellEditable 0 statusPage) 0) = Input ed'
            \<and> originalNumericValue ed' = safeFloat (JStr (trim_js ''75.0%'')) (JNum (Fin 0)))
   \<and> saveEditedMrfItem plainBrowser 4 ''V-200'' valveEdited
       = (fst valveSaving, Some (the (snd valveSaving)))
   \<and> mrfAlerts (saveEditedMrfItem_resume (the (snd valveSaving)) (MrfFailed ''Failed to update item'')
                   (fst valveSaving)) = [''Failed to save changes: Failed to update item'']"
proof -
  have f: "formatPercent (originalNumericValue eightyInput) ''N/A'' = ''75.0%''" by code_simp
  have a: "mrfAlerts (fst valveSaving) = []" by code_simp
  have m: "''Internal Server Error'' \<noteq> ''Unauthorized''" by simp
  show ?thesis
    using failed_save_reverts [where message = "''Internal Server Error''" and ed = eightyInput
        and c = 0 and st = eightyTyped and st' = "fst eightySaving" and p = "the (snd eightySaving)"
        and st'' = "fst eightySaving"]
      failed_save_reverts [where message = "''Failed to update item''" and c = 0 and st = statusPage
        and shown = "''75.0%''" and b = plainBrowser and k = 4 and newValue = "''V-200''"
        and ms = valveEdited and ms' = "fst valveSaving" and q = "the (snd valveSaving)"
        and ms'' = "fst valveSaving"]
      eightySaving_saveEdit valveSaving_save eightyFailed_value(1-3) f a m
    by simp
qed

text \<open>
  Against the claim as stated: the cell of project 7 shows \<open>75.0%\<close>, the user enters 80, and
  the request fails with \<open>Internal Server Error\<close>. The error is displayed and the cell shows
  \<open>75.0%\<close> again, the value it displayed before the edit began.
\<close>

theorem no_recovery_counterexample:
  "content (cells statusPage 0) = Text ''75.0%''
   \<and> content (cells eightyFailed 0) = Text ''75.0%''
   \<and> feedback eightyFailed = Some (''Error updating status: Internal Server Error'', ''error'')"
  by (simp add: eightyFailed_value)

section \<open>Properties of the retained project data\<close>

lemma requests_openEditModal: "requests (openEditModal i st) = requests st"
  by (simp add: openEditModal_def Let_def clearFeedback_def displayFeedback_def split: option.split)

lemma requests_exportToCSV: "requests (exportToCSV ctor rows prefix st) = requests st"
  by (simp add: exportToCSV_def displayFeedback_def)

lemma openEditModal_found:
  assumes "find (\<lambda>p. strictEq (getProp p ''id'') (JNum i)) (currentProjectsData st) = Some project"
  shows "map_of (editForm (openEditModal i st)) ''edit-project_name''
           = Some (String_js (orElse (getProp project ''project_name'') (JStr [])))"
  using assms
  by (simp add: openEditModal_def Let_def clearFeedback_def split: option.split)

lemma openEditModal_filled:
  assumes "find (\<lambda>p. strictEq (getProp p ''id'') (JNum i)) (currentProjectsData st) = Some project
           \<or> find (\<lambda>p. strictEq (getProp p ''id'') (JNum i)) (currentProjectsData st) = None
             \<and> find (\<lambda>p. strictEq (getProp p ''id'') (JNum i)) (currentCompletedProjectsData st)
                 = Some project"
    and "datePart (getProp project ''po_date'') = Some po"
    and "datePart (getProp project ''date_completed'') = Some completed"
  shows "editForm (openEditModal i st)
           = [(''edit-project_name'', String_js (orElse (getProp project ''project_name'') (JStr []))),
              (''edit-project_no'', String_js (orElse (getProp project ''project_no'') (JStr []))),
              (''edit-client'', String_js (orElse (getProp project ''client'') (JStr []))),
              (''edit-amount'', String_js (nullish (getProp project ''amount'') (JStr []))),
              (''edit-status'', String_js (nullish (getProp project ''status'') (JStr []))),
              (''edit-po_date'', po),
              (''edit-po_no'', String_js (orElse (getProp project ''po_no'') (JStr []))),
              (''edit-date_completed'', completed),
              (''edit-pic'', String_js (orElse (getProp project ''pic'') (JStr []))),
              (''edit-address'', String_js (orElse (getProp project ''address'') (JStr []))),
              (''edit-ds'', String_js (orElse (getProp project ''ds'') (JStr []))),
              (''edit-year'', String_js (nullish (getProp project ''year'') (JStr [])))]"
    and "editModalOpen (openEditModal i st)"
  using assms
  by (auto simp: openEditModal_def Let_def clearFeedback_def)

text \<open>
  C7. The front end keeps the rows of the last fetch: the answers to \<open>fetchActiveProjects\<close>
  and \<open>fetchCompletedProjects\<close> are stored in \<open>currentProjectsData\<close> and
  \<open>currentCompletedProjectsData\<close>. \<open>openEditModal\<close> looks the project up in the first array
  and then in the second and fills the twelve fields of the edit form from the row found;
  \<open>exportActiveToCSV\<close> and \<open>exportCompletedToCSV\<close> write the CSV text of the stored arrays.
  None of the three issues a request.
\<close>

theorem project_data_read_from_store:
  "currentProjectsData (fetchActiveProjects_resume ctor (ApiOk (Some fetched)) st0) = fetched
   \<and> currentCompletedProjectsData (fetchCompletedProjects_resume ctor (ApiOk (Some fetched)) st0)
       = fetched
   \<and> requests (openEditModal i st) = requests st
   \<and> requests (exportActiveToCSV ctor st) = requests st
   \<and> requests (exportCompletedToCSV ctor st) = requests st
   \<and> ((find (\<lambda>p. strictEq (getProp p ''id'') (JNum i)) (currentProjectsData st) = Some project
        \<or> find (\<lambda>p. strictEq (getProp p ''id'') (JNum i)) (currentProjectsData st) = None
          \<and> find (\<lambda>p. strictEq (getProp p ''id'') (JNum i)) (currentCompletedProjectsData st)
              = Some project)
       \<and> datePart (getProp project ''po_date'') = Some po
       \<and> datePart (getProp project ''date_completed'') = Some completed \<longrightarrow>
        editModalOpen (openEditModal i st)
        \<and> editForm (openEditModal i st)
           = [(''edit-project_name'', String_js (orElse (getProp project ''project_name'') (JStr []))),
              (''edit-project_no'', String_js (orElse (getProp project ''project_no'') (JStr []))),
              (''edit-client'', String_js (orElse (getProp project ''client'') (JStr []))),
              (''edit-amount'', String_js (nullish (getProp project ''amount'') (JStr []))),
              (''edit-status'', String_js (nullish (getProp project ''status'') (JStr []))),
              (''edit-po_date'', po),
              (''edit-po_no'', String_js (orElse (getProp project ''po_no'') (JStr []))),
              (''edit-date_completed'', completed),
              (''edit-pic'', String_js (orElse (getProp project ''pic'') (JStr []))),
              (''edit-address'', String_js (orElse (getProp project ''address'') (JStr []))),
              (''edit-ds'', String_js (orElse (getProp project ''ds'') (JStr []))),
              (''edit-year'', String_js (nullish (getProp project ''year'') (JStr [])))])
   \<and> (currentProjectsData st \<noteq> [] \<longrightarrow>
        downloads (exportActiveToCSV ctor st)
          = downloads st @ [(''Active_Projects'', csvString ctor (currentProjectsData st))])
   \<and> (currentCompletedProjectsData st \<noteq> [] \<longrightarrow>
        downloads (exportCompletedToCSV ctor st)
          = downloads st
            @ [(''Completed_Projects'', csvString ctor (currentCompletedProjectsData st))])"
proof -
  have 1: "currentProjectsData (fetchActiveProjects_resume ctor (ApiOk (Some fetched)) st0) = fetched"
    by (simp add: fetchActiveProjects_resume_def renderActiveTable_def)
  have 2: "currentCompletedProjectsData (fetchCompletedProjects_resume ctor (ApiOk (Some fetched)) st0)
             = fetched"
    by (simp add: fetchCompletedProjects_resume_def renderCompletedTable_def)
  have 3: "requests (openEditModal i st) = requests st"
    by (rule requests_openEditModal)
  have 4: "requests (exportActiveToCSV ctor st) = requests st"
    by (simp add: exportActiveToCSV_def requests_exportToCSV)
  have 5: "requests (exportCompletedToCSV ctor st) = requests st"
    by (simp add: exportCompletedToCSV_def requests_exportToCSV)
  have 6: "currentProjectsData st \<noteq> [] \<longrightarrow>
        downloads (exportActiveToCSV ctor st)
          = downloads st @ [(''Active_Projects'', csvString ctor (currentProjectsData st))]"
    by (simp add: exportActiveToCSV_def exportToCSV_def)
  have 7: "currentCompletedProjectsData st \<noteq> [] \<longrightarrow>
        downloads (exportCompletedToCSV ctor st)
          = downloads st
            @ [(''Completed_Projects'', csvString ctor (currentCompletedProjectsData st))]"
    by (simp add: exportCompletedToCSV_def exportToCSV_def)
  show ?thesis
    using 1 2 3 4 5 6 7 openEditModal_filled [of i st project po completed]
    by (intro conjI impI) blast+
qed

lemma bothFetched_store:
  "find (\<lambda>p. strictEq (getProp p ''id'') (JNum (Fin 7))) (currentProjectsData bothFetched)
     = Some pumpProject"
  "find (\<lambda>p. strictEq (getProp p ''id'') (JNum (Fin 9))) (currentProjectsData bothFetched) = None"
  "find (\<lambda>p. strictEq (getProp p ''id'') (JNum (Fin 9))) (currentCompletedProjectsData bothFetched)
     = Some depotProject"
  "datePart (getProp pumpProject ''po_date'') = Some ''2024-03-10''"
  "datePart (getProp pumpProject ''date_completed'') = Some []"
  "datePart (getProp depotProject ''po_date'') = Some []"
  "datePart (getProp depotProject ''date_completed'') = Some ''2023-11-30''"
  "currentProjectsData bothFetched = [pumpProject]"
  "currentCompletedProjectsData bothFetched = [depotProject]"
  "requests bothFetched = []"
  "downloads bothFetched = []"
  by code_simp+

theorem project_data_read_from_store_witness:
  "find (\<lambda>p. strictEq (getProp p ''id'') (JNum (Fin 7))) (currentProjectsData bothFetched)
     = Some pumpProject
   \<and> datePart (getProp pumpProject ''po_date'') = Some ''2024-03-10''
   \<and> datePart (getProp pumpProject ''date_completed'') = Some []
   \<and> find (\<lambda>p. strictEq (getProp p ''id'') (JNum (Fin 9))) (currentProjectsData bothFetched) = None
   \<and> find (\<lambda>p. strictEq (getProp p ''id'') (JNum (Fin 9))) (currentCompletedProjectsData bothFetched)
       = Some depotProject
   \<and> datePart (getProp depotProject ''po_date'') = Some []
   \<and> datePart (getProp depotProject ''date_completed'') = Some ''2023-11-30''
   \<and> currentProjectsData bothFetched \<noteq> []
   \<and> currentCompletedProjectsData bothFetched \<noteq> []
   \<and> editModalOpen (openEditModal (Fin 7) bothFetched)
   \<and> map_of (editForm (openEditModal (Fin 7) bothFetched)) ''edit-project_name'' = Some ''Pump Station''
   \<and> map_of (editForm (openEditModal (Fin 7) bothFetched)) ''edit-po_date'' = Some ''2024-03-10''
   \<and> editModalOpen (openEditModal (Fin 9) bothFetched)
   \<and> map_of (editForm (openEditModal (Fin 9) bothFetched)) ''edit-project_name'' = Some ''Depot''
   \<and> map_of (editForm (openEditModal (Fin 9) bothFetched)) ''edit-date_completed'' = Some ''2023-11-30''
   \<and> requests (openEditModal (Fin 9) bothFetched) = []
   \<and> downloads (exportActiveToCSV strictCtor bothFetched)
       = [(''Active_Projects'', csvString strictCtor [pumpProject])]
   \<and> downloads (exportCompletedToCSV strictCtor bothFetched)
       = [(''Completed_Projects'', csvString strictCtor [depotProject])]"
proof -
  note a = project_data_read_from_store [of strictCtor "[pumpProject]" initialPage "Fin 7" bothFetched
      pumpProject "''2024-03-10''" "[]"]
  note b = project_data_read_from_store [of strictCtor "[depotProject]" initialPage "Fin 9" bothFetched
      depotProject "[]" "''2023-11-30''"]
  have n: "String_js (orElse (getProp pumpProject ''project_name'') (JStr [])) = ''Pump Station''"
     "String_js (orElse (getProp depotProject ''project_name'') (JStr [])) = ''Depot''"
    by code_simp+
  show ?thesis
    using a b bothFetched_store n by simp
qed

lemma statusPage_store:
  "currentProjectsData statusPage = [pumpProject]"
  "requests statusPage = []"
  "downloads statusPage = []"
  "find (\<lambda>p. strictEq (getProp p ''id'') (JNum (Fin 7))) (currentProjectsData statusPage)
     = Some pumpProject"
  "String_js (orElse (getProp pumpProject ''project_name'') (JStr [])) = ''Pump Station''"
  "map_of (editForm (openEditModal (Fin 7) statusPage)) ''edit-po_date'' = Some ''2024-03-10''"
  "editModalOpen (openEditModal (Fin 7) statusPage)"
  by code_simp+

text \<open>
  Against the claim as stated: after one fetch has answered with the project 7, the edit
  button shows the project's name and date in the form, the modal is open, and the list
  of requests is still empty.
\<close>

theorem no_cache_counterexample:
  "currentProjectsData statusPage = [pumpProject]
   \<and> requests statusPage = []
   \<and> requests (openEditModal (Fin 7) statusPage) = []
   \<and> editModalOpen (openEditModal (Fin 7) statusPage)
   \<and> map_of (editForm (openEditModal (Fin 7) statusPage)) ''edit-project_name'' = Some ''Pump Station''
   \<and> map_of (editForm (openEditModal (Fin 7) statusPage)) ''edit-po_date'' = Some ''2024-03-10''"
  using openEditModal_found [of "Fin 7" statusPage pumpProject] statusPage_store
  by (simp add: requests_openEditModal)

section \<open>Properties of the MRF items log\<close>

lemma statusOptions_eight:
  "length statusOptions = 8" "distinct statusOptions" "statusOptions \<noteq> []"
  by (simp_all add: statusOptions_def)

lemma filterStatuses_eq: "filterStatuses = statusOptions"
  by (simp add: filterStatuses_def filterStatusOptions_def statusOptions_def)

lemma selectedValue_in: "options \<noteq> [] \<Longrightarrow> selectedValue options v \<in> set options"
  by (cases options; cases v) (auto simp: selectedValue_def)

lemma mrfRowCells_status:
  assumes "cl \<in> set (mrfRowCells b item)" "mrfField cl = ''item_status''"
  shows "mrfType cl = ''select'' \<and> mrfOptions cl = statusOptions \<and> isStatusSelect (mrfContent cl)"
  using assms
  by (auto simp: mrfRowCells_def Let_def setupEditableCell_def plainCell_def isStatusSelect_def)

lemma statusCellsOk_displayMrfLog: "statusCellsOk (displayMrfLog b items st)"
  unfolding statusCellsOk_def
proof (intro allI impI)
  fix c
  let ?shown = "if items = [] then [plainCell ''No MRF item records found.'']
                else concat (map (mrfRowCells b) items)"
  let ?cl = "mrfCells (displayMrfLog b items st) c"
  assume f: "mrfField ?cl = ''item_status''"
  have cl: "?cl = (if c < length ?shown then ?shown ! c else plainCell [])"
    by (simp add: displayMrfLog_def Let_def)
  have c: "c < length ?shown"
    using f cl by (auto simp: plainCell_def split: if_splits)
  then have "?cl \<in> set ?shown"
    using cl nth_mem [OF c] by simp
  moreover have "items \<noteq> []"
    using f cl c by (auto simp: plainCell_def split: if_splits)
  ultimately obtain item where "?cl \<in> set (mrfRowCells b item)"
    by auto
  then show "mrfType ?cl = ''select'' \<and> mrfOptions ?cl = statusOptions
      \<and> isStatusSelect (mrfContent ?cl)"
    using f by (rule mrfRowCells_status)
qed

lemma statusCellsOk_same:
  "mrfCells st' = mrfCells st \<Longrightarrow> statusCellsOk st' = statusCellsOk st"
  by (simp add: statusCellsOk_def)

lemma statusCellsOk_content:
  assumes "statusCellsOk st"
      and "mrfField (mrfCells st c) = ''item_status'' \<Longrightarrow> isStatusSelect ct"
  shows "statusCellsOk (updateMrfCell c (\<lambda>x. x\<lparr>mrfContent := ct\<rparr>) st)"
  unfolding statusCellsOk_def
proof (intro allI impI)
  fix k
  assume f: "mrfField (mrfCells (updateMrfCell c (\<lambda>x. x\<lparr>mrfContent := ct\<rparr>) st) k) = ''item_status''"
  show "mrfType (mrfCells (updateMrfCell c (\<lambda>x. x\<lparr>mrfContent := ct\<rparr>) st) k) = ''select''
      \<and> mrfOptions (mrfCells (updateMrfCell c (\<lambda>x. x\<lparr>mrfContent := ct\<rparr>) st) k) = statusOptions
      \<and> isStatusSelect (mrfContent (mrfCells (updateMrfCell c (\<lambda>x. x\<lparr>mrfContent := ct\<rparr>) st) k))"
  proof (cases "k = c")
    case True
    then have "mrfField (mrfCells st c) = ''item_status''"
      using f by (simp add: updateMrfCell_def)
    then show ?thesis
      using True assms by (simp add: updateMrfCell_def statusCellsOk_def)
  next
    case False
    then show ?thesis
      using f assms(1) by (simp add: updateMrfCell_def statusCellsOk_def)
  qed
qed

lemma statusCellsOk_clicked:
  assumes "statusCellsOk st"
  shows "statusCellsOk (mrfCellClicked b c st)"
proof (cases "mrfEditable (mrfCells st c)")
  case False
  then show ?thesis using assms by (simp add: mrfCellClicked_def Let_def)
next
  case True
  show ?thesis
  proof (cases "mrfContent (mrfCells st c)")
    case (MrfControl ctl)
    then show ?thesis using assms True by (simp add: mrfCellClicked_def Let_def)
  next
    case (MrfText shown)
    let ?made = "if mrfType (mrfCells st c) = ''select''
        then Some (SelectEl (mrfOptions (mrfCells st c))
                     (selectedValue (mrfOptions (mrfCells st c)) (mrfItemValue (mrfCells st c))))
        else if mrfType (mrfCells st c) = ''date''
        then (if truthy (mrfItemValue (mrfCells st c))
              then map_option (InputEl ''date'') (toISODate b (mrfItemValue (mrfCells st c)))
              else Some (InputEl ''date'' []))
        else if mrfType (mrfCells st c) = ''number''
        then Some (InputEl ''number'' (shownValue b ''number'' (mrfItemValue (mrfCells st c))))
        else if mrfType (mrfCells st c) = ''textarea''
        then Some (TextareaEl (shownValue b ''textarea'' (mrfItemValue (mrfCells st c))))
        else Some (InputEl ''text'' (shownValue b ''text'' (mrfItemValue (mrfCells st c))))"
    have e: "mrfCellClicked b c st
        = (case ?made of None \<Rightarrow> st
           | Some ctl \<Rightarrow> updateMrfCell c (\<lambda>x. x\<lparr>mrfContent := MrfControl ctl\<rparr>) st)"
      using True MrfText by (simp add: mrfCellClicked_def Let_def)
    show ?thesis
    proof (cases ?made)
      case None
      then show ?thesis using assms e by simp
    next
      case (Some ctl)
      have "isStatusSelect (MrfControl ctl)" if f: "mrfField (mrfCells st c) = ''item_status''"
      proof -
        have t: "mrfType (mrfCells st c) = ''select''" "mrfOptions (mrfCells st c) = statusOptions"
          using assms f by (simp_all add: statusCellsOk_def)
        then have "ctl = SelectEl statusOptions (selectedValue statusOptions (mrfItemValue (mrfCells st c)))"
          using Some by simp
        then show ?thesis
          using selectedValue_in [OF statusOptions_eight(3)] by (simp add: isStatusSelect_def)
      qed
      then have "statusCellsOk (updateMrfCell c (\<lambda>x. x\<lparr>mrfContent := MrfControl ctl\<rparr>) st)"
        using assms by (intro statusCellsOk_content)
      then show ?thesis using e Some by simp
    qed
  qed
qed

lemma statusCellsOk_chooseOption:
  assumes "statusCellsOk st"
  shows "statusCellsOk (chooseOption c i st)"
proof (cases "mrfContent (mrfCells st c)")
  case (MrfText s)
  then show ?thesis using assms by (simp add: chooseOption_def)
next
  case (MrfControl ctl)
  show ?thesis
  proof (cases ctl)
    case (SelectEl options v)
    show ?thesis
    proof (cases "i < length options")
      case False
      then show ?thesis using assms MrfControl SelectEl by (simp add: chooseOption_def)
    next
      case True
      have "isStatusSelect (MrfControl (SelectEl options (options ! i)))"
        if "mrfField (mrfCells st c) = ''item_status''"
      proof -
        have "isStatusSelect (mrfContent (mrfCells st c))"
          using assms that by (simp add: statusCellsOk_def)
        then have "options = statusOptions"
          using MrfControl SelectEl by (simp add: isStatusSelect_def)
        then show ?thesis using True by (simp add: isStatusSelect_def)
      qed
      then have "statusCellsOk
          (updateMrfCell c (\<lambda>x. x\<lparr>mrfContent := MrfControl (SelectEl options (options ! i))\<rparr>) st)"
        using assms by (intro statusCellsOk_content)
      then show ?thesis using True MrfControl SelectEl by (simp add: chooseOption_def)
    qed
  next
    case (InputEl type v)
    then show ?thesis using assms MrfControl by (simp add: chooseOption_def)
  next
    case (TextareaEl v)
    then show ?thesis using assms MrfControl by (simp add: chooseOption_def)
  qed
qed

lemma statusCellsOk_enterText:
  assumes "statusCellsOk st"
  shows "statusCellsOk (enterText c s st)"
proof (cases "mrfContent (mrfCells st c)")
  case (MrfText t)
  then show ?thesis using assms by (simp add: enterText_def)
next
  case (MrfControl ctl)
  have ok: "mrfField (mrfCells st c) = ''item_status'' \<Longrightarrow> isStatusSelect (MrfControl ctl)"
    using assms MrfControl by (auto simp: statusCellsOk_def)
  show ?thesis
  proof (cases ctl)
    case (SelectEl options v)
    then show ?thesis using assms MrfControl by (simp add: enterText_def)
  next
    case (InputEl type v)
    then have "statusCellsOk (updateMrfCell c (\<lambda>x. x\<lparr>mrfContent := MrfControl (InputEl type s)\<rparr>) st)"
      using assms ok by (intro statusCellsOk_content) (simp_all add: isStatusSelect_def)
    then show ?thesis using MrfControl InputEl by (simp add: enterText_def)
  next
    case (TextareaEl v)
    then have "statusCellsOk (updateMrfCell c (\<lambda>x. x\<lparr>mrfContent := MrfControl (TextareaEl s)\<rparr>) st)"
      using assms ok by (intro statusCellsOk_content) (simp_all add: isStatusSelect_def)
    then show ?thesis using MrfControl TextareaEl by (simp add: enterText_def)
  qed
qed

lemma statusCellsOk_save:
  assumes "statusCellsOk st"
  shows "statusCellsOk (fst (saveEditedMrfItem b c v st))"
proof -
  let ?orig = "mrfTextContent (mrfCells st c)"
  have t: "statusCellsOk (updateMrfCell c (\<lambda>x. x\<lparr>mrfContent := MrfText ?orig\<rparr>) st)"
    using assms by (intro statusCellsOk_content) (simp_all add: isStatusSelect_def)
  show ?thesis
  proof (cases "v = ?orig \<or> (v = [] \<and> ?orig = ''N/A'')")
    case True
    then show ?thesis using t by (simp add: saveEditedMrfItem_def Let_def)
  next
    case False
    then have "mrfCells (fst (saveEditedMrfItem b c v st)) = mrfCells st"
      by (auto simp: saveEditedMrfItem_def Let_def)
    then show ?thesis using assms statusCellsOk_same by blast
  qed
qed

lemma statusCellsOk_resume:
  assumes "statusCellsOk st"
  shows "statusCellsOk (saveEditedMrfItem_resume p a st)"
proof (cases a)
  case MrfOk
  have "statusCellsOk (updateMrfCell (pmCell p) (\<lambda>x. x\<lparr>mrfContent := MrfText (pmDisplayValue p)\<rparr>) st)"
    using assms by (intro statusCellsOk_content) (simp_all add: isStatusSelect_def)
  then show ?thesis using MrfOk by (simp add: saveEditedMrfItem_resume_def)
next
  case (MrfFailed message)
  let ?st1 = "st\<lparr>mrfAlerts := mrfAlerts st @ [''Failed to save changes: '' @ message]\<rparr>"
  have "statusCellsOk ?st1"
    using assms statusCellsOk_same [of ?st1 st] by simp
  then have "statusCellsOk (updateMrfCell (pmCell p) (\<lambda>x. x\<lparr>mrfContent := MrfText (pmOriginalValue p)\<rparr>) ?st1)"
    by (intro statusCellsOk_content) (simp_all add: isStatusSelect_def)
  then show ?thesis using MrfFailed by (simp add: saveEditedMrfItem_resume_def)
qed

text \<open>A request sent from a well-formed page assigns no status outside the eight.\<close>

lemma assignedStatuses_append:
  "assignedStatuses (rs @ [Request m u body])
     = assignedStatuses rs \<union> {v. (''item_status'', v) \<in> set body}"
  by (auto simp: assignedStatuses_def)

lemma assigned_controlBlurred:
  assumes "statusCellsOk st"
  shows "assignedStatuses (mrfRequests (fst (controlBlurred b c st)))
           \<subseteq> assignedStatuses (mrfRequests st) \<union> JStr ` set statusOptions"
proof (cases "mrfContent (mrfCells st c)")
  case (MrfText s)
  then show ?thesis by (simp add: controlBlurred_def)
next
  case (MrfControl ctl)
  have v: "controlValue ctl \<in> set statusOptions" if "mrfField (mrfCells st c) = ''item_status''"
    using assms that MrfControl
    by (auto simp: statusCellsOk_def isStatusSelect_def controlValue_def split: control.splits)
  show ?thesis
    using MrfControl v
    by (auto simp: controlBlurred_def saveEditedMrfItem_def Let_def assignedStatuses_append
        updateMrfCell_def split: if_splits)
qed

lemma mrfRequests_frames:
  "mrfRequests (mrfCellClicked b c st) = mrfRequests st"
  "mrfRequests (chooseOption c i st) = mrfRequests st"
  "mrfRequests (enterText c t st) = mrfRequests st"
  "mrfRequests (saveEditedMrfItem_resume p a st) = mrfRequests st"
  by (simp_all add: mrfCellClicked_def chooseOption_def enterText_def saveEditedMrfItem_resume_def
      updateMrfCell_def Let_def
      split: mrfContent.split control.split option.split mrfAnswer.split)

lemma mrfStep_keeps:
  assumes "statusCellsOk st"
      and "assignedStatuses (mrfRequests st) \<subseteq> JStr ` set statusOptions"
  shows "statusCellsOk (fst (mrfStep b ev (st, pending)))
       \<and> assignedStatuses (mrfRequests (fst (mrfStep b ev (st, pending)))) \<subseteq> JStr ` set statusOptions"
proof (cases ev)
  case (CellClicked c)
  then show ?thesis
    using assms statusCellsOk_clicked [of st b c]
    by (simp add: mrfStep_def mrfRequests_frames)
next
  case (OptionChosen c i)
  then show ?thesis
    using assms statusCellsOk_chooseOption [of st c i]
    by (simp add: mrfStep_def mrfRequests_frames)
next
  case (TextEntered c t)
  then show ?thesis
    using assms statusCellsOk_enterText [of st c t]
    by (simp add: mrfStep_def mrfRequests_frames)
next
  case (ControlBlurred c)
  have f: "fst (mrfStep b ev (st, pending)) = fst (controlBlurred b c st)"
    using ControlBlurred by (simp add: mrfStep_def split: prod.split option.split)
  have "statusCellsOk (fst (controlBlurred b c st))"
    using assms(1) statusCellsOk_save
    by (simp add: controlBlurred_def split: mrfContent.split)
  then show ?thesis
    using assms assigned_controlBlurred [of st b c] unfolding f by blast
next
  case (MrfAnswered i a)
  then show ?thesis
    using assms statusCellsOk_resume [of st "pending ! i" a]
    by (simp add: mrfStep_def mrfRequests_frames)
qed

lemma mrfRun_keeps:
  assumes "statusCellsOk (fst s)"
      and "assignedStatuses (mrfRequests (fst s)) \<subseteq> JStr ` set statusOptions"
  shows "statusCellsOk (fst (mrfRun b evs s))
       \<and> assignedStatuses (mrfRequests (fst (mrfRun b evs s))) \<subseteq> JStr ` set statusOptions"
  using assms
proof (induction evs arbitrary: s)
  case Nil
  then show ?case by (simp add: mrfRun_def)
next
  case (Cons ev evs)
  obtain st pending where s: "s = (st, pending)" by (cases s)
  have "statusCellsOk (fst (mrfStep b ev s))
      \<and> assignedStatuses (mrfRequests (fst (mrfStep b ev s))) \<subseteq> JStr ` set statusOptions"
    using Cons.prems mrfStep_keeps unfolding s by simp
  then have "statusCellsOk (fst (mrfRun b evs (mrfStep b ev s)))
      \<and> assignedStatuses (mrfRequests (fst (mrfRun b evs (mrfStep b ev s)))) \<subseteq> JStr ` set statusOptions"
    using Cons.IH by blast
  then show ?case by (simp add: mrfRun_def)
qed

text \<open>
  C6. Whatever the user does in the items log that \<open>displayMrfLog\<close> has written, for any
  items, every status that a request assigns is one of the eight options; the statuses
  offered by the filter are the same eight, which are distinct.
\<close>

theorem statuses_are_the_eight:
  "assignedStatuses (mrfRequests (fst (mrfRun b evs (displayMrfLog b items emptyMrfPage, []))))
     \<subseteq> JStr ` set statusOptions
   \<and> filterStatuses = statusOptions
   \<and> statusOptions = [''Processing'', ''Pending Approval'', ''For Purchase Order'',
                       ''Awaiting Delivery'', ''Delivered to CMR'', ''Delivered to Site'',
                       ''Cancelled'', ''On Hold'']
   \<and> distinct statusOptions"
proof (intro conjI)
  have "assignedStatuses (mrfRequests (displayMrfLog b items emptyMrfPage)) = {}"
    by (simp add: displayMrfLog_def emptyMrfPage_def assignedStatuses_def Let_def)
  then show "assignedStatuses (mrfRequests (fst (mrfRun b evs (displayMrfLog b items emptyMrfPage, []))))
     \<subseteq> JStr ` set statusOptions"
    using mrfRun_keeps [of "(displayMrfLog b items emptyMrfPage, [])" b evs]
      statusCellsOk_displayMrfLog [of b items emptyMrfPage]
    by simp
  show "filterStatuses = statusOptions" by (rule filterStatuses_eq)
  show "statusOptions = [''Processing'', ''Pending Approval'', ''For Purchase Order'',
                       ''Awaiting Delivery'', ''Delivered to CMR'', ''Delivered to Site'',
                       ''Cancelled'', ''On Hold'']"
    by (simp add: statusOptions_def)
  show "distinct statusOptions" by (rule statusOptions_eight(2))
qed

lemma statusPicked_request:
  "mrfRequests (fst statusPicked)
     = [Request ''PUT'' ''/api/mrf_items'' [(''id'', JStr ''12''), (''item_status'', JStr ''Delivered to Site'')]]"
  by code_simp

theorem statuses_are_the_eight_witness:
  "JStr ''Delivered to Site'' \<in> assignedStatuses (mrfRequests (fst statusPicked))
   \<and> JStr ''Delivered to Site'' \<in> JStr ` set statusOptions"
proof -
  have "JStr ''Delivered to Site'' \<in> assignedStatuses (mrfRequests (fst statusPicked))"
    by (simp add: statusPicked_request assignedStatuses_def)
  then show ?thesis
    using statuses_are_the_eight [of plainBrowser "[CellClicked 10, OptionChosen 10 5, ControlBlurred 10]"
        "[valveItem]"]
    unfolding statusPicked_def valveLog_def by blast
qed

end
